theory Spec2Isabelle
  imports Main
begin

section \<open>Errors and formatting\<close>

text \<open>
  A Go \<open>error\<close> is modelled by its message. \<open>errors.Wrapf(err, msg)\<close> prefixes the
  message, and the verb \<open>%q\<close> puts a string between double quotes (escapes inside the
  string are not modelled).
\<close>

type_synonym error = string

definition Wrapf :: "error \<Rightarrow> string \<Rightarrow> error" where
  "Wrapf err msg = msg @ '': '' @ err"

definition quoted :: "string \<Rightarrow> string" where
  "quoted s = [CHR 0x22] @ s @ [CHR 0x22]"

section \<open>The Go library functions the code calls\<close>

text \<open>
  \<open>strings.HasPrefix\<close>, \<open>strings.LastIndex\<close> and \<open>strings.Split\<close> for a separator of one
  character, \<open>strings.ReplaceAll\<close> of one character by another, \<open>strings.Join\<close>, and
  \<open>path.Clean\<close>, \<open>path.Join\<close>, \<open>path.Base\<close> of the standard library, after their
  source text.
\<close>

definition HasPrefix :: "string \<Rightarrow> string \<Rightarrow> bool" where
  "HasPrefix s pre = (take (length pre) s = pre)"

fun LastIndex :: "string \<Rightarrow> char \<Rightarrow> nat option" where
  "LastIndex [] ch = None"
| "LastIndex (c # cs) ch =
     (case LastIndex cs ch of
        Some i \<Rightarrow> Some (Suc i)
      | None \<Rightarrow> if c = ch then Some 0 else None)"

fun Split :: "string \<Rightarrow> char \<Rightarrow> string list" where
  "Split [] sep = [[]]"
| "Split (c # cs) sep =
     (if c = sep then [] # Split cs sep
      else case Split cs sep of
             [] \<Rightarrow> [[c]]
           | x # xs \<Rightarrow> (c # x) # xs)"

definition ReplaceAll :: "string \<Rightarrow> char \<Rightarrow> char \<Rightarrow> string" where
  "ReplaceAll s old new = map (\<lambda>c. if c = old then new else c) s"

fun Join :: "string list \<Rightarrow> string \<Rightarrow> string" where
  "Join [] sep = []"
| "Join [x] sep = x"
| "Join (x # y # ys) sep = x @ sep @ Join (y # ys) sep"

text \<open>
  \<open>path.Clean\<close> works on the components between slashes: empty components and \<open>.\<close> are
  dropped, \<open>..\<close> removes the component before it (at the root it is dropped, at the
  start of a relative path it is kept). \<open>out\<close> is the output so far, last component
  first.
\<close>

fun cleanParts :: "bool \<Rightarrow> string list \<Rightarrow> string list \<Rightarrow> string list" where
  "cleanParts rooted [] out = rev out"
| "cleanParts rooted (c # cs) out =
     (if c = [] \<or> c = ''.'' then cleanParts rooted cs out
      else if c = ''..'' then
        (case out of
           [] \<Rightarrow> if rooted then cleanParts rooted cs [] else cleanParts rooted cs [''..'']
         | prev # below \<Rightarrow>
             if prev = ''..'' then cleanParts rooted cs (''..'' # out)
             else cleanParts rooted cs below)
      else cleanParts rooted cs (c # out))"

definition path_Clean :: "string \<Rightarrow> string" where
  "path_Clean p =
     (if p = [] then ''.''
      else
        let rooted = HasPrefix p ''/'';
            s = (if rooted then ''/'' else []) @ Join (cleanParts rooted (Split p CHR ''/'') []) ''/''
        in if s = [] then ''.'' else s)"

fun joinBuf :: "string list \<Rightarrow> string \<Rightarrow> string" where
  "joinBuf [] buf = buf"
| "joinBuf (e # es) buf =
     (if buf \<noteq> [] \<or> e \<noteq> [] then joinBuf es ((if buf \<noteq> [] then buf @ ''/'' else buf) @ e)
      else joinBuf es buf)"

definition path_Join :: "string list \<Rightarrow> string" where
  "path_Join elem = (if concat elem = [] then [] else path_Clean (joinBuf elem []))"

definition path_Base :: "string \<Rightarrow> string" where
  "path_Base p =
     (if p = [] then ''.''
      else
        let p1 = rev (dropWhile (\<lambda>c. c = CHR ''/'') (rev p));
            p2 = (case LastIndex p1 CHR ''/'' of Some i \<Rightarrow> drop (Suc i) p1 | None \<Rightarrow> p1)
        in if p2 = [] then ''/'' else p2)"

section \<open>The plugin contract: manifest, commands, hooks\<close>

datatype FlagType = FlagTypeString | FlagTypeInt | FlagTypeBool | FlagTypeOther string

record Flag =
  FlagName :: string
  FlagKind :: FlagType
  DefaultValue :: string

datatype Command =
  Command (Use: string) (PlaceCommandUnder: string) (Flags: "Flag list") (Commands: "Command list")

record Hook =
  HookName :: string
  PlaceHookOn :: string

record Manifest =
  ManifestName :: string
  SharedHost :: bool
  ManifestCommands :: "Command list"
  Hooks :: "Hook list"

record ExecutedCommand =
  ExecUse :: string
  ExecPath :: string
  Args :: "string list"
  OsArgs :: "string list"
  ExecWith :: "(string \<times> string) list"

record ExecutedHook =
  ExecHook :: Hook
  ExecCommand :: ExecutedCommand

text \<open>
  \<open>Interface\<close> is the Go interface through which the host talks to one plugin. A value
  of the interface is the record of its methods; every call is an RPC to the plugin
  process ("in fact over an gRPC connection"), so each method is given by the answer the
  plugin sends back.
\<close>

record Interface =
  RpcManifest :: "error + Manifest"
  RpcExecute :: "ExecutedCommand \<Rightarrow> error option"
  RpcExecuteHookPre :: "ExecutedHook \<Rightarrow> error option"
  RpcExecuteHookPost :: "ExecutedHook \<Rightarrow> error option"
  RpcExecuteHookCleanUp :: "ExecutedHook \<Rightarrow> error option"

section \<open>The process-level state and the external collaborators\<close>

text \<open>
  \<open>hplugin.ReattachConfig\<close>: the address and the process of a running plugin.
  \<open>hplugin.Client\<close>: the configuration it was created with (\<open>Reattach\<close> or \<open>Cmd\<close>) and,
  once \<open>Client()\<close> has connected, the descriptor \<open>ReattachConfig()\<close> returns.
\<close>

record ReattachConfig =
  Addr :: "string option"
  Pid :: nat

record Client =
  Reattach :: "ReattachConfig option"
  Cmd :: "string option"
  Started :: "ReattachConfig option"

datatype event =
    EvClone string string
  | EvRemoveAll string
  | EvModTidy string
  | EvBuild string string
  | EvConnect string
  | EvManifest string
  | EvExecute string ExecutedCommand
  | EvHookPre string ExecutedHook
  | EvHookPost string ExecutedHook
  | EvHookCleanUp string ExecutedHook
  | EvPrint string
  | EvPrintTable "string list list"

text \<open>
  What \<open>newChainWithHomeFlags\<close> answers: a chain, \<open>gomodule.ErrGoModNotFound\<close> (the
  command runs outside a chain directory) or another error. It reads the chain's files,
  which the body of a command may change, so the answer is part of the state.
\<close>

datatype chain_lookup = ChainFound | ErrGoModNotFound | ChainFailed error

text \<open>
  The state the functions act on: the persisted reattachment cache (keyed by the app
  path), the plugin processes that have been killed, what \<open>newChainWithHomeFlags\<close>
  answers, and the trace of the calls made to the collaborators (version control,
  toolchain, RPC, console), in order.
\<close>

record world =
  storageCache :: "string \<rightharpoonup> ReattachConfig"
  exited :: "nat set"
  chainState :: chain_lookup
  trace :: "event list"

definition emit :: "event \<Rightarrow> world \<Rightarrow> world" where
  "emit e w = w\<lparr>trace := trace w @ [e]\<rparr>"

text \<open>
  What \<open>filepath.Walk\<close> hands to its callback for one entry of the tree: an entry that
  could not be read, or a path with its \<open>IsDir\<close> and \<open>ModTime\<close>. Times are offsets from
  Go's zero \<open>time.Time\<close>.
\<close>

datatype walk_item = WalkFailed error | WalkEntry string bool int

text \<open>
  The collaborators, by their answers: the file system (\<open>os.Stat\<close>, \<open>os.RemoveAll\<close>,
  \<open>filepath.Walk\<close>), version control (\<open>xgit.Clone\<close>), the toolchain (\<open>gocmd.ModTidy\<close>,
  \<open>gocmd.Build\<close>), the opening of the cache store (\<open>newCache\<close>), the plugin transport
  (\<open>Client()\<close>, \<open>Dispense\<close>), the table printer, \<open>os.Args\<close>
  and the two status icons (constants of a package outside the given sources).
\<close>

record env =
  newCacheErr :: "error option"
  statErr :: "string \<Rightarrow> error option"
  statIsDir :: "string \<Rightarrow> bool"
  removeAllErr :: "string \<Rightarrow> error option"
  cloneErr :: "string \<Rightarrow> string \<Rightarrow> error option"
  walkItems :: "string \<Rightarrow> walk_item list"
  modTidyErr :: "string \<Rightarrow> error option"
  buildErr :: "string \<Rightarrow> string \<Rightarrow> error option"
  clientErr :: "error option"
  launched :: ReattachConfig
  dispense :: "string \<Rightarrow> error + Interface"
  printTableErr :: "error option"
  osArgs :: "string list"
  iconOK :: string
  iconNotOK :: string

section \<open>The reattachment cache\<close>

text \<open>
  Modelled from the spec: the type \<open>cache.Cache\<close> is declared outside the given sources.
  It is "a persisted mapping from app reference to a process-reattachment descriptor":
  \<open>Put\<close> stores under the key, \<open>Get\<close> fails when the key is absent, \<open>Delete\<close> removes
  the key. The functions below are the source's; \<open>newCache\<close> may fail.
\<close>

definition writeConfigCache :: "env \<Rightarrow> string \<Rightarrow> ReattachConfig \<Rightarrow> world \<Rightarrow> error option \<times> world" where
  "writeConfigCache E appPath conf w =
     (if appPath = [] then (Some (''provided path is invalid: '' @ appPath), w)
      else if Addr conf = None then (Some ''app Address info cannot be empty'', w)
      else case newCacheErr E of
        Some err \<Rightarrow> (Some err, w)
      | None \<Rightarrow> (None, w\<lparr>storageCache := (storageCache w)(appPath \<mapsto> conf)\<rparr>))"

definition readConfigCache :: "env \<Rightarrow> string \<Rightarrow> world \<Rightarrow> error + ReattachConfig" where
  "readConfigCache E appPath w =
     (if appPath = [] then Inl (''provided path is invalid: '' @ appPath)
      else case newCacheErr E of
        Some err \<Rightarrow> Inl err
      | None \<Rightarrow> (case storageCache w appPath of
                   None \<Rightarrow> Inl ''no entry found''
                 | Some conf \<Rightarrow> Inr conf))"

definition checkConfCache :: "env \<Rightarrow> string \<Rightarrow> world \<Rightarrow> bool" where
  "checkConfCache E appPath w =
     (if appPath = [] then False
      else case newCacheErr E of
        Some err \<Rightarrow> False
      | None \<Rightarrow> (case storageCache w appPath of None \<Rightarrow> False | Some conf \<Rightarrow> True))"

definition deleteConfCache :: "env \<Rightarrow> string \<Rightarrow> world \<Rightarrow> error option \<times> world" where
  "deleteConfCache E appPath w =
     (if appPath = [] then (Some (''provided path is invalid: '' @ appPath), w)
      else case newCacheErr E of
        Some err \<Rightarrow> (Some err, w)
      | None \<Rightarrow> (None, w\<lparr>storageCache := (storageCache w)(appPath := None)\<rparr>))"

section \<open>The App value\<close>

text \<open>
  \<open>appsconfig.App\<close> is the configuration entry; \<open>App\<close> embeds it. The event bus and the
  two output sinks of \<open>App\<close> carry progress messages and the plugin's output only; they
  are left out, and so are the \<open>Option\<close>s, which set nothing else.
\<close>

record AppConfig =
  Path :: string
  With :: "(string \<times> string) list"
  Global :: bool

record App = AppConfig +
  Interface :: "Interface option"
  Error :: "error option"
  name :: string
  repoPath :: string
  cloneURL :: string
  cloneDir :: string
  reference :: string
  srcPath :: string
  client :: "Client option"
  manifest :: "Manifest option"
  isHost :: bool
  isSharedHost :: bool

text \<open>
  Modelled from the spec: \<open>IsLocalPath\<close> is a method of the embedded configuration
  entry, declared outside the given sources. "Reference beginning with a path separator
  is local" ("Local apps have their path starting with a `/`").
\<close>

definition IsLocalPath :: "App \<Rightarrow> bool" where
  "IsLocalPath p = HasPrefix (Path p) ''/''"

definition binaryName :: "App \<Rightarrow> string" where
  "binaryName p = name p @ ''.ign''"

definition binaryPath :: "App \<Rightarrow> string" where
  "binaryPath p = path_Join [srcPath p, binaryName p]"

subsection \<open>Termination\<close>

definition Kill :: "Client \<Rightarrow> world \<Rightarrow> world" where
  "Kill c w = (case Started c of None \<Rightarrow> w | Some rc \<Rightarrow> w\<lparr>exited := insert (Pid rc) (exited w)\<rparr>)"

definition KillClient :: "env \<Rightarrow> App \<Rightarrow> world \<Rightarrow> App \<times> world" where
  "KillClient E p w =
     (if isSharedHost p \<and> \<not> isHost p then (p, w)
      else
        let w1 = (case client p of None \<Rightarrow> w | Some c \<Rightarrow> Kill c w) in
        if isHost p then (p\<lparr>isHost := False\<rparr>, snd (deleteConfCache E (Path p) w1))
        else (p, w1))"

subsection \<open>Fetching and cleaning\<close>

definition fetch :: "env \<Rightarrow> App \<Rightarrow> world \<Rightarrow> App \<times> world" where
  "fetch E p w =
     (if IsLocalPath p then (p, w)
      else if Error p \<noteq> None then (p, w)
      else
        let urlref = cloneURL p @ ''@'' @ reference p;
            w1 = emit (EvClone urlref (cloneDir p)) w
        in case cloneErr E urlref (cloneDir p) of
             Some err \<Rightarrow> (p\<lparr>Error := Some (Wrapf err (''cloning '' @ quoted (repoPath p)))\<rparr>, w1)
           | None \<Rightarrow> (p, w1))"

definition clean :: "env \<Rightarrow> App \<Rightarrow> world \<Rightarrow> error option \<times> world" where
  "clean E p w =
     (if Error p \<noteq> None then (None, w)
      else if IsLocalPath p then (None, w)
      else (removeAllErr E (cloneDir p), emit (EvRemoveAll (cloneDir p)) w))"

fun Update :: "env \<Rightarrow> App list \<Rightarrow> world \<Rightarrow> error option \<times> App list \<times> world" where
  "Update E [] w = (None, [], w)"
| "Update E (p # ps) w =
     (case clean E p w of
        (Some err, w1) \<Rightarrow> (Some err, p # ps, w1)
      | (None, w1) \<Rightarrow>
          (case fetch E p w1 of (p1, w2) \<Rightarrow>
             (case Update E ps w2 of (r, ps1, w3) \<Rightarrow> (r, p1 # ps1, w3))))"

subsection \<open>Building\<close>

definition build :: "env \<Rightarrow> App \<Rightarrow> world \<Rightarrow> App \<times> world" where
  "build E p w =
     (if Error p \<noteq> None then (p, w)
      else
        let w1 = emit (EvModTidy (srcPath p)) w in
        case modTidyErr E (srcPath p) of
          Some err \<Rightarrow> (p\<lparr>Error := Some (Wrapf err ''go mod tidy'')\<rparr>, w1)
        | None \<Rightarrow>
            let w2 = emit (EvBuild (binaryName p) (srcPath p)) w1 in
            (case buildErr E (binaryName p) (srcPath p) of
               Some err \<Rightarrow> (p\<lparr>Error := Some (Wrapf err ''go build'')\<rparr>, w2)
             | None \<Rightarrow> (p, w2)))"

text \<open>
  The callback \<open>outdatedBinary\<close> gives to \<open>filepath.Walk\<close>, run over the entries in the
  order of the walk. The state is the pair \<open>(binaryTime, mostRecent)\<close>; the zero
  \<open>time.Time\<close> is \<open>0\<close>, \<open>IsZero\<close> is \<open>= 0\<close> and \<open>After\<close> is \<open>>\<close>. An error returned by the
  callback ends the walk.
\<close>

fun walkFn :: "string \<Rightarrow> walk_item list \<Rightarrow> int \<times> int \<Rightarrow> error + int \<times> int" where
  "walkFn bin [] acc = Inr acc"
| "walkFn bin (WalkFailed err # items) acc = Inl err"
| "walkFn bin (WalkEntry path isDir t # items) (binaryTime, mostRecent) =
     (if isDir then walkFn bin items (binaryTime, mostRecent)
      else if path = bin then walkFn bin items (t, mostRecent)
      else if mostRecent = 0 \<or> t > mostRecent then walkFn bin items (binaryTime, t)
      else walkFn bin items (binaryTime, mostRecent))"

definition outdatedBinary :: "env \<Rightarrow> App \<Rightarrow> world \<Rightarrow> bool \<times> world" where
  "outdatedBinary E p w =
     (case walkFn (binaryPath p) (walkItems E (srcPath p)) (0, 0) of
        Inl err \<Rightarrow>
          (False, emit (EvPrint (''error while walking app source path '' @ quoted (srcPath p) @ [CHR 0x0A])) w)
      | Inr (binaryTime, mostRecent) \<Rightarrow> (mostRecent > binaryTime, w))"

subsection \<open>Loading\<close>

text \<open>
  \<open>load\<close> in the order of its source text: the fetch and build part, the connection
  (up to the manifest), and the shared-host part. \<open>load_connect\<close> returns \<open>Inl\<close> where
  the source returns early, and \<open>Inr\<close> with the manifest where it goes on.
\<close>

definition load_build :: "env \<Rightarrow> App \<Rightarrow> world \<Rightarrow> App \<times> world" where
  "load_build E p w =
     (case (if statErr E (srcPath p) \<noteq> None then fetch E p w else (p, w)) of (p1, w1) \<Rightarrow>
        if statErr E (srcPath p) \<noteq> None \<and> Error p1 \<noteq> None then (p1, w1)
        else if IsLocalPath p1 then
          (case outdatedBinary E p1 w1 of (outdated, w2) \<Rightarrow>
             if outdated then build E p1 w2 else (p1, w2))
        else if statErr E (binaryPath p1) \<noteq> None then build E p1 w1
        else (p1, w1))"

definition load_dial :: "env \<Rightarrow> Client \<Rightarrow> App \<Rightarrow> world \<Rightarrow> App \<times> world + Manifest \<times> App \<times> world" where
  "load_dial E c p w =
     (let w1 = emit (EvConnect (Path p)) w in
      case clientErr E of
        Some err \<Rightarrow> Inl (p\<lparr>Error := Some (Wrapf err ''connecting''), client := Some c\<rparr>, w1)
      | None \<Rightarrow>
          let c1 = c\<lparr>Started := Some (case Reattach c of Some rconf \<Rightarrow> rconf | None \<Rightarrow> launched E)\<rparr>;
              p1 = p\<lparr>client := Some c1\<rparr>
          in (case dispense E (name p) of
                Inl err \<Rightarrow> Inl (p1\<lparr>Error := Some (Wrapf err ''dispensing'')\<rparr>, w1)
              | Inr i \<Rightarrow>
                  let p2 = p1\<lparr>Interface := Some i\<rparr>;
                      w2 = emit (EvManifest (Path p)) w1
                  in (case RpcManifest i of
                        Inl err \<Rightarrow> Inl (p2\<lparr>Error := Some (Wrapf err ''manifest load'')\<rparr>, w2)
                      | Inr m \<Rightarrow> Inr (m, p2, w2))))"

definition load_connect :: "env \<Rightarrow> App \<Rightarrow> world \<Rightarrow> App \<times> world + Manifest \<times> App \<times> world" where
  "load_connect E p w =
     (if checkConfCache E (Path p) w then
        (case readConfigCache E (Path p) w of
           Inl err \<Rightarrow> Inl (p\<lparr>Error := Some err\<rparr>, w)
         | Inr rconf \<Rightarrow> load_dial E \<lparr>Reattach = Some rconf, Cmd = None, Started = None\<rparr> p w)
      else load_dial E \<lparr>Reattach = None, Cmd = Some (binaryPath p), Started = None\<rparr> p w)"

text \<open>
  \<open>*p.client.ReattachConfig()\<close>. It is read only after \<open>Client()\<close> has succeeded, where
  it is set; the value given for a client that never connected has no address.
\<close>

definition clientReattachConfig :: "App \<Rightarrow> ReattachConfig" where
  "clientReattachConfig p =
     (case client p of
        None \<Rightarrow> \<lparr>Addr = None, Pid = 0\<rparr>
      | Some c \<Rightarrow> (case Started c of None \<Rightarrow> \<lparr>Addr = None, Pid = 0\<rparr> | Some rc \<Rightarrow> rc))"

definition load_publish :: "env \<Rightarrow> Manifest \<Rightarrow> App \<Rightarrow> world \<Rightarrow> App \<times> world" where
  "load_publish E m p w =
     (let p1 = p\<lparr>isSharedHost := SharedHost m, manifest := Some m\<rparr> in
      if SharedHost m \<and> \<not> checkConfCache E (Path p1) w then
        (case writeConfigCache E (Path p1) (clientReattachConfig p1) w of
           (Some err, w1) \<Rightarrow> (p1\<lparr>Error := Some err\<rparr>, w1)
         | (None, w1) \<Rightarrow> (p1\<lparr>isHost := True\<rparr>, w1))
      else (p1, w))"

definition load :: "env \<Rightarrow> App \<Rightarrow> world \<Rightarrow> App \<times> world" where
  "load E p w =
     (if Error p \<noteq> None then (p, w)
      else case load_build E p w of (p1, w1) \<Rightarrow>
        if Error p1 \<noteq> None then (p1, w1)
        else (case load_connect E p1 w1 of
                Inl (p2, w2) \<Rightarrow> (p2, w2)
              | Inr (m, p2, w2) \<Rightarrow> load_publish E m p2 w2))"

subsection \<open>Resolving a reference\<close>

text \<open>
  Modelled from the spec: \<open>xurl.HTTPS\<close> is declared outside the given sources; "an HTTPS
  clone URL is derived from" the repository path.
\<close>

definition xurl_HTTPS :: "string \<Rightarrow> string" where
  "xurl_HTTPS s = ''https://'' @ s"

definition newApp :: "env \<Rightarrow> string \<Rightarrow> AppConfig \<Rightarrow> App" where
  "newApp E appsDir cp =
     (let p = \<lparr>Path = Path cp, With = With cp, Global = Global cp,
                Interface = None, Error = None, name = [], repoPath = [], cloneURL = [],
                cloneDir = [], reference = [], srcPath = [], client = None, manifest = None,
                isHost = False, isSharedHost = False\<rparr>;
          appPath = Path cp
      in
      if appPath = [] then p\<lparr>Error := Some (''missing app property '' @ quoted ''path'')\<rparr>
      else if HasPrefix appPath ''/'' then
        (case statErr E appPath of
           Some err \<Rightarrow> p\<lparr>Error := Some (Wrapf err (''local app path '' @ quoted appPath @ '' not found''))\<rparr>
         | None \<Rightarrow>
             if \<not> statIsDir E appPath
             then p\<lparr>Error := Some (''local app path '' @ quoted appPath @ '' is not a directory'')\<rparr>
             else p\<lparr>srcPath := appPath, name := path_Base appPath\<rparr>)
      else
        (case (case LastIndex appPath CHR ''@'' of
                 Some i \<Rightarrow> (drop (Suc i) appPath, take i appPath)
               | None \<Rightarrow> ([], appPath)) of (ref, appPath1) \<Rightarrow>
           let parts = Split appPath1 CHR ''/'' in
           if length parts < 3
           then p\<lparr>reference := ref,
                  Error := Some (''app path '' @ quoted appPath1 @ '' is not a valid repository URL'')\<rparr>
           else
             let repo = path_Join (take 3 parts);
                 dir = (if ref \<noteq> []
                        then path_Join [appsDir, repo @ ''-'' @ ReplaceAll ref CHR ''/'' CHR ''-'']
                        else path_Join [appsDir, repo]);
                 repoSubPath = path_Join (drop 3 parts)
             in p\<lparr>repoPath := (if ref \<noteq> [] then repo @ ''@'' @ ref else repo),
                   cloneURL := xurl_HTTPS repo,
                   cloneDir := dir,
                   reference := ref,
                   srcPath := path_Join [dir, repoSubPath],
                   name := path_Base appPath1\<rparr>))"

section \<open>The command tree\<close>

text \<open>
  The command tree is cobra's. A handler (\<open>PreRunE\<close>, \<open>RunE\<close>, \<open>PostRunE\<close>) receives the
  command and the arguments and returns an error; here it receives the collaborators
  and the arguments, and transforms the state. Of a \<open>cobra.Command\<close> the model keeps
  \<open>Use\<close>, the handlers \<open>Run\<close>, \<open>PreRunE\<close>, \<open>RunE\<close>, \<open>PostRunE\<close>, and the children.
  \<open>Name\<close> is the first word of \<open>Use\<close>; \<open>CommandPath\<close> is the parent's path, a space and
  the name (\<open>par\<close> is the parent's path, \<open>None\<close> at the root); a command is \<open>Runnable\<close>
  when it has \<open>Run\<close> or \<open>RunE\<close>; \<open>AddCommand\<close> adds a child.
\<close>

type_synonym handler = "env \<Rightarrow> string list \<Rightarrow> world \<Rightarrow> error option \<times> world"

datatype cobra =
  Cobra (cobraUse: string) (Run: "(env \<Rightarrow> string list \<Rightarrow> world \<Rightarrow> world) option")
        (PreRunE: "handler option") (RunE: "handler option") (PostRunE: "handler option")
        (subCommands: "cobra list")

definition firstWord :: "string \<Rightarrow> string" where
  "firstWord s = takeWhile (\<lambda>c. c \<noteq> CHR '' '') s"

definition Name :: "cobra \<Rightarrow> string" where
  "Name c = firstWord (cobraUse c)"

definition CommandPath :: "string option \<Rightarrow> cobra \<Rightarrow> string" where
  "CommandPath par c = (case par of None \<Rightarrow> Name c | Some pp \<Rightarrow> pp @ '' '' @ Name c)"

definition Runnable :: "cobra \<Rightarrow> bool" where
  "Runnable c = (Run c \<noteq> None \<or> RunE c \<noteq> None)"

fun AddCommand :: "cobra \<Rightarrow> cobra \<Rightarrow> cobra" where
  "AddCommand new (Cobra u r pre run post cs) = Cobra u r pre run post (cs @ [new])"

text \<open>
  How cobra runs a command: \<open>PreRunE\<close>, then \<open>RunE\<close> (or \<open>Run\<close> when there is no \<open>RunE\<close>),
  then \<open>PostRunE\<close>; the first error is returned and nothing after it runs. A command
  that is not runnable prints its help.
\<close>

definition runPhase :: "handler option \<Rightarrow> handler" where
  "runPhase h E args w = (case h of None \<Rightarrow> (None, w) | Some f \<Rightarrow> f E args w)"

definition execute :: "cobra \<Rightarrow> handler" where
  "execute c E args w =
     (if \<not> Runnable c then (Some ''pflag: help requested'', w)
      else case runPhase (PreRunE c) E args w of
        (Some err, w1) \<Rightarrow> (Some err, w1)
      | (None, w1) \<Rightarrow>
          (case (case RunE c of
                   Some f \<Rightarrow> f E args w1
                 | None \<Rightarrow> (case Run c of Some g \<Rightarrow> (None, g E args w1) | None \<Rightarrow> (None, w1))) of
             (Some err, w2) \<Rightarrow> (Some err, w2)
           | (None, w2) \<Rightarrow> runPhase (PostRunE c) E args w2))"

text \<open>
  \<open>findCommandByPath\<close> returns a pointer into the tree: here the position of the
  command (the indices of the children on the way down) with the command found.
\<close>

fun findCommandByPath :: "string option \<Rightarrow> cobra \<Rightarrow> string \<Rightarrow> (nat list \<times> cobra) option"
  and findInCommands :: "string \<Rightarrow> cobra list \<Rightarrow> nat \<Rightarrow> string \<Rightarrow> (nat list \<times> cobra) option" where
  "findCommandByPath par (Cobra u r pre run post cs) cmdPath =
     (if CommandPath par (Cobra u r pre run post cs) = cmdPath then Some ([], Cobra u r pre run post cs)
      else findInCommands (CommandPath par (Cobra u r pre run post cs)) cs 0 cmdPath)"
| "findInCommands here [] i cmdPath = None"
| "findInCommands here (c # cs) i cmdPath =
     (case findCommandByPath (Some here) c cmdPath of
        Some (pos, found) \<Rightarrow> Some (i # pos, found)
      | None \<Rightarrow> findInCommands here cs (Suc i) cmdPath)"

text \<open>A change made through the pointer: the command at the position is replaced.\<close>

fun modifyAt :: "(cobra \<Rightarrow> cobra) \<Rightarrow> nat list \<Rightarrow> cobra \<Rightarrow> cobra" where
  "modifyAt f [] c = f c"
| "modifyAt f (i # pos) (Cobra u r pre run post cs) =
     Cobra u r pre run post (if i < length cs then cs[i := modifyAt f pos (cs ! i)] else cs)"

subsection \<open>Attachment paths\<close>

text \<open>
  Modelled from the spec: \<open>Command.Path\<close>, \<open>Hook.CommandPath\<close> and
  \<open>Command.ToCobraCommand\<close> are declared outside the given sources. The attachment path
  is a "space-joined sequence of command names from the tree root, e.g. ignite scaffold
  chain", "defaulting to root"; the tests attach under \<open>scaffold\<close> for \<open>ignite scaffold\<close>.
  The conversion gives a command with the descriptor's usage string and no handler;
  the source shows that it can fail, here on a flag of an unknown type.
\<close>

definition TrimSpace :: "string \<Rightarrow> string" where
  "TrimSpace s = rev (dropWhile (\<lambda>c. c = CHR '' '') (rev (dropWhile (\<lambda>c. c = CHR '' '') s)))"

definition ensureFullCommandPath :: "string \<Rightarrow> string" where
  "ensureFullCommandPath path =
     TrimSpace (if HasPrefix path ''ignite'' then path else ''ignite '' @ path)"

definition Command_Path :: "Command \<Rightarrow> string" where
  "Command_Path c = ensureFullCommandPath (PlaceCommandUnder c)"

definition Hook_CommandPath :: "Hook \<Rightarrow> string" where
  "Hook_CommandPath h = ensureFullCommandPath (PlaceHookOn h)"

fun exportFlags :: "Flag list \<Rightarrow> error option" where
  "exportFlags [] = None"
| "exportFlags (f # fs) =
     (case FlagKind f of
        FlagTypeOther t \<Rightarrow> Some (''flagset unsupported flag type '' @ t)
      | _ \<Rightarrow> exportFlags fs)"

definition ToCobraCommand :: "Command \<Rightarrow> error + cobra" where
  "ToCobraCommand c =
     (case exportFlags (Flags c) of
        Some err \<Rightarrow> Inl err
      | None \<Rightarrow> Inr (Cobra (Use c) None None None None []))"

section \<open>Linking hooks and commands\<close>

text \<open>
  The handlers are Go closures over the app \<open>p\<close> and the hook. They read \<open>cmd.Use\<close> and
  \<open>cmd.CommandPath()\<close> of the command they run for, which is the command they were
  installed on: \<open>use\<close> and \<open>cpath\<close>. A call on a nil \<open>Interface\<close> is a nil dereference;
  \<open>linkApps\<close> installs handlers only for an app whose interface it has called.
\<close>

definition nilInterface :: error where
  "nilInterface = ''invalid memory address or nil pointer dereference''"

definition newExecutedHook :: "App \<Rightarrow> Hook \<Rightarrow> string \<Rightarrow> string \<Rightarrow> env \<Rightarrow> string list \<Rightarrow> ExecutedHook" where
  "newExecutedHook p hook use cpath E args =
     \<lparr>ExecHook = hook,
      ExecCommand = \<lparr>ExecUse = use, ExecPath = cpath, Args = args, OsArgs = osArgs E, ExecWith = With p\<rparr>\<rparr>"

definition ExecuteHookPre :: "App \<Rightarrow> ExecutedHook \<Rightarrow> world \<Rightarrow> error option \<times> world" where
  "ExecuteHookPre p h w =
     (case Interface p of
        None \<Rightarrow> (Some nilInterface, w)
      | Some i \<Rightarrow> (RpcExecuteHookPre i h, emit (EvHookPre (Path p) h) w))"

definition ExecuteHookPost :: "App \<Rightarrow> ExecutedHook \<Rightarrow> world \<Rightarrow> error option \<times> world" where
  "ExecuteHookPost p h w =
     (case Interface p of
        None \<Rightarrow> (Some nilInterface, w)
      | Some i \<Rightarrow> (RpcExecuteHookPost i h, emit (EvHookPost (Path p) h) w))"

definition ExecuteHookCleanUp :: "App \<Rightarrow> ExecutedHook \<Rightarrow> world \<Rightarrow> error option \<times> world" where
  "ExecuteHookCleanUp p h w =
     (case Interface p of
        None \<Rightarrow> (Some nilInterface, w)
      | Some i \<Rightarrow> (RpcExecuteHookCleanUp i h, emit (EvHookCleanUp (Path p) h) w))"

text \<open>
  The clean-up step of \<open>RunE\<close> and of \<open>PostRunE\<close>: the call, and its error printed with
  \<open>cmd.Printf\<close>.
\<close>

definition cleanUpLogged :: "App \<Rightarrow> ExecutedHook \<Rightarrow> world \<Rightarrow> world" where
  "cleanUpLogged p h w =
     (case ExecuteHookCleanUp p h w of
        (Some err, w1) \<Rightarrow>
          emit (EvPrint (''app '' @ quoted (Path p) @ '' ExecuteHookCleanUp() error: '' @ err)) w1
      | (None, w1) \<Rightarrow> w1)"

definition hookPreRunE :: "App \<Rightarrow> Hook \<Rightarrow> string \<Rightarrow> string \<Rightarrow> handler option \<Rightarrow> handler" where
  "hookPreRunE p hook use cpath preRun E args w =
     (case runPhase preRun E args w of
        (Some err, w1) \<Rightarrow> (Some err, w1)
      | (None, w1) \<Rightarrow>
          (case chainState w1 of
             ChainFailed err \<Rightarrow> (Some err, w1)
           | _ \<Rightarrow>
               (case ExecuteHookPre p (newExecutedHook p hook use cpath E args) w1 of
                  (Some err, w2) \<Rightarrow>
                    (Some (''app '' @ quoted (Path p) @ '' ExecuteHookPre() error: '' @ err), w2)
                | (None, w2) \<Rightarrow> (None, w2))))"

definition hookRunE :: "App \<Rightarrow> Hook \<Rightarrow> string \<Rightarrow> string \<Rightarrow> handler option \<Rightarrow> handler" where
  "hookRunE p hook use cpath runCmd E args w =
     (case runCmd of
        None \<Rightarrow> (None, w)
      | Some f \<Rightarrow>
          (case f E args w of
             (None, w1) \<Rightarrow> (None, w1)
           | (Some err, w1) \<Rightarrow>
               (case chainState w1 of
                  ChainFailed err1 \<Rightarrow> (Some err1, w1)
                | _ \<Rightarrow> (Some err, cleanUpLogged p (newExecutedHook p hook use cpath E args) w1))))"

definition hookPostRunE :: "App \<Rightarrow> Hook \<Rightarrow> string \<Rightarrow> string \<Rightarrow> handler option \<Rightarrow> handler" where
  "hookPostRunE p hook use cpath postCmd E args w =
     (case chainState w of
        ChainFailed err \<Rightarrow> (Some err, w)
      | _ \<Rightarrow>
          let execHook = newExecutedHook p hook use cpath E args in
          (case (case runPhase postCmd E args w of
                   (Some err, w1) \<Rightarrow> (Some err, w1)
                 | (None, w1) \<Rightarrow>
                     (case ExecuteHookPost p execHook w1 of
                        (Some err, w2) \<Rightarrow>
                          (Some (''app '' @ quoted (Path p) @ '' ExecuteHookPost() error : '' @ err), w2)
                      | (None, w2) \<Rightarrow> (None, w2))) of
             (res, w3) \<Rightarrow> (res, cleanUpLogged p execHook w3)))"

fun installHook :: "App \<Rightarrow> Hook \<Rightarrow> string \<Rightarrow> cobra \<Rightarrow> cobra" where
  "installHook p hook cpath (Cobra u r pre run post cs) =
     Cobra u r (Some (hookPreRunE p hook u cpath pre))
               (Some (hookRunE p hook u cpath run))
               (Some (hookPostRunE p hook u cpath post)) cs"

definition linkAppHook :: "cobra \<Rightarrow> App \<Rightarrow> Hook \<Rightarrow> cobra \<times> App" where
  "linkAppHook rootCmd p hook =
     (let cmdPath = Hook_CommandPath hook in
      case findCommandByPath None rootCmd cmdPath of
        None \<Rightarrow>
          (rootCmd, p\<lparr>Error := Some (''unable to find command path '' @ quoted cmdPath @
                                       '' for app hook '' @ quoted (HookName hook))\<rparr>)
      | Some (pos, cmd) \<Rightarrow>
          if \<not> Runnable cmd
          then (rootCmd, p\<lparr>Error := Some (''can't attach app hook '' @ quoted (HookName hook) @
                                           '' to non executable command '' @ quoted (PlaceHookOn hook))\<rparr>)
          else (modifyAt (installHook p hook cmdPath) pos rootCmd, p))"

fun linkAppHooksLoop :: "cobra \<Rightarrow> App \<Rightarrow> Hook list \<Rightarrow> cobra \<times> App" where
  "linkAppHooksLoop rootCmd p [] = (rootCmd, p)"
| "linkAppHooksLoop rootCmd p (hook # hooks) =
     (case linkAppHook rootCmd p hook of (rootCmd1, p1) \<Rightarrow> linkAppHooksLoop rootCmd1 p1 hooks)"

definition linkAppHooks :: "cobra \<Rightarrow> App \<Rightarrow> Hook list \<Rightarrow> cobra \<times> App" where
  "linkAppHooks rootCmd p hooks =
     (if Error p \<noteq> None then (rootCmd, p) else linkAppHooksLoop rootCmd p hooks)"

text \<open>The \<open>RunE\<close> of a leaf command of an app: the \<open>Execute\<close> call.\<close>

definition appRunE :: "App \<Rightarrow> string \<Rightarrow> string \<Rightarrow> handler" where
  "appRunE p use cpath E args w =
     (case chainState w of
        ChainFailed err \<Rightarrow> (Some err, w)
      | _ \<Rightarrow>
          let execCmd = \<lparr>ExecUse = use, ExecPath = cpath, Args = args, OsArgs = osArgs E, ExecWith = With p\<rparr> in
          (case Interface p of
             None \<Rightarrow> (Some nilInterface, w)
           | Some i \<Rightarrow> (RpcExecute i execCmd, emit (EvExecute (Path p) execCmd) w)))"

fun setRunE :: "handler \<Rightarrow> cobra \<Rightarrow> cobra" where
  "setRunE h (Cobra u r pre run post cs) = Cobra u r pre (Some h) post cs"

text \<open>
  \<open>linkAppCmd\<close>. In the recursive call the source sets \<open>PlaceCommandUnder\<close> of the child
  descriptor to the path of the new command and searches from the new command, whose
  parent's path is \<open>cmdPath\<close>. The new command is added to its parent before its
  children are linked; the tree at the end is the one built here.
\<close>

fun linkAppCmd :: "string option \<Rightarrow> cobra \<Rightarrow> App \<Rightarrow> Command \<Rightarrow> cobra \<times> App"
  and linkSubCmds :: "string option \<Rightarrow> cobra \<Rightarrow> App \<Rightarrow> Command list \<Rightarrow> cobra \<times> App" where
  "linkAppCmd par rootCmd p (Command use place flags cmds) =
     (let cmdPath = Command_Path (Command use place flags cmds) in
      case findCommandByPath par rootCmd cmdPath of
        None \<Rightarrow>
          (rootCmd, p\<lparr>Error := Some (''unable to find command path '' @ quoted cmdPath @
                                       '' for app '' @ quoted (Path p))\<rparr>)
      | Some (pos, cmd) \<Rightarrow>
          if Runnable cmd
          then (rootCmd, p\<lparr>Error := Some (''can't attach app command '' @ quoted use @
                                           '' to runnable command '' @ quoted cmdPath)\<rparr>)
          else if firstWord use \<in> set (map Name (subCommands cmd))
          then (rootCmd, p\<lparr>Error := Some (''app command '' @ quoted (firstWord use) @
                                           '' already exists in Ignite's commands'')\<rparr>)
          else
            (case ToCobraCommand (Command use place flags cmds) of
               Inl err \<Rightarrow> (rootCmd, p\<lparr>Error := Some err\<rparr>)
             | Inr newCmd \<Rightarrow>
                 if cmds = []
                 then (modifyAt (AddCommand
                         (setRunE (appRunE p (cobraUse newCmd) (CommandPath (Some cmdPath) newCmd)) newCmd))
                         pos rootCmd, p)
                 else
                   (case linkSubCmds (Some cmdPath) newCmd p cmds of
                      (newCmd1, p1) \<Rightarrow> (modifyAt (AddCommand newCmd1) pos rootCmd, p1))))"
| "linkSubCmds par newCmd p [] = (newCmd, p)"
| "linkSubCmds par newCmd p (Command use place flags cmds # rest) =
     (case linkAppCmd par newCmd p (Command use (CommandPath par newCmd) flags cmds) of
        (newCmd1, p1) \<Rightarrow>
          if Error p1 \<noteq> None then (newCmd1, p1) else linkSubCmds par newCmd1 p1 rest)"

fun linkAppCmdsLoop :: "cobra \<Rightarrow> App \<Rightarrow> Command list \<Rightarrow> cobra \<times> App" where
  "linkAppCmdsLoop rootCmd p [] = (rootCmd, p)"
| "linkAppCmdsLoop rootCmd p (appCmd # appCmds) =
     (case linkAppCmd None rootCmd p appCmd of
        (rootCmd1, p1) \<Rightarrow>
          if Error p1 \<noteq> None then (rootCmd1, p1) else linkAppCmdsLoop rootCmd1 p1 appCmds)"

definition linkAppCmds :: "cobra \<Rightarrow> App \<Rightarrow> Command list \<Rightarrow> cobra \<times> App" where
  "linkAppCmds rootCmd p appCmds =
     (if Error p \<noteq> None then (rootCmd, p) else linkAppCmdsLoop rootCmd p appCmds)"

section \<open>The package-level list of apps\<close>

text \<open>
  The commands keep the loaded apps in the package-level variable \<open>apps\<close>, a list of
  pointers; \<open>linkApps\<close> receives a list of pointers of its own. The App objects live in
  a heap, by address, so that the two lists can name the same objects or different
  ones. A function returns \<open>None\<close> where the source dereferences a pointer that names
  no object, or calls a nil \<open>Interface\<close>.
\<close>

record cmdstate =
  heap :: "nat \<rightharpoonup> App"
  apps :: "nat list"
  wld :: world

definition getAppLocationName :: "App \<Rightarrow> string" where
  "getAppLocationName p = (if Global p then ''global'' else ''local'')"

definition getAppStatus :: "env \<Rightarrow> App \<Rightarrow> world \<Rightarrow> (string \<times> world) option" where
  "getAppStatus E p w =
     (case Error p of
        Some err \<Rightarrow> Some (iconNotOK E @ '' Error: '' @ err, w)
      | None \<Rightarrow>
          (case Interface p of
             None \<Rightarrow> None
           | Some i \<Rightarrow>
               let w1 = emit (EvManifest (Path p)) w in
               (case RpcManifest i of
                  Inl err \<Rightarrow> Some (iconNotOK E @ '' Error: Manifest() returned '' @ err, w1)
                | Inr m \<Rightarrow> Some (iconOK E @ '' Loaded'', w1))))"

fun printEntries :: "env \<Rightarrow> (nat \<rightharpoonup> App) \<Rightarrow> nat list \<Rightarrow> world \<Rightarrow> (string list list \<times> world) option" where
  "printEntries E h [] w = Some ([], w)"
| "printEntries E h (a # rest) w =
     (case h a of
        None \<Rightarrow> None
      | Some p \<Rightarrow>
          (case getAppStatus E p w of
             None \<Rightarrow> None
           | Some (st, w1) \<Rightarrow>
               (case printEntries E h rest w1 of
                  None \<Rightarrow> None
                | Some (entries, w2) \<Rightarrow> Some ([Path p, getAppLocationName p, st] # entries, w2))))"

definition printApps :: "env \<Rightarrow> cmdstate \<Rightarrow> (error option \<times> cmdstate) option" where
  "printApps E s =
     (case printEntries E (heap s) (apps s) (wld s) of
        None \<Rightarrow> None
      | Some (entries, w1) \<Rightarrow>
          Some (case printTableErr E of
                  Some err \<Rightarrow> Some (''error while printing apps: '' @ err)
                | None \<Rightarrow> None,
                s\<lparr>wld := emit (EvPrintTable entries) w1\<rparr>))"

fun UnloadLoop :: "env \<Rightarrow> nat list \<Rightarrow> (nat \<rightharpoonup> App) \<Rightarrow> world \<Rightarrow> ((nat \<rightharpoonup> App) \<times> world) option" where
  "UnloadLoop E [] h w = Some (h, w)"
| "UnloadLoop E (a # rest) h w =
     (case h a of
        None \<Rightarrow> None
      | Some p \<Rightarrow> (case KillClient E p w of (p1, w1) \<Rightarrow> UnloadLoop E rest (h(a \<mapsto> p1)) w1))"

definition UnloadApps :: "env \<Rightarrow> cmdstate \<Rightarrow> cmdstate option" where
  "UnloadApps E s =
     (case UnloadLoop E (apps s) (heap s) (wld s) of
        None \<Rightarrow> None
      | Some (h, w) \<Rightarrow> Some (s\<lparr>heap := h, wld := w\<rparr>))"

section \<open>linkApps\<close>

text \<open>
  The loop of \<open>linkApps\<close> over the pointers it is given; \<open>linkErrors\<close> is the list of the
  apps that failed, in order.
\<close>

fun linkAppsLoop :: "nat list \<Rightarrow> nat list \<Rightarrow> cobra \<Rightarrow> cmdstate \<Rightarrow> (nat list \<times> cobra \<times> cmdstate) option" where
  "linkAppsLoop [] linkErrors rootCmd s = Some (linkErrors, rootCmd, s)"
| "linkAppsLoop (a # rest) linkErrors rootCmd s =
     (case heap s a of
        None \<Rightarrow> None
      | Some p \<Rightarrow>
          if Error p \<noteq> None then linkAppsLoop rest (linkErrors @ [a]) rootCmd s
          else
            (case Interface p of
               None \<Rightarrow> None
             | Some i \<Rightarrow>
                 let s1 = s\<lparr>wld := emit (EvManifest (Path p)) (wld s)\<rparr> in
                 (case RpcManifest i of
                    Inl err \<Rightarrow>
                      linkAppsLoop rest (linkErrors @ [a]) rootCmd
                        (s1\<lparr>heap := (heap s1)(a \<mapsto> p\<lparr>Error := Some err\<rparr>)\<rparr>)
                  | Inr m \<Rightarrow>
                      (case linkAppHooks rootCmd p (Hooks m) of (rootCmd1, p1) \<Rightarrow>
                         if Error p1 \<noteq> None
                         then linkAppsLoop rest (linkErrors @ [a]) rootCmd1 (s1\<lparr>heap := (heap s1)(a \<mapsto> p1)\<rparr>)
                         else
                           (case linkAppCmds rootCmd1 p1 (ManifestCommands m) of (rootCmd2, p2) \<Rightarrow>
                              if Error p2 \<noteq> None
                              then linkAppsLoop rest (linkErrors @ [a]) rootCmd2 (s1\<lparr>heap := (heap s1)(a \<mapsto> p2)\<rparr>)
                              else linkAppsLoop rest linkErrors rootCmd2 (s1\<lparr>heap := (heap s1)(a \<mapsto> p2)\<rparr>))))))"

text \<open>The text of the combined error: \<open>%s: %v\<close> of the path and the error of each failed app.\<close>

fun linkErrorText :: "(nat \<rightharpoonup> App) \<Rightarrow> nat list \<Rightarrow> string option" where
  "linkErrorText h [] = Some []"
| "linkErrorText h (a # rest) =
     (case h a of
        None \<Rightarrow> None
      | Some p \<Rightarrow>
          (case linkErrorText h rest of
             None \<Rightarrow> None
           | Some t \<Rightarrow> Some (Path p @ '': '' @ (case Error p of None \<Rightarrow> ''<nil>'' | Some err \<Rightarrow> err) @ t)))"

definition linkApps :: "env \<Rightarrow> cobra \<Rightarrow> nat list \<Rightarrow> cmdstate \<Rightarrow> (error option \<times> cobra \<times> cmdstate) option" where
  "linkApps E rootCmd ps s =
     (case linkAppsLoop ps [] rootCmd s of
        None \<Rightarrow> None
      | Some (linkErrors, rootCmd1, s1) \<Rightarrow>
          if linkErrors \<noteq> [] then
            (case printApps E s1 of
               None \<Rightarrow> None
             | Some (perr, s2) \<Rightarrow>
                 let s3 = (case perr of
                             Some err \<Rightarrow> s2\<lparr>wld := emit (EvPrint (''fail to print: '' @ err @ [CHR 0x0A])) (wld s2)\<rparr>
                           | None \<Rightarrow> s2)
                 in (case linkErrorText (heap s3) linkErrors of
                       None \<Rightarrow> None
                     | Some t \<Rightarrow>
                         (case UnloadApps E s3 of
                            None \<Rightarrow> None
                          | Some s4 \<Rightarrow> Some (Some (''fail to link: '' @ t), rootCmd1, s4))))
          else Some (None, rootCmd1, s1))"

section \<open>Notions used in the statements\<close>

text \<open>
  What a walk of the source path shows: the modification times of the files other than
  the binary, the modification times under the binary's own path (none when the binary
  is absent), and whether every entry could be read.
\<close>

fun otherTimes :: "string \<Rightarrow> walk_item list \<Rightarrow> int list" where
  "otherTimes bin [] = []"
| "otherTimes bin (WalkFailed err # items) = otherTimes bin items"
| "otherTimes bin (WalkEntry path isDir t # items) =
     (if \<not> isDir \<and> path \<noteq> bin then t # otherTimes bin items else otherTimes bin items)"

fun binaryTimes :: "string \<Rightarrow> walk_item list \<Rightarrow> int list" where
  "binaryTimes bin [] = []"
| "binaryTimes bin (WalkFailed err # items) = binaryTimes bin items"
| "binaryTimes bin (WalkEntry path isDir t # items) =
     (if \<not> isDir \<and> path = bin then t # binaryTimes bin items else binaryTimes bin items)"

fun walkOK :: "walk_item list \<Rightarrow> bool" where
  "walkOK [] = True"
| "walkOK (WalkFailed err # items) = False"
| "walkOK (WalkEntry path isDir t # items) = walkOK items"

text \<open>\<open>load\<close> builds the app: it calls the toolchain on the source path.\<close>

definition builds :: "env \<Rightarrow> App \<Rightarrow> world \<Rightarrow> bool" where
  "builds E p w = (EvModTidy (srcPath p) \<in> set (drop (length (trace w)) (trace (snd (load E p w)))))"

section \<open>Concrete inputs\<close>

text \<open>
  An environment in which every collaborator succeeds and no plugin is known, the
  empty state, the zero \<open>App\<close>, a local app and remote apps.
\<close>

definition env0 :: env where
  "env0 = \<lparr>newCacheErr = None, statErr = (\<lambda>path. None), statIsDir = (\<lambda>path. True),
            removeAllErr = (\<lambda>path. None), cloneErr = (\<lambda>url dir. None), walkItems = (\<lambda>path. []),
            modTidyErr = (\<lambda>path. None), buildErr = (\<lambda>out path. None), clientErr = None,
            launched = \<lparr>Addr = Some ''/tmp/plugin.sock'', Pid = 1\<rparr>,
            dispense = (\<lambda>n. Inl ''unknown plugin''),
            printTableErr = None, osArgs = [], iconOK = ''OK'', iconNotOK = ''NotOK''\<rparr>"

definition world0 :: world where
  "world0 = \<lparr>storageCache = Map.empty, exited = {}, chainState = ErrGoModNotFound, trace = []\<rparr>"

definition app0 :: App where
  "app0 = \<lparr>Path = [], With = [], Global = False, Interface = None, Error = None, name = [],
            repoPath = [], cloneURL = [], cloneDir = [], reference = [], srcPath = [],
            client = None, manifest = None, isHost = False, isSharedHost = False\<rparr>"

definition localApp :: App where
  "localApp = app0\<lparr>Path := ''/local/app'', srcPath := ''/local/app'', name := ''app''\<rparr>"

definition remoteApp :: "string \<Rightarrow> App" where
  "remoteApp n = app0\<lparr>Path := ''github.com/x/'' @ n, repoPath := ''github.com/x/'' @ n,
                       cloneURL := ''https://github.com/x/'' @ n, cloneDir := ''/apps/'' @ n,
                       srcPath := ''/apps/'' @ n, name := n\<rparr>"

definition envDenied :: env where
  "envDenied = env0\<lparr>removeAllErr := (\<lambda>dir. if dir = ''/apps/b'' then Some ''permission denied'' else None)\<rparr>"

text \<open>
  A shared plugin process, the app instance that hosts it, an instance attached to it,
  and the state in which its descriptor is published.
\<close>

definition rc1 :: ReattachConfig where
  "rc1 = \<lparr>Addr = Some ''/tmp/plugin.sock'', Pid = 1\<rparr>"

definition hostApp :: App where
  "hostApp = localApp\<lparr>client := Some \<lparr>Reattach = None, Cmd = Some ''/local/app/app.ign'', Started = Some rc1\<rparr>,
                       isHost := True, isSharedHost := True\<rparr>"

definition guestApp :: App where
  "guestApp = localApp\<lparr>client := Some \<lparr>Reattach = Some rc1, Cmd = None, Started = Some rc1\<rparr>,
                        isSharedHost := True\<rparr>"

definition worldShared :: world where
  "worldShared = world0\<lparr>storageCache := [''/local/app'' \<mapsto> rc1]\<rparr>"

text \<open>An environment in which the cache store cannot be opened.\<close>

definition envNoStore :: env where
  "envNoStore = env0\<lparr>newCacheErr := Some ''cannot open the cache''\<rparr>"

text \<open>Walks of the source path of the local app, and a remote app whose binary is absent.\<close>

definition envStale :: env where
  "envStale = env0\<lparr>walkItems := (\<lambda>dir. [WalkEntry ''/local/app'' True 50,
                                           WalkEntry ''/local/app/main.go'' False 200,
                                           WalkEntry ''/local/app/app.ign'' False 100])\<rparr>"

definition envWalkFailed :: env where
  "envWalkFailed = env0\<lparr>walkItems := (\<lambda>dir. [WalkEntry ''/local/app/main.go'' False 200,
                                                WalkFailed ''permission denied''])\<rparr>"

definition envNoBinary :: env where
  "envNoBinary = env0\<lparr>statErr := (\<lambda>path. if path = ''/apps/a/a.ign'' then Some ''no such file'' else None)\<rparr>"

text \<open>
  The command tree of the tests (\<open>ignite\<close>, \<open>scaffold\<close>, and under it the runnable \<open>chain\<close>
  and \<open>module\<close>) with a given pre-phase and body of \<open>chain\<close>, an app \<open>foo\<close> whose plugin
  answers every call without error, the same app with a plugin that refuses
  \<open>ExecuteHookPre\<close>, two hooks on \<open>scaffold chain\<close>, a body that fails, and a body that
  fails and leaves the chain's files unreadable.
\<close>

definition emptyManifest :: Manifest where
  "emptyManifest = \<lparr>ManifestName = ''foo'', SharedHost = False, ManifestCommands = [], Hooks = []\<rparr>"

definition ifaceOk :: "Manifest \<Rightarrow> Interface" where
  "ifaceOk m = \<lparr>RpcManifest = Inr m, RpcExecute = (\<lambda>c. None), RpcExecuteHookPre = (\<lambda>h. None),
                 RpcExecuteHookPost = (\<lambda>h. None), RpcExecuteHookCleanUp = (\<lambda>h. None)\<rparr>"

definition fooApp :: App where
  "fooApp = app0\<lparr>Path := ''foo'', With := [(''key'', ''val'')], Interface := Some (ifaceOk emptyManifest)\<rparr>"

definition failingBody :: handler where
  "failingBody E args w = (Some ''boom'', w)"

definition breakingBody :: handler where
  "breakingBody E args w = (Some ''boom'', w\<lparr>chainState := ChainFailed ''cannot read the chain config''\<rparr>)"

text \<open>A state in which the chain cannot be resolved: \<open>newChainWithHomeFlags\<close> fails.\<close>

definition worldNoChain :: world where
  "worldNoChain = world0\<lparr>chainState := ChainFailed ''cannot read the chain config''\<rparr>"

definition chainCmd :: "handler option \<Rightarrow> handler \<Rightarrow> cobra" where
  "chainCmd pre body = Cobra ''chain'' None pre (Some body) None []"

definition legacyTree :: "handler option \<Rightarrow> handler \<Rightarrow> cobra" where
  "legacyTree pre body =
     Cobra ''ignite'' None None None None
       [Cobra ''scaffold'' None None None None
          [chainCmd pre body,
           Cobra ''module'' (Some (\<lambda>E args w. w)) None None None []]]"

definition failingPre :: handler where
  "failingPre E args w = (Some ''not ready'', w)"

definition fooAppDenied :: App where
  "fooAppDenied = fooApp\<lparr>Interface := Some ((ifaceOk emptyManifest)\<lparr>RpcExecuteHookPre := (\<lambda>h. Some ''denied'')\<rparr>)\<rparr>"

definition hook1 :: Hook where "hook1 = \<lparr>HookName = ''test-hook-1'', PlaceHookOn = ''scaffold chain''\<rparr>"
definition hook2 :: Hook where "hook2 = \<lparr>HookName = ''test-hook-2'', PlaceHookOn = ''scaffold chain''\<rparr>"





text \<open>
  For \<open>linkApps\<close>: an app differs from another in its \<open>Error\<close> only; what the loop does
  for one app whose interface answers; the pointers are valid (each names an object,
  which has an interface unless it has an error); the apps of a list that have an
  error; the \<open>Manifest\<close> calls for the apps of a list that have none. Then an app with an
  error, an app whose plugin runs (process 1) and declares the command \<open>foo\<close>, that
  command as it is linked under the root, a state with both apps and a given
  package-level list \<open>apps\<close>, and what is observed of the result of \<open>linkApps\<close>.
\<close>

definition onlyError :: "App \<Rightarrow> App \<Rightarrow> bool" where
  "onlyError p p' = (p' = p\<lparr>Error := Error p'\<rparr>)"

definition linkOne :: "cobra \<Rightarrow> App \<Rightarrow> Interface \<Rightarrow> cobra \<times> App" where
  "linkOne rootCmd p i =
     (case RpcManifest i of
        Inl err \<Rightarrow> (rootCmd, p\<lparr>Error := Some err\<rparr>)
      | Inr m \<Rightarrow>
          (case linkAppHooks rootCmd p (Hooks m) of (rootCmd1, p1) \<Rightarrow>
             if Error p1 \<noteq> None then (rootCmd1, p1)
             else linkAppCmds rootCmd1 p1 (ManifestCommands m)))"

definition validApps :: "(nat \<rightharpoonup> App) \<Rightarrow> nat list \<Rightarrow> bool" where
  "validApps h ps = (\<forall>a\<in>set ps. \<exists>p. h a = Some p \<and> (Error p = None \<longrightarrow> Interface p \<noteq> None))"

definition failedIn :: "(nat \<rightharpoonup> App) \<Rightarrow> nat list \<Rightarrow> nat list" where
  "failedIn h ps = filter (\<lambda>a. case h a of None \<Rightarrow> False | Some p \<Rightarrow> Error p \<noteq> None) ps"

definition manifestCalls :: "(nat \<rightharpoonup> App) \<Rightarrow> nat list \<Rightarrow> event list" where
  "manifestCalls h ps = map (\<lambda>p. EvManifest (Path p)) (filter (\<lambda>p. Error p = None) (List.map_filter h ps))"






definition linkOutcome :: "(error option \<times> cobra \<times> cmdstate) option \<Rightarrow> (error option \<times> nat set \<times> event list) option" where
  "linkOutcome r = (case r of None \<Rightarrow> None | Some (res, rootCmd, s) \<Rightarrow> Some (res, exited (wld s), trace (wld s)))"

text \<open>
  For \<open>load\<close>: an event is a \<open>Manifest\<close> call over the plugin interface; the number of
  such calls between two states; the part of \<open>load\<close> that ends with the manifest in
  hand (\<open>load\<close> up to the line that records \<open>isSharedHost\<close>). Then an environment whose
  plugin answers with a manifest, and the local app, the state and the package state
  after \<open>load\<close> in that environment.
\<close>

definition envPlugin :: env where
  "envPlugin = env0\<lparr>dispense := (\<lambda>n. Inr (ifaceOk emptyManifest))\<rparr>"

definition loadedApp :: App where
  "loadedApp = localApp\<lparr>Interface := Some (ifaceOk emptyManifest),
     client := Some \<lparr>Reattach = None, Cmd = Some ''/local/app/app.ign'', Started = Some rc1\<rparr>,
     manifest := Some emptyManifest\<rparr>"

definition loadedWorld :: world where
  "loadedWorld = world0\<lparr>trace := [EvConnect ''/local/app'', EvManifest ''/local/app'']\<rparr>"

definition loadedState :: cmdstate where
  "loadedState = \<lparr>heap = [0 \<mapsto> loadedApp], apps = [0], wld = loadedWorld\<rparr>"

fun isManifestCall :: "event \<Rightarrow> bool" where
  "isManifestCall (EvManifest path) = True"
| "isManifestCall e = False"

definition manifestCount :: "world \<Rightarrow> world \<Rightarrow> nat" where
  "manifestCount w w' = length (filter isManifestCall (drop (length (trace w)) (trace w')))"

definition load_handshake :: "env \<Rightarrow> App \<Rightarrow> world \<Rightarrow> App \<times> world + Manifest \<times> App \<times> world" where
  "load_handshake E p w =
     (if Error p \<noteq> None then Inl (p, w)
      else case load_build E p w of (p1, w1) \<Rightarrow>
        if Error p1 \<noteq> None then Inl (p1, w1) else load_connect E p1 w1)"

text \<open>
  For the shared host: a manifest that declares shared hosting, an environment whose
  plugin answers with it, the same environment with a cache store that cannot be opened,
  the configuration entry of the local app, and the local app as the first loader (the
  host) and as a later loader (attached to the host's process) leave it; the events of
  one connection.
\<close>

definition sharedManifest :: Manifest where
  "sharedManifest = emptyManifest\<lparr>SharedHost := True\<rparr>"

definition envShared :: env where
  "envShared = env0\<lparr>dispense := (\<lambda>n. Inr (ifaceOk sharedManifest))\<rparr>"

definition envCacheDown :: env where
  "envCacheDown = envShared\<lparr>newCacheErr := Some ''cannot open the cache''\<rparr>"

definition localConf :: AppConfig where
  "localConf = \<lparr>Path = ''/local/app'', With = [], Global = False\<rparr>"

definition sharedHostApp :: App where
  "sharedHostApp = localApp\<lparr>Interface := Some (ifaceOk sharedManifest),
     client := Some \<lparr>Reattach = None, Cmd = Some ''/local/app/app.ign'', Started = Some rc1\<rparr>,
     manifest := Some sharedManifest, isHost := True, isSharedHost := True\<rparr>"

definition sharedGuestApp :: App where
  "sharedGuestApp = localApp\<lparr>Interface := Some (ifaceOk sharedManifest),
     client := Some \<lparr>Reattach = Some rc1, Cmd = None, Started = Some rc1\<rparr>,
     manifest := Some sharedManifest, isSharedHost := True\<rparr>"

definition handshakeEvents :: "event list" where
  "handshakeEvents = [EvConnect ''/local/app'', EvManifest ''/local/app'']"

text \<open>
  Several App values of one machine over one cache: the values loaded so far and the
  state. A step is one round of the loop of \<open>Load\<close> (\<open>newApp\<close> on a configuration entry,
  then \<open>load\<close>, then the append to the loaded list) or a \<open>KillClient\<close> on one of the
  loaded values; each step has its own environment. Steps do not interleave.
\<close>

record sys =
  insts :: "App list"
  sw :: world

datatype action = ActLoad env string AppConfig | ActKill env nat

fun act :: "action \<Rightarrow> sys \<Rightarrow> sys" where
  "act (ActLoad E appsDir cp) s =
     (case load E (newApp E appsDir cp) (sw s) of (p', w') \<Rightarrow> \<lparr>insts = insts s @ [p'], sw = w'\<rparr>)"
| "act (ActKill E i) s =
     (if i < length (insts s)
      then (case KillClient E (insts s ! i) (sw s) of (p', w') \<Rightarrow> \<lparr>insts = (insts s)[i := p'], sw = w'\<rparr>)
      else s)"

definition run :: "action list \<Rightarrow> world \<Rightarrow> sys" where
  "run acts w = foldl (\<lambda>s a. act a s) \<lparr>insts = [], sw = w\<rparr> acts"

text \<open>
  Every host has a reference, the cache holds under that reference the descriptor of the
  host's own connection, and no other loaded value with the same reference is a host.
\<close>

definition hostsOk :: "sys \<Rightarrow> bool" where
  "hostsOk s = (\<forall>i\<in>{..<length (insts s)}. isHost (insts s ! i) \<longrightarrow>
       Path (insts s ! i) \<noteq> []
     \<and> storageCache (sw s) (Path (insts s ! i)) = Some (clientReattachConfig (insts s ! i))
     \<and> (\<forall>j\<in>{..<length (insts s)}. isHost (insts s ! j) \<and> Path (insts s ! j) = Path (insts s ! i) \<longrightarrow> j = i))"

text \<open>\<open>load\<close> gets as far as the manifest, and the manifest declares shared hosting.\<close>

definition handshakeShared :: "env \<Rightarrow> App \<Rightarrow> world \<Rightarrow> bool" where
  "handshakeShared E p w = (case load_handshake E p w of Inl r \<Rightarrow> False | Inr (m, p2, w2) \<Rightarrow> SharedHost m)"

text \<open>
  For \<open>newApp\<close>: a path component that \<open>path.Clean\<close> keeps as it is (not empty, without
  a slash, neither \<open>.\<close> nor \<open>..\<close>), and the configuration entry of a remote app with a
  subpath and a revision that contains a slash.
\<close>

definition segOK :: "string \<Rightarrow> bool" where
  "segOK s = (s \<noteq> [] \<and> CHR ''/'' \<notin> set s \<and> s \<noteq> ''.'' \<and> s \<noteq> ''..'')"

definition scenarioB :: AppConfig where
  "scenarioB = \<lparr>Path = ''github.com/ignite/app/app1@package/v1.0.0'', With = [], Global = False\<rparr>"

section \<open>Update\<close>

lemma Update_append:
  "Update E pre w = (None, pre', w1) \<Longrightarrow>
   Update E (pre @ ps) w = (case Update E ps w1 of (r, ps1, w2) \<Rightarrow> (r, pre' @ ps1, w2))"
proof (induction pre arbitrary: w pre')
  case Nil
  then show ?case by (auto split: prod.splits)
next
  case (Cons p pre)
  then show ?case
    by (auto split: prod.splits option.splits)
qed

text \<open>
  C10. \<open>Update\<close> processes the apps in order and returns at the first app whose \<open>clean\<close>
  fails: when the apps \<open>pre\<close> before it were updated without error and \<open>clean\<close> of \<open>p\<close>
  fails, the result is that error, the apps \<open>rest\<close> after \<open>p\<close> are unchanged, and the
  state is the one \<open>clean\<close> of \<open>p\<close> left (the attempt to remove the clone directory of
  \<open>p\<close> is the last call made: nothing after \<open>p\<close> is cleaned or fetched). For an app
  whose \<open>Error\<close> is set, \<open>clean\<close> returns nil and changes nothing, and \<open>fetch\<close> does
  nothing; for a local app \<open>clean\<close> removes nothing.
\<close>

theorem Update_stops_at_first_failure:
  "(Update E pre w = (None, pre', w1) \<and> fst (clean E p w1) = Some err \<longrightarrow>
      Update E (pre @ p # rest) w = (Some err, pre' @ p # rest, snd (clean E p w1)) \<and>
      trace (snd (clean E p w1)) = trace w1 @ [EvRemoveAll (cloneDir p)])
   \<and> (Error p \<noteq> None \<longrightarrow> clean E p w = (None, w) \<and> fetch E p w = (p, w))
   \<and> (IsLocalPath p \<longrightarrow> clean E p w = (None, w))"
proof (intro conjI impI)
  assume a: "Update E pre w = (None, pre', w1) \<and> fst (clean E p w1) = Some err"
  then have "Update E (pre @ p # rest) w =
      (case Update E (p # rest) w1 of (r, ps1, w2) \<Rightarrow> (r, pre' @ ps1, w2))"
    using Update_append by blast
  moreover have "Update E (p # rest) w1 = (Some err, p # rest, snd (clean E p w1))"
    using a by (cases "clean E p w1") auto
  ultimately show "Update E (pre @ p # rest) w = (Some err, pre' @ p # rest, snd (clean E p w1))"
    by simp
  show "trace (snd (clean E p w1)) = trace w1 @ [EvRemoveAll (cloneDir p)]"
    using a by (auto simp: clean_def emit_def split: if_splits)
next
  assume "Error p \<noteq> None"
  then show "clean E p w = (None, w)" by (simp add: clean_def)
next
  assume "Error p \<noteq> None"
  then show "fetch E p w = (p, w)" by (simp add: fetch_def)
next
  assume "IsLocalPath p"
  then show "clean E p w = (None, w)" by (simp add: clean_def)
qed

lemma remoteApp_not_local: "\<not> IsLocalPath (remoteApp n)"
  by (simp add: IsLocalPath_def remoteApp_def app0_def HasPrefix_def)

lemma clean_remote_a:
  "clean envDenied (remoteApp ''a'') w = (None, emit (EvRemoveAll ''/apps/a'') w)"
  by (simp add: clean_def remoteApp_not_local) (simp add: remoteApp_def app0_def envDenied_def env0_def)

lemma fetch_remote_a:
  "fetch envDenied (remoteApp ''a'') w =
     (remoteApp ''a'', emit (EvClone ''https://github.com/x/a@'' ''/apps/a'') w)"
  by (simp add: fetch_def remoteApp_not_local) (simp add: remoteApp_def app0_def envDenied_def env0_def)

lemma clean_remote_b:
  "clean envDenied (remoteApp ''b'') w = (Some ''permission denied'', emit (EvRemoveAll ''/apps/b'') w)"
  by (simp add: clean_def remoteApp_not_local) (simp add: remoteApp_def app0_def envDenied_def env0_def)

theorem Update_stops_at_first_failure_witness:
  "Update envDenied [remoteApp ''a''] world0
      = (None, [remoteApp ''a''],
         emit (EvClone ''https://github.com/x/a@'' ''/apps/a'') (emit (EvRemoveAll ''/apps/a'') world0))
   \<and> Update envDenied ([remoteApp ''a''] @ remoteApp ''b'' # [remoteApp ''c'']) world0
      = (Some ''permission denied'', [remoteApp ''a''] @ remoteApp ''b'' # [remoteApp ''c''],
         emit (EvRemoveAll ''/apps/b'')
           (emit (EvClone ''https://github.com/x/a@'' ''/apps/a'') (emit (EvRemoveAll ''/apps/a'') world0)))
   \<and> Error (app0\<lparr>Error := Some ''oups''\<rparr>) \<noteq> None
   \<and> clean env0 (app0\<lparr>Error := Some ''oups''\<rparr>) world0 = (None, world0)
   \<and> fetch env0 (app0\<lparr>Error := Some ''oups''\<rparr>) world0 = (app0\<lparr>Error := Some ''oups''\<rparr>, world0)
   \<and> IsLocalPath localApp
   \<and> clean env0 localApp world0 = (None, world0)"
proof -
  let ?w1 = "emit (EvClone ''https://github.com/x/a@'' ''/apps/a'') (emit (EvRemoveAll ''/apps/a'') world0)"
  have h1: "Update envDenied [remoteApp ''a''] world0 = (None, [remoteApp ''a''], ?w1)"
    by (simp add: clean_remote_a fetch_remote_a)
  have h2: "fst (clean envDenied (remoteApp ''b'') ?w1) = Some ''permission denied''"
    by (simp add: clean_remote_b)
  have h3: "Error (app0\<lparr>Error := Some ''oups''\<rparr>) \<noteq> None" by simp
  have h4: "IsLocalPath localApp"
    by (simp add: IsLocalPath_def localApp_def app0_def HasPrefix_def)
  from Update_stops_at_first_failure[of envDenied "[remoteApp ''a'']" world0 "[remoteApp ''a'']" ?w1
      "remoteApp ''b''" "''permission denied''" "[remoteApp ''c'']"] h1 h2
    Update_stops_at_first_failure[of env0 "[]" world0 "[]" world0 "app0\<lparr>Error := Some ''oups''\<rparr>"] h3
    Update_stops_at_first_failure[of env0 "[]" world0 "[]" world0 localApp] h4
  show ?thesis by (simp add: clean_remote_b)
qed

section \<open>KillClient\<close>

lemma Kill_twice: "Kill c (Kill c w) = Kill c w"
  by (simp add: Kill_def split: option.splits)

lemma Kill_delete_commute:
  "Kill c (snd (deleteConfCache E path w)) = snd (deleteConfCache E path (Kill c w))"
  by (simp add: Kill_def deleteConfCache_def split: option.splits)

text \<open>
  C6, as stated, fails: the host of a shared plugin is killed while the cache store cannot
  be opened. \<open>isHost\<close> is cleared and the process is killed, but the entry published
  for the app's reference is still in the store, and a later check finds it.
\<close>

theorem entry_survives_KillClient_counterexample:
  "isHost hostApp \<and> Path hostApp = ''/local/app''
   \<and> storageCache worldShared ''/local/app'' = Some rc1
   \<and> fst (KillClient envNoStore hostApp worldShared) = hostApp\<lparr>isHost := False\<rparr>
   \<and> exited (snd (KillClient envNoStore hostApp worldShared)) = {1}
   \<and> storageCache (snd (KillClient envNoStore hostApp worldShared)) ''/local/app'' = Some rc1
   \<and> checkConfCache env0 ''/local/app'' (snd (KillClient envNoStore hostApp worldShared))"
proof -
  have h: "isHost hostApp" "Path hostApp = ''/local/app''" "isSharedHost hostApp"
    "client hostApp = Some \<lparr>Reattach = None, Cmd = Some ''/local/app/app.ign'', Started = Some rc1\<rparr>"
    by (simp_all add: hostApp_def localApp_def app0_def)
  have k: "KillClient envNoStore hostApp worldShared
      = (hostApp\<lparr>isHost := False\<rparr>, worldShared\<lparr>exited := {1}\<rparr>)"
    by (simp add: KillClient_def Let_def Kill_def deleteConfCache_def h envNoStore_def env0_def
        rc1_def worldShared_def world0_def)
  have c: "storageCache worldShared ''/local/app'' = Some rc1" by (simp add: worldShared_def)
  have e: "newCacheErr env0 = None" by (simp add: env0_def)
  show ?thesis using h(1,2) c by (simp add: k checkConfCache_def e)
qed

text \<open>
  C6, amended. \<open>KillClient\<close> on an app with \<open>isSharedHost\<close> and not \<open>isHost\<close> changes
  nothing: neither the app, nor the processes, nor the cache. On any other app the
  client, when there is one, is killed, \<open>isHost\<close> is cleared and nothing else of the app
  changes. When the app was the host, \<open>deleteConfCache\<close> is called and its error is
  discarded: the entry for the app's path is removed from the store when the path is
  not empty and the store opens, and the store is left as it was otherwise. When the
  app was not the host the store is unchanged. A second call changes nothing more, and
  on an app that has no client and is not a host the call changes nothing.
\<close>

theorem KillClient_guarantees:
  "(isSharedHost p \<and> \<not> isHost p \<longrightarrow> KillClient E p w = (p, w))
   \<and> (\<not> (isSharedHost p \<and> \<not> isHost p) \<longrightarrow>
        fst (KillClient E p w) = p\<lparr>isHost := False\<rparr>
        \<and> exited (snd (KillClient E p w)) = (case client p of None \<Rightarrow> exited w | Some c \<Rightarrow> exited (Kill c w))
        \<and> trace (snd (KillClient E p w)) = trace w
        \<and> chainState (snd (KillClient E p w)) = chainState w
        \<and> (isHost p \<and> Path p \<noteq> [] \<and> newCacheErr E = None \<longrightarrow>
              storageCache (snd (KillClient E p w)) = (storageCache w)(Path p := None))
        \<and> (isHost p \<and> (Path p = [] \<or> newCacheErr E \<noteq> None) \<longrightarrow>
              storageCache (snd (KillClient E p w)) = storageCache w)
        \<and> (\<not> isHost p \<longrightarrow> storageCache (snd (KillClient E p w)) = storageCache w))
   \<and> KillClient E (fst (KillClient E p w)) (snd (KillClient E p w)) = KillClient E p w
   \<and> (client p = None \<and> \<not> isHost p \<longrightarrow> KillClient E p w = (p, w))"
proof (intro conjI impI)
  show "KillClient E (fst (KillClient E p w)) (snd (KillClient E p w)) = KillClient E p w"
    by (auto simp: KillClient_def Let_def Kill_twice Kill_delete_commute[symmetric] split: option.splits)
qed (auto simp: KillClient_def Let_def Kill_def deleteConfCache_def split: option.splits)

theorem KillClient_guarantees_witness:
  "isSharedHost guestApp \<and> \<not> isHost guestApp
   \<and> KillClient env0 guestApp worldShared = (guestApp, worldShared)
   \<and> isHost hostApp \<and> Path hostApp \<noteq> [] \<and> newCacheErr env0 = None
   \<and> fst (KillClient env0 hostApp worldShared) = hostApp\<lparr>isHost := False\<rparr>
   \<and> exited (snd (KillClient env0 hostApp worldShared)) = {1}
   \<and> storageCache (snd (KillClient env0 hostApp worldShared)) = Map.empty
   \<and> newCacheErr envNoStore \<noteq> None
   \<and> storageCache (snd (KillClient envNoStore hostApp worldShared)) = storageCache worldShared
   \<and> KillClient env0 (fst (KillClient env0 hostApp worldShared)) (snd (KillClient env0 hostApp worldShared))
       = KillClient env0 hostApp worldShared
   \<and> client app0 = None \<and> \<not> isHost app0
   \<and> KillClient env0 app0 world0 = (app0, world0)"
proof -
  have g: "isSharedHost guestApp \<and> \<not> isHost guestApp"
    by (simp add: guestApp_def localApp_def app0_def)
  have h: "isHost hostApp" "Path hostApp = ''/local/app''" "newCacheErr env0 = None"
    "client hostApp = Some \<lparr>Reattach = None, Cmd = Some ''/local/app/app.ign'', Started = Some rc1\<rparr>"
    by (simp_all add: hostApp_def localApp_def app0_def env0_def)
  have n: "newCacheErr envNoStore \<noteq> None" by (simp add: envNoStore_def)
  have z: "client app0 = None \<and> \<not> isHost app0"
    by (simp add: app0_def)
  note G = KillClient_guarantees[of guestApp env0 worldShared]
  note H = KillClient_guarantees[of hostApp env0 worldShared]
  note N = KillClient_guarantees[of hostApp envNoStore worldShared]
  note Z = KillClient_guarantees[of app0 env0 world0]
  have g1: "KillClient env0 guestApp worldShared = (guestApp, worldShared)"
    using G g by blast
  have h1: "fst (KillClient env0 hostApp worldShared) = hostApp\<lparr>isHost := False\<rparr>"
    using H h(1) by blast
  have "exited (snd (KillClient env0 hostApp worldShared))
      = exited (Kill \<lparr>Reattach = None, Cmd = Some ''/local/app/app.ign'', Started = Some rc1\<rparr> worldShared)"
    using H h(1,4) by simp
  then have h2: "exited (snd (KillClient env0 hostApp worldShared)) = {1}"
    by (simp add: Kill_def rc1_def worldShared_def world0_def)
  have "storageCache (snd (KillClient env0 hostApp worldShared))
      = (storageCache worldShared)(''/local/app'' := None)"
    using H h(1,2,3) by simp
  then have h3: "storageCache (snd (KillClient env0 hostApp worldShared)) = Map.empty"
    by (simp add: worldShared_def world0_def)
  have n1: "storageCache (snd (KillClient envNoStore hostApp worldShared)) = storageCache worldShared"
    using N h(1) n by blast
  have h5: "KillClient env0 (fst (KillClient env0 hostApp worldShared)) (snd (KillClient env0 hostApp worldShared))
       = KillClient env0 hostApp worldShared"
    using H by blast
  have z1: "KillClient env0 app0 world0 = (app0, world0)"
    using Z z by blast
  show ?thesis
    using g g1 h(1,2,3) h1 h2 h3 n n1 h5 z z1 by simp
qed

section \<open>When load builds\<close>

lemma walkFn_failed: "\<not> walkOK items \<Longrightarrow> \<exists>err. walkFn bin items acc = Inl err"
proof (induction items arbitrary: acc)
  case Nil then show ?case by simp
next
  case (Cons x items)
  show ?case
  proof (cases x)
    case (WalkFailed e) then show ?thesis by simp
  next
    case (WalkEntry path isDir t)
    with Cons show ?thesis by (cases acc) auto
  qed
qed

lemma walkFn_ok:
  "walkOK items \<Longrightarrow> \<forall>t\<in>set (otherTimes bin items). 0 < t \<Longrightarrow> 0 \<le> mr \<Longrightarrow>
   walkFn bin items (bt, mr) = Inr (last (bt # binaryTimes bin items), foldl max mr (otherTimes bin items))"
proof (induction items arbitrary: bt mr)
  case Nil then show ?case by simp
next
  case (Cons x items)
  show ?case
  proof (cases x)
    case (WalkFailed e) with Cons.prems show ?thesis by simp
  next
    case (WalkEntry path isDir t)
    show ?thesis
    proof (cases "\<not> isDir \<and> path \<noteq> bin")
      case True
      then have t: "0 < t" using Cons.prems(2) WalkEntry by simp
      have ok: "walkOK items" using Cons.prems(1) WalkEntry by simp
      have pos: "\<forall>t\<in>set (otherTimes bin items). 0 < t" using Cons.prems(2) WalkEntry True by simp
      show ?thesis
      proof (cases "mr = 0 \<or> t > mr")
        case True
        then have m: "max mr t = t" using t Cons.prems(3) by auto
        have "0 \<le> t" using t by simp
        from Cons.IH[OF ok pos this, of bt] show ?thesis
          using WalkEntry \<open>\<not> isDir \<and> path \<noteq> bin\<close> True m by simp
      next
        case False
        then have m: "max mr t = mr" by auto
        from Cons.IH[OF ok pos Cons.prems(3), of bt] show ?thesis
          using WalkEntry \<open>\<not> isDir \<and> path \<noteq> bin\<close> False m by simp
      qed
    next
      case False
      have ok: "walkOK items" using Cons.prems(1) WalkEntry by simp
      have pos: "\<forall>t\<in>set (otherTimes bin items). 0 < t" using Cons.prems(2) WalkEntry False by auto
      show ?thesis
      proof (cases isDir)
        case True
        from Cons.IH[OF ok pos Cons.prems(3), of bt] show ?thesis
          using WalkEntry True by simp
      next
        case isf: False
        then have pb: "path = bin" using False by simp
        from Cons.IH[OF ok pos Cons.prems(3), of t] show ?thesis
          using WalkEntry isf pb by simp
      qed
    qed
  qed
qed

lemma foldl_max_gt: "(b < foldl max (m::int) ts) = (b < m \<or> (\<exists>t\<in>set ts. b < t))"
  by (induction ts arbitrary: m) auto

lemma outdatedBinary_failed:
  "\<not> walkOK (walkItems E (srcPath p)) \<Longrightarrow> \<not> fst (outdatedBinary E p w)"
  using walkFn_failed[of "walkItems E (srcPath p)" "binaryPath p" "(0, 0)"]
  by (auto simp: outdatedBinary_def)

lemma outdatedBinary_ok:
  assumes "walkOK (walkItems E (srcPath p))"
    and "\<forall>t\<in>set (otherTimes (binaryPath p) (walkItems E (srcPath p))). 0 < t"
  shows "outdatedBinary E p w =
    (last (0 # binaryTimes (binaryPath p) (walkItems E (srcPath p))) < 0
       \<or> (\<exists>t\<in>set (otherTimes (binaryPath p) (walkItems E (srcPath p))).
             last (0 # binaryTimes (binaryPath p) (walkItems E (srcPath p))) < t), w)"
  using walkFn_ok[OF assms, of 0 0]
  by (simp add: outdatedBinary_def foldl_max_gt)

lemma fetch_local: "IsLocalPath p \<Longrightarrow> fetch E p w = (p, w)"
  by (simp add: fetch_def)

lemma build_trace:
  "Error p = None \<Longrightarrow> \<exists>es. trace (snd (build E p w)) = trace w @ EvModTidy (srcPath p) # es"
  by (simp add: build_def Let_def emit_def split: option.splits)

lemma load_dial_trace:
  "\<exists>es. trace (snd (case load_dial E c p w of Inl (p2, w2) \<Rightarrow> (p2, w2) | Inr (m, p2, w2) \<Rightarrow> (p2, w2)))
          = trace w @ es \<and> (\<forall>x. EvModTidy x \<notin> set es)"
  by (auto simp: load_dial_def Let_def emit_def split: option.splits sum.splits)

lemma load_connect_trace:
  "\<exists>es. trace (snd (case load_connect E p w of Inl (p2, w2) \<Rightarrow> (p2, w2) | Inr (m, p2, w2) \<Rightarrow> (p2, w2)))
          = trace w @ es \<and> (\<forall>x. EvModTidy x \<notin> set es)"
proof (cases "checkConfCache E (Path p) w")
  case True
  show ?thesis
  proof (cases "readConfigCache E (Path p) w")
    case (Inl err)
    then show ?thesis using True by (simp add: load_connect_def)
  next
    case (Inr rconf)
    then show ?thesis
      using True load_dial_trace[of E "\<lparr>Reattach = Some rconf, Cmd = None, Started = None\<rparr>" p w]
      by (simp add: load_connect_def)
  qed
next
  case False
  then show ?thesis
    using load_dial_trace[of E "\<lparr>Reattach = None, Cmd = Some (binaryPath p), Started = None\<rparr>" p w]
    by (simp add: load_connect_def)
qed

lemma load_publish_trace: "trace (snd (load_publish E m p w)) = trace w"
  by (auto simp: load_publish_def Let_def writeConfigCache_def split: option.splits prod.splits)

lemma load_after_build:
  assumes "Error p = None"
  shows "\<exists>es. trace (snd (load E p w)) = trace (snd (load_build E p w)) @ es \<and> (\<forall>x. EvModTidy x \<notin> set es)"
proof -
  obtain p1 w1 where b: "load_build E p w = (p1, w1)" by (cases "load_build E p w")
  show ?thesis
  proof (cases "Error p1 \<noteq> None")
    case True
    then show ?thesis using assms b by (simp add: load_def)
  next
    case False
    show ?thesis
    proof (cases "load_connect E p1 w1")
      case (Inl a)
      then show ?thesis
        using load_connect_trace[of E p1 w1] assms b False
        by (cases a) (auto simp: load_def)
    next
      case (Inr a)
      then show ?thesis
        using load_connect_trace[of E p1 w1] assms b False
        by (cases a) (auto simp: load_def load_publish_trace)
    qed
  qed
qed

lemma builds_iff:
  assumes "Error p = None" and "trace (snd (load_build E p w)) = trace w @ es"
  shows "builds E p w = (EvModTidy (srcPath p) \<in> set es)"
  using load_after_build[OF assms(1), of E w] assms(2)
  by (auto simp: builds_def)

lemma load_build_local:
  assumes "IsLocalPath p" and "Error p = None"
  shows "load_build E p w =
    (if fst (outdatedBinary E p w) then build E p (snd (outdatedBinary E p w))
     else (p, snd (outdatedBinary E p w)))"
  using assms by (simp add: load_build_def fetch_local split: prod.splits)

lemma outdatedBinary_trace:
  "\<exists>es. trace (snd (outdatedBinary E p w)) = trace w @ es \<and> (\<forall>x. EvModTidy x \<notin> set es)"
  by (auto simp: outdatedBinary_def emit_def split: sum.splits prod.splits)

lemma builds_local:
  assumes "IsLocalPath p" and "Error p = None"
  shows "builds E p w = fst (outdatedBinary E p w)"
proof -
  obtain es where es: "trace (snd (outdatedBinary E p w)) = trace w @ es" "\<forall>x. EvModTidy x \<notin> set es"
    using outdatedBinary_trace by blast
  show ?thesis
  proof (cases "fst (outdatedBinary E p w)")
    case True
    obtain es' where "trace (snd (build E p (snd (outdatedBinary E p w))))
         = trace (snd (outdatedBinary E p w)) @ EvModTidy (srcPath p) # es'"
      using build_trace[OF assms(2)] by blast
    then have "trace (snd (load_build E p w)) = trace w @ (es @ EvModTidy (srcPath p) # es')"
      using True es by (simp add: load_build_local[OF assms])
    from builds_iff[OF assms(2) this] True show ?thesis by simp
  next
    case False
    then have "trace (snd (load_build E p w)) = trace w @ es"
      using es by (simp add: load_build_local[OF assms])
    from builds_iff[OF assms(2) this] False es show ?thesis by simp
  qed
qed

lemma builds_remote:
  assumes "\<not> IsLocalPath p" and "Error p = None"
    and "statErr E (srcPath p) = None \<or> cloneErr E (cloneURL p @ ''@'' @ reference p) (cloneDir p) = None"
  shows "builds E p w = (statErr E (binaryPath p) \<noteq> None)"
proof -
  define fw where "fw = (if statErr E (srcPath p) \<noteq> None then fetch E p w else (p, w))"
  have f1: "fst fw = p"
    using assms by (auto simp: fw_def fetch_def Let_def)
  have "\<exists>es. trace (snd fw) = trace w @ es \<and> (\<forall>x. EvModTidy x \<notin> set es)"
    by (auto simp: fw_def fetch_def Let_def emit_def split: option.splits)
  then obtain es where es: "trace (snd fw) = trace w @ es" "\<forall>x. EvModTidy x \<notin> set es" by blast
  have lb: "load_build E p w = (if statErr E (binaryPath p) \<noteq> None then build E p (snd fw) else (p, snd fw))"
    using assms(1,2) f1 unfolding load_build_def fw_def[symmetric]
    by (cases fw) auto
  show ?thesis
  proof (cases "statErr E (binaryPath p) \<noteq> None")
    case True
    obtain es' where "trace (snd (build E p (snd fw))) = trace (snd fw) @ EvModTidy (srcPath p) # es'"
      using build_trace[OF assms(2)] by blast
    then have "trace (snd (load_build E p w)) = trace w @ (es @ EvModTidy (srcPath p) # es')"
      using True es lb by simp
    from builds_iff[OF assms(2) this] True show ?thesis by simp
  next
    case False
    then have "trace (snd (load_build E p w)) = trace w @ es"
      using es lb by simp
    from builds_iff[OF assms(2) this] False es show ?thesis by simp
  qed
qed

text \<open>
  C7, as stated, fails: a local app whose binary is absent is not rebuilt when the walk
  of its source path meets an entry it cannot read.
\<close>

lemma binaryPath_localApp: "binaryPath localApp = ''/local/app/app.ign''"
  by (simp add: binaryPath_def binaryName_def localApp_def app0_def path_Join_def path_Clean_def
      HasPrefix_def)

theorem stale_local_not_rebuilt_counterexample:
  "IsLocalPath localApp \<and> Error localApp = None
   \<and> binaryTimes (binaryPath localApp) (walkItems envWalkFailed (srcPath localApp)) = []
   \<and> \<not> builds envWalkFailed localApp world0"
proof -
  have l: "IsLocalPath localApp" and e: "Error localApp = None"
    by (simp_all add: IsLocalPath_def localApp_def app0_def HasPrefix_def)
  have w: "walkItems envWalkFailed (srcPath localApp)
            = [WalkEntry ''/local/app/main.go'' False 200, WalkFailed ''permission denied'']"
    by (simp add: envWalkFailed_def env0_def)
  have "\<not> walkOK (walkItems envWalkFailed (srcPath localApp))"
    by (simp add: w)
  then have "\<not> builds envWalkFailed localApp world0"
    using builds_local[OF l e] outdatedBinary_failed by blast
  then show ?thesis
    using l e by (simp add: w binaryPath_localApp)
qed

text \<open>
  C7, amended. During \<open>load\<close> of an app without error: a local app is not rebuilt when
  the walk of its source path fails; when the walk succeeds and finds at least one file
  other than the binary (dated after Go's zero time), the app is rebuilt exactly when
  the binary is absent or older than one of these files. A remote app whose source is
  present or fetched is built exactly when \<open>os.Stat\<close> of the binary fails, whatever the
  times of its sources.
\<close>

theorem load_rebuild_rule:
  assumes "Error p = None"
  shows "(IsLocalPath p \<and> \<not> walkOK (walkItems E (srcPath p)) \<longrightarrow> \<not> builds E p w)
   \<and> (IsLocalPath p \<and> walkOK (walkItems E (srcPath p))
        \<and> otherTimes (binaryPath p) (walkItems E (srcPath p)) \<noteq> []
        \<and> (\<forall>t\<in>set (otherTimes (binaryPath p) (walkItems E (srcPath p))). 0 < t) \<longrightarrow>
        builds E p w =
          (binaryTimes (binaryPath p) (walkItems E (srcPath p)) = []
           \<or> (\<exists>t\<in>set (otherTimes (binaryPath p) (walkItems E (srcPath p))).
                 last (binaryTimes (binaryPath p) (walkItems E (srcPath p))) < t)))
   \<and> (\<not> IsLocalPath p
        \<and> (statErr E (srcPath p) = None
             \<or> cloneErr E (cloneURL p @ ''@'' @ reference p) (cloneDir p) = None) \<longrightarrow>
        builds E p w = (statErr E (binaryPath p) \<noteq> None))"
proof (intro conjI impI)
  assume "IsLocalPath p \<and> \<not> walkOK (walkItems E (srcPath p))"
  then show "\<not> builds E p w"
    using builds_local[OF _ assms] outdatedBinary_failed by blast
next
  let ?others = "otherTimes (binaryPath p) (walkItems E (srcPath p))"
  let ?bins = "binaryTimes (binaryPath p) (walkItems E (srcPath p))"
  assume a: "IsLocalPath p \<and> walkOK (walkItems E (srcPath p)) \<and> ?others \<noteq> [] \<and> (\<forall>t\<in>set ?others. 0 < t)"
  then have b: "builds E p w = (last (0 # ?bins) < 0 \<or> (\<exists>t\<in>set ?others. last (0 # ?bins) < t))"
    using builds_local[OF _ assms, of E w] outdatedBinary_ok[of E p w] by simp
  obtain t0 where t0: "t0 \<in> set ?others" "0 < t0"
    using a by (cases ?others) auto
  show "builds E p w = (?bins = [] \<or> (\<exists>t\<in>set ?others. last ?bins < t))"
  proof (cases "?bins = []")
    case True
    then show ?thesis using b t0 by auto
  next
    case False
    then have "last (0 # ?bins) = last ?bins" by simp
    moreover have "last ?bins < 0 \<Longrightarrow> \<exists>t\<in>set ?others. last ?bins < t"
      using t0 by (intro bexI[of _ t0]) auto
    ultimately show ?thesis using b False by auto
  qed
next
  assume "\<not> IsLocalPath p \<and> (statErr E (srcPath p) = None
             \<or> cloneErr E (cloneURL p @ ''@'' @ reference p) (cloneDir p) = None)"
  then show "builds E p w = (statErr E (binaryPath p) \<noteq> None)"
    using builds_remote[OF _ assms] by blast
qed

lemma binaryPath_remote_a: "binaryPath (remoteApp ''a'') = ''/apps/a/a.ign''"
  by (simp add: binaryPath_def binaryName_def remoteApp_def app0_def path_Join_def path_Clean_def
      HasPrefix_def)

theorem load_rebuild_rule_witness:
  "Error localApp = None \<and> IsLocalPath localApp
   \<and> \<not> walkOK (walkItems envWalkFailed (srcPath localApp))
   \<and> \<not> builds envWalkFailed localApp world0
   \<and> walkOK (walkItems envStale (srcPath localApp))
   \<and> otherTimes (binaryPath localApp) (walkItems envStale (srcPath localApp)) = [200]
   \<and> binaryTimes (binaryPath localApp) (walkItems envStale (srcPath localApp)) = [100]
   \<and> builds envStale localApp world0
   \<and> Error (remoteApp ''a'') = None \<and> \<not> IsLocalPath (remoteApp ''a'')
   \<and> statErr envNoBinary (srcPath (remoteApp ''a'')) = None
   \<and> statErr envNoBinary (binaryPath (remoteApp ''a'')) \<noteq> None
   \<and> builds envNoBinary (remoteApp ''a'') world0"
proof -
  have l: "Error localApp = None" "IsLocalPath localApp"
    by (simp_all add: IsLocalPath_def localApp_def app0_def HasPrefix_def)
  have f: "\<not> walkOK (walkItems envWalkFailed (srcPath localApp))"
    by (simp add: envWalkFailed_def env0_def)
  have s: "walkOK (walkItems envStale (srcPath localApp))"
    "otherTimes (binaryPath localApp) (walkItems envStale (srcPath localApp)) = [200]"
    "binaryTimes (binaryPath localApp) (walkItems envStale (srcPath localApp)) = [100]"
    by (simp_all add: envStale_def env0_def binaryPath_localApp)
  have r: "Error (remoteApp ''a'') = None" "\<not> IsLocalPath (remoteApp ''a'')"
    "statErr envNoBinary (srcPath (remoteApp ''a'')) = None"
    "statErr envNoBinary (binaryPath (remoteApp ''a'')) \<noteq> None"
    by (simp_all add: remoteApp_not_local binaryPath_remote_a)
       (simp_all add: remoteApp_def app0_def envNoBinary_def env0_def)
  from load_rebuild_rule[OF l(1), of envWalkFailed world0] l(2) f
    load_rebuild_rule[OF l(1), of envStale world0] s
    load_rebuild_rule[OF r(1), of envNoBinary world0] r(2,3,4)
  show ?thesis using l r(1) by simp
qed

section \<open>Hooks\<close>


lemma findCommandByPath_unfold:
  "findCommandByPath par c cmdPath =
     (if CommandPath par c = cmdPath then Some ([], c)
      else findInCommands (CommandPath par c) (subCommands c) 0 cmdPath)"
  by (cases c) simp

lemma cobraUse_modifyAt:
  assumes "\<And>c. cobraUse (f c) = cobraUse c"
  shows "cobraUse (modifyAt f pos c) = cobraUse c"
  using assms by (cases pos; cases c) simp_all

lemma CommandPath_modifyAt:
  assumes "\<And>c. cobraUse (f c) = cobraUse c"
  shows "CommandPath par (modifyAt f pos c) = CommandPath par c"
  by (simp add: CommandPath_def Name_def cobraUse_modifyAt[OF assms] split: option.splits)

lemma subCommands_modifyAt_Cons:
  "i < length (subCommands c) \<Longrightarrow>
   subCommands (modifyAt f (i # pos) c) = (subCommands c)[i := modifyAt f pos (subCommands c ! i)]"
  by (cases c) simp

lemma find_modifyAt_both:
  assumes u: "\<And>c. cobraUse (f c) = cobraUse c" and s: "\<And>c. subCommands (f c) = subCommands c"
  shows "(\<forall>pos cmd. findCommandByPath par c path = Some (pos, cmd) \<longrightarrow>
            findCommandByPath par (modifyAt f pos c) path = Some (pos, f cmd))"
    and "(\<forall>pos cmd. findInCommands here cs i path = Some (pos, cmd) \<longrightarrow>
            (\<exists>j pos'. pos = j # pos' \<and> i \<le> j \<and> j - i < length cs \<and>
               findInCommands here (cs[j - i := modifyAt f pos' (cs ! (j - i))]) i path = Some (pos, f cmd)))"
proof (induction par c path and here cs i path rule: findCommandByPath_findInCommands.induct)
  case (1 par u r pre run post cs cmdPath)
  let ?c = "Cobra u r pre run post cs"
  show ?case
  proof (intro allI impI)
    fix pos cmd
    assume a: "findCommandByPath par ?c cmdPath = Some (pos, cmd)"
    show "findCommandByPath par (modifyAt f pos ?c) cmdPath = Some (pos, f cmd)"
    proof (cases "CommandPath par ?c = cmdPath")
      case True
      then have "pos = []" "cmd = ?c" using a by simp_all
      moreover have "CommandPath par (f ?c) = cmdPath"
        using True u by (simp add: CommandPath_def Name_def split: option.splits)
      ultimately show ?thesis by (simp add: findCommandByPath_unfold)
    next
      case False
      then have b: "findInCommands (CommandPath par ?c) cs 0 cmdPath = Some (pos, cmd)"
        using a by simp
      from 1[OF False] b obtain j pos' where j: "pos = j # pos'" "j < length cs"
        "findInCommands (CommandPath par ?c) (cs[j := modifyAt f pos' (cs ! j)]) 0 cmdPath = Some (pos, f cmd)"
        by fastforce
      have "modifyAt f pos ?c = Cobra u r pre run post (cs[j := modifyAt f pos' (cs ! j)])"
        using j by simp
      moreover have "CommandPath par (Cobra u r pre run post (cs[j := modifyAt f pos' (cs ! j)])) = CommandPath par ?c"
        by (simp add: CommandPath_def Name_def split: option.splits)
      ultimately show ?thesis using False j by simp
    qed
  qed
next
  case (2 here i cmdPath)
  then show ?case by simp
next
  case (3 here c cs i cmdPath)
  show ?case
  proof (intro allI impI)
    fix pos cmd
    assume a: "findInCommands here (c # cs) i cmdPath = Some (pos, cmd)"
    show "\<exists>j pos'. pos = j # pos' \<and> i \<le> j \<and> j - i < length (c # cs) \<and>
            findInCommands here ((c # cs)[j - i := modifyAt f pos' ((c # cs) ! (j - i))]) i cmdPath = Some (pos, f cmd)"
    proof (cases "findCommandByPath (Some here) c cmdPath")
      case (Some r)
      obtain pos0 found where r: "r = (pos0, found)" by (cases r)
      then have p: "pos = i # pos0" "cmd = found" using a Some by simp_all
      have "findCommandByPath (Some here) (modifyAt f pos0 c) cmdPath = Some (pos0, f found)"
        using 3(1) Some r by simp
      then show ?thesis using p by (intro exI[of _ i] exI[of _ pos0]) simp
    next
      case None
      then have b: "findInCommands here cs (Suc i) cmdPath = Some (pos, cmd)" using a by simp
      from 3(2)[OF None] b obtain j pos' where j: "pos = j # pos'" "Suc i \<le> j" "j - Suc i < length cs"
        "findInCommands here (cs[j - Suc i := modifyAt f pos' (cs ! (j - Suc i))]) (Suc i) cmdPath = Some (pos, f cmd)"
        by blast
      from j(2) obtain k where k: "j - i = Suc k" "j - Suc i = k"
        by (metis Suc_diff_Suc Suc_le_lessD diff_Suc_eq_diff_pred)
      show ?thesis
        using j None k by (intro exI[of _ j] exI[of _ pos']) simp
    qed
  qed
qed

lemma find_modifyAt:
  assumes "\<And>c. cobraUse (f c) = cobraUse c" and "\<And>c. subCommands (f c) = subCommands c"
    and "findCommandByPath par c path = Some (pos, cmd)"
  shows "findCommandByPath par (modifyAt f pos c) path = Some (pos, f cmd)"
  using find_modifyAt_both(1)[OF assms(1,2)] assms(3) by blast

lemma installHook_use: "cobraUse (installHook p hook cpath c) = cobraUse c"
  by (cases c) simp
lemma installHook_sub: "subCommands (installHook p hook cpath c) = subCommands c"
  by (cases c) simp
lemma installHook_PreRunE:
  "PreRunE (installHook p hook cpath c) = Some (hookPreRunE p hook (cobraUse c) cpath (PreRunE c))"
  by (cases c) simp
lemma installHook_RunE:
  "RunE (installHook p hook cpath c) = Some (hookRunE p hook (cobraUse c) cpath (RunE c))"
  by (cases c) simp
lemma installHook_PostRunE:
  "PostRunE (installHook p hook cpath c) = Some (hookPostRunE p hook (cobraUse c) cpath (PostRunE c))"
  by (cases c) simp
lemma installHook_Runnable: "Runnable (installHook p hook cpath c)"
  by (cases c) (simp add: Runnable_def)


lemma linkAppHook_found:
  assumes "findCommandByPath None rootCmd (Hook_CommandPath hook) = Some (pos, cmd)" and "Runnable cmd"
  shows "linkAppHook rootCmd p hook = (modifyAt (installHook p hook (Hook_CommandPath hook)) pos rootCmd, p)"
    and "findCommandByPath None (fst (linkAppHook rootCmd p hook)) (Hook_CommandPath hook)
          = Some (pos, installHook p hook (Hook_CommandPath hook) cmd)"
proof -
  show a: "linkAppHook rootCmd p hook = (modifyAt (installHook p hook (Hook_CommandPath hook)) pos rootCmd, p)"
    using assms by (simp add: linkAppHook_def)
  show "findCommandByPath None (fst (linkAppHook rootCmd p hook)) (Hook_CommandPath hook)
          = Some (pos, installHook p hook (Hook_CommandPath hook) cmd)"
    unfolding a fst_conv
    by (rule find_modifyAt[OF installHook_use installHook_sub assms(1)])
qed

lemma chainState_emit [simp]: "chainState (emit e w) = chainState w"
  by (simp add: emit_def)

lemma trace_emit [simp]: "trace (emit e w) = trace w @ [e]"
  by (simp add: emit_def)

lemma hookPreRunE_prior_fails:
  "runPhase preRun E args w = (Some err, w1) \<Longrightarrow>
   hookPreRunE p hook use cpath preRun E args w = (Some err, w1)"
  by (simp add: hookPreRunE_def)

lemma hookPreRunE_prior_ok:
  assumes "runPhase preRun E args w = (None, w1)" and "Interface p = Some i"
    and "\<forall>e. chainState w1 \<noteq> ChainFailed e"
  shows "hookPreRunE p hook use cpath preRun E args w =
     (map_option (\<lambda>err. ''app '' @ quoted (Path p) @ '' ExecuteHookPre() error: '' @ err)
        (RpcExecuteHookPre i (newExecutedHook p hook use cpath E args)),
      emit (EvHookPre (Path p) (newExecutedHook p hook use cpath E args)) w1)"
  using assms
  by (cases "chainState w1")
     (auto simp: hookPreRunE_def ExecuteHookPre_def split: option.splits)

lemma hookPreRunE_chain_fails:
  "runPhase preRun E args w = (None, w1) \<Longrightarrow> chainState w1 = ChainFailed e \<Longrightarrow>
   hookPreRunE p hook use cpath preRun E args w = (Some e, w1)"
  by (simp add: hookPreRunE_def)

lemma execute_pre_fails:
  "Runnable c \<Longrightarrow> runPhase (PreRunE c) E args w = (Some err, w1) \<Longrightarrow> execute c E args w = (Some err, w1)"
  by (simp add: execute_def)


lemma runPhase_installHook_pre:
  "runPhase (PreRunE (installHook p hook cpath c)) = hookPreRunE p hook (cobraUse c) cpath (PreRunE c)"
  by (rule ext)+ (simp add: runPhase_def installHook_PreRunE)

lemma hook_paths:
  "Hook_CommandPath hook1 = ''ignite scaffold chain''" "Hook_CommandPath hook2 = ''ignite scaffold chain''"
  by (simp_all add: Hook_CommandPath_def ensureFullCommandPath_def TrimSpace_def HasPrefix_def
      hook1_def hook2_def)

lemma find_chain:
  "findCommandByPath None (legacyTree pre body) ''ignite scaffold chain'' = Some ([0, 0], chainCmd pre body)"
  by (simp add: legacyTree_def chainCmd_def CommandPath_def Name_def firstWord_def)

lemma chainCmd_RunE: "RunE (chainCmd pre body) = Some body"
  by (simp add: chainCmd_def)

lemma chainCmd_fields:
  "Runnable (chainCmd pre body)" "PreRunE (chainCmd pre body) = pre" "cobraUse (chainCmd pre body) = ''chain''"
  by (simp_all add: chainCmd_def Runnable_def)

text \<open>
  C9, as stated, fails: a hook is attached to the runnable command \<open>chain\<close>, which has
  no pre-phase of its own, and the command runs where the chain cannot be resolved. The
  installed pre-phase returns the error of \<open>newChainWithHomeFlags\<close>: \<open>ExecuteHookPre\<close> is
  not called (the trace stays empty), and the command returns that error.
\<close>

theorem ExecuteHookPre_not_called_counterexample:
  "findCommandByPath None (fst (linkAppHooks (legacyTree None failingBody) fooApp [hook1]))
        ''ignite scaffold chain''
      = Some ([0, 0], installHook fooApp hook1 ''ignite scaffold chain'' (chainCmd None failingBody))
   \<and> runPhase (PreRunE (chainCmd None failingBody)) env0 [''arg1''] worldNoChain = (None, worldNoChain)
   \<and> runPhase (PreRunE (installHook fooApp hook1 ''ignite scaffold chain'' (chainCmd None failingBody)))
        env0 [''arg1''] worldNoChain
      = (Some ''cannot read the chain config'', worldNoChain)
   \<and> execute (installHook fooApp hook1 ''ignite scaffold chain'' (chainCmd None failingBody))
        env0 [''arg1''] worldNoChain
      = (Some ''cannot read the chain config'', worldNoChain)
   \<and> trace worldNoChain = []"
proof -
  have e: "Error fooApp = None" by (simp add: fooApp_def app0_def)
  have f: "findCommandByPath None (legacyTree None failingBody) (Hook_CommandPath hook1)
      = Some ([0, 0], chainCmd None failingBody)"
    by (simp add: hook_paths find_chain)
  have l: "linkAppHooks (legacyTree None failingBody) fooApp [hook1]
      = linkAppHook (legacyTree None failingBody) fooApp hook1"
    using e by (simp add: linkAppHooks_def)
  have 1: "findCommandByPath None (fst (linkAppHooks (legacyTree None failingBody) fooApp [hook1]))
        ''ignite scaffold chain''
      = Some ([0, 0], installHook fooApp hook1 ''ignite scaffold chain'' (chainCmd None failingBody))"
    unfolding l using linkAppHook_found(2)[OF f chainCmd_fields(1), of fooApp] by (simp add: hook_paths)
  have 2: "runPhase (PreRunE (chainCmd None failingBody)) env0 [''arg1''] worldNoChain = (None, worldNoChain)"
    by (simp add: chainCmd_fields runPhase_def)
  have c: "chainState worldNoChain = ChainFailed ''cannot read the chain config''"
    by (simp add: worldNoChain_def)
  have 3: "runPhase (PreRunE (installHook fooApp hook1 ''ignite scaffold chain'' (chainCmd None failingBody)))
        env0 [''arg1''] worldNoChain
      = (Some ''cannot read the chain config'', worldNoChain)"
    unfolding runPhase_installHook_pre using hookPreRunE_chain_fails[OF 2 c] .
  have 4: "execute (installHook fooApp hook1 ''ignite scaffold chain'' (chainCmd None failingBody))
        env0 [''arg1''] worldNoChain
      = (Some ''cannot read the chain config'', worldNoChain)"
    using execute_pre_fails[OF installHook_Runnable 3] .
  have 5: "trace worldNoChain = []" by (simp add: worldNoChain_def world0_def)
  show ?thesis using 1 2 3 4 5 by simp
qed

text \<open>
  C9, amended. A hook is attached to the runnable command found at its path, and the
  command is found again at the same place with the new handlers (so a second hook on
  the same path wraps the first). The installed pre-phase runs the previously installed
  pre-phase first: when that fails, its error is returned and \<open>ExecuteHookPre\<close> is not
  called. When it succeeds, the chain is resolved (\<open>newChainWithHomeFlags\<close>): when that
  fails with an error other than \<open>ErrGoModNotFound\<close>, the error is returned and
  \<open>ExecuteHookPre\<close> is not called, with one hook and with two; otherwise
  \<open>ExecuteHookPre\<close> is called next. With two hooks on the same command the call for the
  first-registered hook comes before the call for the second. When the pre-phase of
  the command fails, the command returns that error in the state the pre-phase left:
  the body has not run.
\<close>

theorem hook_pre_phase_order:
  assumes found: "findCommandByPath None rootCmd (Hook_CommandPath hookA) = Some (pos, cmd)"
    and same: "Hook_CommandPath hookB = Hook_CommandPath hookA"
    and run: "Runnable cmd" and ne: "Error p = None" and i: "Interface p = Some i"
    and prior: "runPhase (PreRunE cmd) E args w = (r0, w0)"
  shows
    "(let path = Hook_CommandPath hookA;
          cmdA = installHook p hookA path cmd;
          cmdB = installHook p hookB path cmdA;
          hA = newExecutedHook p hookA (cobraUse cmd) path E args;
          hB = newExecutedHook p hookB (cobraUse cmd) path E args
      in linkAppHooks rootCmd p [hookA] = (modifyAt (installHook p hookA path) pos rootCmd, p)
       \<and> findCommandByPath None (fst (linkAppHooks rootCmd p [hookA])) path = Some (pos, cmdA)
       \<and> snd (linkAppHooks rootCmd p [hookA, hookB]) = p
       \<and> findCommandByPath None (fst (linkAppHooks rootCmd p [hookA, hookB])) path = Some (pos, cmdB)
       \<and> (r0 \<noteq> None \<longrightarrow> runPhase (PreRunE cmdA) E args w = (r0, w0))
       \<and> (r0 = None \<and> chainState w0 = ChainFailed cerr \<longrightarrow>
             runPhase (PreRunE cmdA) E args w = (Some cerr, w0)
           \<and> runPhase (PreRunE cmdB) E args w = (Some cerr, w0))
       \<and> (r0 = None \<and> (\<forall>e. chainState w0 \<noteq> ChainFailed e) \<longrightarrow>
             trace (snd (runPhase (PreRunE cmdA) E args w)) = trace w0 @ [EvHookPre (Path p) hA]
           \<and> fst (runPhase (PreRunE cmdA) E args w) =
               map_option (\<lambda>err. ''app '' @ quoted (Path p) @ '' ExecuteHookPre() error: '' @ err)
                 (RpcExecuteHookPre i hA))
       \<and> (r0 = None \<and> (\<forall>e. chainState w0 \<noteq> ChainFailed e) \<and> RpcExecuteHookPre i hA = None \<longrightarrow>
             trace (snd (runPhase (PreRunE cmdB) E args w))
               = trace w0 @ [EvHookPre (Path p) hA, EvHookPre (Path p) hB])
       \<and> (fst (runPhase (PreRunE cmdA) E args w) \<noteq> None \<longrightarrow>
             execute cmdA E args w = runPhase (PreRunE cmdA) E args w)
       \<and> (fst (runPhase (PreRunE cmdB) E args w) \<noteq> None \<longrightarrow>
             execute cmdB E args w = runPhase (PreRunE cmdB) E args w))"
proof -
  define path where "path = Hook_CommandPath hookA"
  define cmdA where "cmdA = installHook p hookA path cmd"
  define cmdB where "cmdB = installHook p hookB path cmdA"
  define hA where "hA = newExecutedHook p hookA (cobraUse cmd) path E args"
  define hB where "hB = newExecutedHook p hookB (cobraUse cmd) path E args"
  have fA: "findCommandByPath None rootCmd (Hook_CommandPath hookA) = Some (pos, cmd)"
    using found .
  have l1: "linkAppHook rootCmd p hookA = (modifyAt (installHook p hookA path) pos rootCmd, p)"
    using linkAppHook_found(1)[OF fA run] by (simp add: path_def)
  have f1: "findCommandByPath None (fst (linkAppHook rootCmd p hookA)) path = Some (pos, cmdA)"
    using linkAppHook_found(2)[OF fA run] by (simp add: path_def cmdA_def)
  have c1: "linkAppHooks rootCmd p [hookA] = (modifyAt (installHook p hookA path) pos rootCmd, p)"
    using ne l1 by (simp add: linkAppHooks_def)
  have fB: "findCommandByPath None (fst (linkAppHook rootCmd p hookA)) (Hook_CommandPath hookB) = Some (pos, cmdA)"
    using f1 same by (simp add: path_def)
  have rA: "Runnable cmdA" by (simp add: cmdA_def installHook_Runnable)
  have rB: "Runnable cmdB" by (simp add: cmdB_def installHook_Runnable)
  have l2: "linkAppHook (fst (linkAppHook rootCmd p hookA)) p hookB
      = (modifyAt (installHook p hookB path) pos (fst (linkAppHook rootCmd p hookA)), p)"
    using linkAppHook_found(1)[OF fB rA] same by (simp add: path_def)
  have f2: "findCommandByPath None (fst (linkAppHook (fst (linkAppHook rootCmd p hookA)) p hookB)) path
      = Some (pos, cmdB)"
    using linkAppHook_found(2)[OF fB rA] same by (simp add: path_def cmdB_def)
  have c2: "linkAppHooks rootCmd p [hookA, hookB]
      = linkAppHook (fst (linkAppHook rootCmd p hookA)) p hookB"
    using ne l1 by (simp add: linkAppHooks_def)
  have preA: "runPhase (PreRunE cmdA) E args w = hookPreRunE p hookA (cobraUse cmd) path (PreRunE cmd) E args w"
    by (simp add: cmdA_def runPhase_installHook_pre)
  have preB: "runPhase (PreRunE cmdB) E args w = hookPreRunE p hookB (cobraUse cmd) path (PreRunE cmdA) E args w"
    by (simp add: cmdB_def runPhase_installHook_pre) (simp add: cmdA_def installHook_use)
  have g1: "r0 \<noteq> None \<Longrightarrow> runPhase (PreRunE cmdA) E args w = (r0, w0)"
    using prior hookPreRunE_prior_fails[of "PreRunE cmd" E args w _ w0] preA by auto
  have g6: "r0 = None \<Longrightarrow> chainState w0 = ChainFailed cerr \<Longrightarrow>
      runPhase (PreRunE cmdA) E args w = (Some cerr, w0) \<and> runPhase (PreRunE cmdB) E args w = (Some cerr, w0)"
  proof -
    assume a: "r0 = None" "chainState w0 = ChainFailed cerr"
    have p0: "runPhase (PreRunE cmd) E args w = (None, w0)" using prior a(1) by simp
    have A: "runPhase (PreRunE cmdA) E args w = (Some cerr, w0)"
      unfolding preA using hookPreRunE_chain_fails[OF p0 a(2)] .
    have "runPhase (PreRunE cmdB) E args w = (Some cerr, w0)"
      unfolding preB using hookPreRunE_prior_fails[OF A] .
    then show ?thesis using A by simp
  qed
  have g2: "r0 = None \<Longrightarrow> \<forall>e. chainState w0 \<noteq> ChainFailed e \<Longrightarrow>
      runPhase (PreRunE cmdA) E args w =
        (map_option (\<lambda>err. ''app '' @ quoted (Path p) @ '' ExecuteHookPre() error: '' @ err)
           (RpcExecuteHookPre i hA), emit (EvHookPre (Path p) hA) w0)"
    using prior hookPreRunE_prior_ok[of "PreRunE cmd" E args w w0 p i hookA "cobraUse cmd" path] i preA
    by (simp add: hA_def)
  have g3: "r0 = None \<Longrightarrow> \<forall>e. chainState w0 \<noteq> ChainFailed e \<Longrightarrow> RpcExecuteHookPre i hA = None \<Longrightarrow>
      trace (snd (runPhase (PreRunE cmdB) E args w))
        = trace w0 @ [EvHookPre (Path p) hA, EvHookPre (Path p) hB]"
  proof -
    assume a: "r0 = None" "\<forall>e. chainState w0 \<noteq> ChainFailed e" "RpcExecuteHookPre i hA = None"
    have "runPhase (PreRunE cmdA) E args w = (None, emit (EvHookPre (Path p) hA) w0)"
      using g2[OF a(1,2)] a(3) by simp
    from hookPreRunE_prior_ok[OF this i, of hookB "cobraUse cmd" path] a(2)
    show ?thesis by (simp add: preB hB_def)
  qed
  have g4: "fst (runPhase (PreRunE cmdA) E args w) \<noteq> None \<Longrightarrow>
      execute cmdA E args w = runPhase (PreRunE cmdA) E args w"
    using execute_pre_fails[OF rA, of E args w] by (cases "runPhase (PreRunE cmdA) E args w") auto
  have g5: "fst (runPhase (PreRunE cmdB) E args w) \<noteq> None \<Longrightarrow>
      execute cmdB E args w = runPhase (PreRunE cmdB) E args w"
    using execute_pre_fails[OF rB, of E args w] by (cases "runPhase (PreRunE cmdB) E args w") auto
  show ?thesis
    unfolding Let_def path_def[symmetric] cmdA_def[symmetric] cmdB_def[symmetric]
      hA_def[symmetric] hB_def[symmetric]
    using c1 f1 c2 l2 f2 g1 g2 g3 g4 g5 g6 l1 by simp
qed


theorem hook_pre_phase_order_witness:
  "findCommandByPath None (legacyTree None failingBody) (Hook_CommandPath hook1)
      = Some ([0, 0], chainCmd None failingBody)
   \<and> Hook_CommandPath hook2 = Hook_CommandPath hook1
   \<and> Runnable (chainCmd None failingBody) \<and> Error fooApp = None
   \<and> Interface fooApp = Some (ifaceOk emptyManifest)
   \<and> runPhase (PreRunE (chainCmd None failingBody)) env0 [''arg1''] world0 = (None, world0)
   \<and> findCommandByPath None (fst (linkAppHooks (legacyTree None failingBody) fooApp [hook1, hook2]))
        ''ignite scaffold chain''
      = Some ([0, 0], installHook fooApp hook2 ''ignite scaffold chain''
                        (installHook fooApp hook1 ''ignite scaffold chain'' (chainCmd None failingBody)))
   \<and> trace (snd (runPhase (PreRunE (installHook fooApp hook2 ''ignite scaffold chain''
                        (installHook fooApp hook1 ''ignite scaffold chain'' (chainCmd None failingBody))))
                    env0 [''arg1''] world0))
      = [EvHookPre ''foo'' (newExecutedHook fooApp hook1 ''chain'' ''ignite scaffold chain'' env0 [''arg1'']),
         EvHookPre ''foo'' (newExecutedHook fooApp hook2 ''chain'' ''ignite scaffold chain'' env0 [''arg1''])]
   \<and> execute (installHook fooAppDenied hook1 ''ignite scaffold chain'' (chainCmd None failingBody))
        env0 [''arg1''] world0
      = (Some (''app '' @ quoted ''foo'' @ '' ExecuteHookPre() error: denied''),
         emit (EvHookPre ''foo'' (newExecutedHook fooAppDenied hook1 ''chain'' ''ignite scaffold chain'' env0 [''arg1'']))
           world0)
   \<and> runPhase (PreRunE (chainCmd (Some failingPre) failingBody)) env0 [''arg1''] world0
      = (Some ''not ready'', world0)
   \<and> runPhase (PreRunE (installHook fooApp hook1 ''ignite scaffold chain'' (chainCmd (Some failingPre) failingBody)))
        env0 [''arg1''] world0
      = (Some ''not ready'', world0)
   \<and> runPhase (PreRunE (chainCmd None failingBody)) env0 [''arg1''] worldNoChain = (None, worldNoChain)
   \<and> chainState worldNoChain = ChainFailed ''cannot read the chain config''
   \<and> runPhase (PreRunE (installHook fooApp hook2 ''ignite scaffold chain''
                        (installHook fooApp hook1 ''ignite scaffold chain'' (chainCmd None failingBody))))
        env0 [''arg1''] worldNoChain
      = (Some ''cannot read the chain config'', worldNoChain)"
proof -
  have app: "Error fooApp = None" "Interface fooApp = Some (ifaceOk emptyManifest)" "Path fooApp = ''foo''"
    by (simp_all add: fooApp_def app0_def)
  have appD: "Error fooAppDenied = None" "Path fooAppDenied = ''foo''"
    "Interface fooAppDenied = Some ((ifaceOk emptyManifest)\<lparr>RpcExecuteHookPre := (\<lambda>h. Some ''denied'')\<rparr>)"
    by (simp_all add: fooAppDenied_def fooApp_def app0_def)
  have f: "findCommandByPath None (legacyTree pre body) (Hook_CommandPath hook1) = Some ([0, 0], chainCmd pre body)"
    for pre body
    by (simp add: hook_paths find_chain)
  have s: "Hook_CommandPath hook2 = Hook_CommandPath hook1" by (simp add: hook_paths)
  have p0: "runPhase (PreRunE (chainCmd None failingBody)) env0 [''arg1''] world0 = (None, world0)"
    by (simp add: chainCmd_fields runPhase_def)
  have p1: "runPhase (PreRunE (chainCmd (Some failingPre) failingBody)) env0 [''arg1''] world0
      = (Some ''not ready'', world0)"
    by (simp add: chainCmd_fields runPhase_def failingPre_def)
  have ch: "\<forall>e. chainState world0 \<noteq> ChainFailed e" by (simp add: world0_def)
  have p2: "runPhase (PreRunE (chainCmd None failingBody)) env0 [''arg1''] worldNoChain = (None, worldNoChain)"
    by (simp add: chainCmd_fields runPhase_def)
  have cf: "chainState worldNoChain = ChainFailed ''cannot read the chain config''"
    by (simp add: worldNoChain_def)
  have ok: "RpcExecuteHookPre (ifaceOk emptyManifest) h = None" for h by (simp add: ifaceOk_def)
  have den: "RpcExecuteHookPre ((ifaceOk emptyManifest)\<lparr>RpcExecuteHookPre := (\<lambda>h. Some ''denied'')\<rparr>) h = Some ''denied''"
    for h by simp
  note A = hook_pre_phase_order[OF f s chainCmd_fields(1) app(1,2) p0, unfolded Let_def hook_paths chainCmd_fields(3)]
  note B = hook_pre_phase_order[OF f s chainCmd_fields(1) appD(1,3) p0, unfolded Let_def hook_paths chainCmd_fields(3)]
  note C = hook_pre_phase_order[OF f s chainCmd_fields(1) app(1,2) p1, unfolded Let_def hook_paths chainCmd_fields(3)]
  note D = hook_pre_phase_order[OF f s chainCmd_fields(1) app(1,2) p2,
      where cerr = "''cannot read the chain config''", unfolded Let_def hook_paths chainCmd_fields(3)]
  have d1: "runPhase (PreRunE (installHook fooApp hook2 ''ignite scaffold chain''
                        (installHook fooApp hook1 ''ignite scaffold chain'' (chainCmd None failingBody))))
        env0 [''arg1''] worldNoChain
      = (Some ''cannot read the chain config'', worldNoChain)"
    using D cf by blast
  have a1: "findCommandByPath None (fst (linkAppHooks (legacyTree None failingBody) fooApp [hook1, hook2]))
        ''ignite scaffold chain''
      = Some ([0, 0], installHook fooApp hook2 ''ignite scaffold chain''
                        (installHook fooApp hook1 ''ignite scaffold chain'' (chainCmd None failingBody)))"
    using A by blast
  have a2: "trace (snd (runPhase (PreRunE (installHook fooApp hook2 ''ignite scaffold chain''
                        (installHook fooApp hook1 ''ignite scaffold chain'' (chainCmd None failingBody))))
                    env0 [''arg1''] world0))
      = trace world0 @
        [EvHookPre (Path fooApp) (newExecutedHook fooApp hook1 ''chain'' ''ignite scaffold chain'' env0 [''arg1'']),
         EvHookPre (Path fooApp) (newExecutedHook fooApp hook2 ''chain'' ''ignite scaffold chain'' env0 [''arg1''])]"
    using A ch ok by blast
  have b1: "trace (snd (runPhase (PreRunE (installHook fooAppDenied hook1 ''ignite scaffold chain'' (chainCmd None failingBody)))
                    env0 [''arg1''] world0))
      = trace world0 @ [EvHookPre (Path fooAppDenied) (newExecutedHook fooAppDenied hook1 ''chain'' ''ignite scaffold chain'' env0 [''arg1''])]"
    and b2: "fst (runPhase (PreRunE (installHook fooAppDenied hook1 ''ignite scaffold chain'' (chainCmd None failingBody)))
                    env0 [''arg1''] world0)
      = map_option (\<lambda>err. ''app '' @ quoted (Path fooAppDenied) @ '' ExecuteHookPre() error: '' @ err)
          (RpcExecuteHookPre ((ifaceOk emptyManifest)\<lparr>RpcExecuteHookPre := (\<lambda>h. Some ''denied'')\<rparr>)
             (newExecutedHook fooAppDenied hook1 ''chain'' ''ignite scaffold chain'' env0 [''arg1'']))"
    using B ch by blast+
  have b3: "execute (installHook fooAppDenied hook1 ''ignite scaffold chain'' (chainCmd None failingBody)) env0 [''arg1''] world0
      = runPhase (PreRunE (installHook fooAppDenied hook1 ''ignite scaffold chain'' (chainCmd None failingBody))) env0 [''arg1''] world0"
    using B b2 den by simp
  have b4: "runPhase (PreRunE (installHook fooAppDenied hook1 ''ignite scaffold chain'' (chainCmd None failingBody))) env0 [''arg1''] world0
      = (Some (''app '' @ quoted ''foo'' @ '' ExecuteHookPre() error: denied''),
         emit (EvHookPre ''foo'' (newExecutedHook fooAppDenied hook1 ''chain'' ''ignite scaffold chain'' env0 [''arg1'']))
           world0)"
    by (simp add: runPhase_installHook_pre chainCmd_fields hookPreRunE_def runPhase_def ExecuteHookPre_def
        appD world0_def emit_def)
  have c1: "runPhase (PreRunE (installHook fooApp hook1 ''ignite scaffold chain'' (chainCmd (Some failingPre) failingBody)))
        env0 [''arg1''] world0 = (Some ''not ready'', world0)"
    using C by simp
  show ?thesis
    using f[of None failingBody] s chainCmd_fields(1)[of None failingBody] app(1,2) p0 a1 a2 b3 b4 p1 c1
      p2 cf d1
    by (simp add: app(3) world0_def)
qed


lemma cleanUpLogged_trace:
  "Interface p = Some i \<Longrightarrow>
   trace (cleanUpLogged p h w) = trace w @ EvHookCleanUp (Path p) h #
     (case RpcExecuteHookCleanUp i h of
        None \<Rightarrow> []
      | Some cerr \<Rightarrow> [EvPrint (''app '' @ quoted (Path p) @ '' ExecuteHookCleanUp() error: '' @ cerr)])"
  by (simp add: cleanUpLogged_def ExecuteHookCleanUp_def split: option.splits)

lemma execute_body_fails:
  assumes "Runnable c" and "runPhase (PreRunE c) E args w = (None, w1)"
    and "RunE c = Some f" and "f E args w1 = (Some err, w2)"
  shows "execute c E args w = (Some err, w2)"
  using assms by (simp add: execute_def)

text \<open>
  C2, as stated, fails: the body returns the error \<open>boom\<close> and leaves the chain's
  configuration unreadable; the installed \<open>RunE\<close> then returns the error of
  \<open>newChainWithHomeFlags\<close> instead of the body's, and \<open>ExecuteHookCleanUp\<close> is not called.
\<close>

theorem body_error_replaced_counterexample:
  "findCommandByPath None (fst (linkAppHook (legacyTree None breakingBody) fooApp hook1)) ''ignite scaffold chain''
     = Some ([0, 0], installHook fooApp hook1 ''ignite scaffold chain'' (chainCmd None breakingBody))
   \<and> fst (breakingBody env0 [''arg1'']
            (emit (EvHookPre ''foo'' (newExecutedHook fooApp hook1 ''chain'' ''ignite scaffold chain'' env0 [''arg1'']))
               world0)) = Some ''boom''
   \<and> execute (installHook fooApp hook1 ''ignite scaffold chain'' (chainCmd None breakingBody)) env0 [''arg1''] world0
     = (Some ''cannot read the chain config'',
        world0\<lparr>chainState := ChainFailed ''cannot read the chain config'',
               trace := [EvHookPre ''foo'' (newExecutedHook fooApp hook1 ''chain'' ''ignite scaffold chain'' env0 [''arg1''])]\<rparr>)"
proof -
  have f: "findCommandByPath None (legacyTree None breakingBody) (Hook_CommandPath hook1)
      = Some ([0, 0], chainCmd None breakingBody)"
    by (simp add: hook_paths find_chain)
  have a: "findCommandByPath None (fst (linkAppHook (legacyTree None breakingBody) fooApp hook1)) ''ignite scaffold chain''
     = Some ([0, 0], installHook fooApp hook1 ''ignite scaffold chain'' (chainCmd None breakingBody))"
    using linkAppHook_found(2)[OF f chainCmd_fields(1)] by (simp add: hook_paths)
  let ?h = "newExecutedHook fooApp hook1 ''chain'' ''ignite scaffold chain'' env0 [''arg1'']"
  let ?c = "installHook fooApp hook1 ''ignite scaffold chain'' (chainCmd None breakingBody)"
  have app: "Interface fooApp = Some (ifaceOk emptyManifest)" "Path fooApp = ''foo''"
    by (simp_all add: fooApp_def app0_def)
  have p: "runPhase (PreRunE ?c) env0 [''arg1''] world0 = (None, emit (EvHookPre ''foo'' ?h) world0)"
    by (simp add: runPhase_installHook_pre chainCmd_fields hookPreRunE_def runPhase_def ExecuteHookPre_def
        app ifaceOk_def world0_def emit_def)
  have r: "RunE ?c = Some (hookRunE fooApp hook1 ''chain'' ''ignite scaffold chain'' (Some breakingBody))"
    by (simp add: installHook_RunE chainCmd_fields chainCmd_RunE)
  have h: "hookRunE fooApp hook1 ''chain'' ''ignite scaffold chain'' (Some breakingBody) env0 [''arg1'']
             (emit (EvHookPre ''foo'' ?h) world0)
      = (Some ''cannot read the chain config'',
         world0\<lparr>chainState := ChainFailed ''cannot read the chain config'', trace := [EvHookPre ''foo'' ?h]\<rparr>)"
    by (simp add: hookRunE_def breakingBody_def world0_def emit_def)
  have b: "execute ?c env0 [''arg1''] world0
     = (Some ''cannot read the chain config'',
        world0\<lparr>chainState := ChainFailed ''cannot read the chain config'', trace := [EvHookPre ''foo'' ?h]\<rparr>)"
    using execute_body_fails[OF installHook_Runnable p r h] .
  show ?thesis using a b by (simp add: breakingBody_def)
qed

text \<open>
  C2, amended. For a command with a hook attached whose pre-phase has succeeded and
  whose wrapped body returns an error: when \<open>newChainWithHomeFlags\<close> then succeeds or
  reports \<open>ErrGoModNotFound\<close>, \<open>ExecuteHookCleanUp\<close> is called before the error is
  returned, nothing else is called (the post-phase is skipped), an error of
  \<open>ExecuteHookCleanUp\<close> is printed and not returned, and the command returns the body's
  error; when \<open>newChainWithHomeFlags\<close> fails with another error, the command returns
  that error.
\<close>

theorem body_failure_runs_cleanup:
  assumes found: "findCommandByPath None rootCmd (Hook_CommandPath hook) = Some (pos, cmd)"
    and run: "RunE cmd = Some body"
    and i: "Interface p = Some i"
    and pre: "runPhase (PreRunE (installHook p hook (Hook_CommandPath hook) cmd)) E args w = (None, w1)"
    and body: "body E args w1 = (Some err, w2)"
  shows
    "(let path = Hook_CommandPath hook;
          cmd' = installHook p hook path cmd;
          h = newExecutedHook p hook (cobraUse cmd) path E args
      in linkAppHook rootCmd p hook = (modifyAt (installHook p hook path) pos rootCmd, p)
       \<and> findCommandByPath None (fst (linkAppHook rootCmd p hook)) path = Some (pos, cmd')
       \<and> ((\<forall>e. chainState w2 \<noteq> ChainFailed e) \<longrightarrow>
              execute cmd' E args w = (Some err, cleanUpLogged p h w2)
            \<and> trace (cleanUpLogged p h w2) = trace w2 @ EvHookCleanUp (Path p) h #
                (case RpcExecuteHookCleanUp i h of
                   None \<Rightarrow> []
                 | Some cerr \<Rightarrow> [EvPrint (''app '' @ quoted (Path p) @ '' ExecuteHookCleanUp() error: '' @ cerr)]))
       \<and> (\<forall>e. chainState w2 = ChainFailed e \<longrightarrow> execute cmd' E args w = (Some e, w2)))"
proof -
  define path where "path = Hook_CommandPath hook"
  define cmd' where "cmd' = installHook p hook path cmd"
  define h where "h = newExecutedHook p hook (cobraUse cmd) path E args"
  have r: "Runnable cmd" using run by (simp add: Runnable_def)
  have l1: "linkAppHook rootCmd p hook = (modifyAt (installHook p hook path) pos rootCmd, p)"
    using linkAppHook_found(1)[OF found r] by (simp add: path_def)
  have f1: "findCommandByPath None (fst (linkAppHook rootCmd p hook)) path = Some (pos, cmd')"
    using linkAppHook_found(2)[OF found r] by (simp add: path_def cmd'_def)
  have r': "Runnable cmd'" by (simp add: cmd'_def installHook_Runnable)
  have pre': "runPhase (PreRunE cmd') E args w = (None, w1)"
    using pre by (simp add: cmd'_def path_def)
  have run': "RunE cmd' = Some (hookRunE p hook (cobraUse cmd) path (Some body))"
    by (simp add: cmd'_def installHook_RunE run)
  have ok: "\<forall>e. chainState w2 \<noteq> ChainFailed e \<Longrightarrow>
      hookRunE p hook (cobraUse cmd) path (Some body) E args w1 = (Some err, cleanUpLogged p h w2)"
    using body by (cases "chainState w2") (simp_all add: hookRunE_def h_def)
  have bad: "chainState w2 = ChainFailed e \<Longrightarrow>
      hookRunE p hook (cobraUse cmd) path (Some body) E args w1 = (Some e, w2)" for e
    using body by (simp add: hookRunE_def)
  have g1: "\<forall>e. chainState w2 \<noteq> ChainFailed e \<Longrightarrow> execute cmd' E args w = (Some err, cleanUpLogged p h w2)"
    using execute_body_fails[OF r' pre' run'] ok by simp
  have g2: "chainState w2 = ChainFailed e \<Longrightarrow> execute cmd' E args w = (Some e, w2)" for e
    using execute_body_fails[OF r' pre' run'] bad by simp
  show ?thesis
    unfolding Let_def path_def[symmetric] cmd'_def[symmetric] h_def[symmetric]
    using l1 f1 g1 g2 cleanUpLogged_trace[OF i, of h w2] by simp
qed

theorem body_failure_runs_cleanup_witness:
  "findCommandByPath None (legacyTree None failingBody) (Hook_CommandPath hook1)
      = Some ([0, 0], chainCmd None failingBody)
   \<and> RunE (chainCmd None failingBody) = Some failingBody
   \<and> Interface fooApp = Some (ifaceOk emptyManifest)
   \<and> runPhase (PreRunE (installHook fooApp hook1 (Hook_CommandPath hook1) (chainCmd None failingBody)))
        env0 [''arg1''] world0
      = (None, emit (EvHookPre ''foo'' (newExecutedHook fooApp hook1 ''chain'' ''ignite scaffold chain'' env0 [''arg1'']))
                 world0)
   \<and> failingBody env0 [''arg1'']
        (emit (EvHookPre ''foo'' (newExecutedHook fooApp hook1 ''chain'' ''ignite scaffold chain'' env0 [''arg1'']))
           world0)
      = (Some ''boom'',
         emit (EvHookPre ''foo'' (newExecutedHook fooApp hook1 ''chain'' ''ignite scaffold chain'' env0 [''arg1'']))
           world0)
   \<and> fst (execute (installHook fooApp hook1 ''ignite scaffold chain'' (chainCmd None failingBody))
             env0 [''arg1''] world0) = Some ''boom''
   \<and> trace (snd (execute (installHook fooApp hook1 ''ignite scaffold chain'' (chainCmd None failingBody))
             env0 [''arg1''] world0))
      = [EvHookPre ''foo'' (newExecutedHook fooApp hook1 ''chain'' ''ignite scaffold chain'' env0 [''arg1'']),
         EvHookCleanUp ''foo'' (newExecutedHook fooApp hook1 ''chain'' ''ignite scaffold chain'' env0 [''arg1''])]"
proof -
  let ?h = "newExecutedHook fooApp hook1 ''chain'' ''ignite scaffold chain'' env0 [''arg1'']"
  let ?w1 = "emit (EvHookPre ''foo'' ?h) world0"
  have app: "Interface fooApp = Some (ifaceOk emptyManifest)" "Path fooApp = ''foo''"
    by (simp_all add: fooApp_def app0_def)
  have f: "findCommandByPath None (legacyTree None failingBody) (Hook_CommandPath hook1)
      = Some ([0, 0], chainCmd None failingBody)"
    by (simp add: hook_paths find_chain)
  have r: "RunE (chainCmd None failingBody) = Some failingBody" by (simp add: chainCmd_def)
  have p: "runPhase (PreRunE (installHook fooApp hook1 (Hook_CommandPath hook1) (chainCmd None failingBody)))
        env0 [''arg1''] world0 = (None, ?w1)"
    by (simp add: runPhase_installHook_pre chainCmd_fields hookPreRunE_def runPhase_def ExecuteHookPre_def
        app hook_paths ifaceOk_def world0_def emit_def)
  have b: "failingBody env0 [''arg1''] ?w1 = (Some ''boom'', ?w1)" by (simp add: failingBody_def)
  have ch: "\<forall>e. chainState ?w1 \<noteq> ChainFailed e" by (simp add: world0_def)
  have cl: "RpcExecuteHookCleanUp (ifaceOk emptyManifest) ?h = None" by (simp add: ifaceOk_def)
  note T = body_failure_runs_cleanup[OF f r app(1) p b, unfolded Let_def hook_paths chainCmd_fields(3)]
  have e1: "execute (installHook fooApp hook1 ''ignite scaffold chain'' (chainCmd None failingBody)) env0 [''arg1''] world0
      = (Some ''boom'', cleanUpLogged fooApp ?h ?w1)"
    and e2: "trace (cleanUpLogged fooApp ?h ?w1) = trace ?w1 @ [EvHookCleanUp (Path fooApp) ?h]"
    using T ch cl by simp_all
  show ?thesis
    using f r app(1) p b e1 e2 by (simp add: app(2) world0_def)
qed

section \<open>Linking commands\<close>













section \<open>linkApps and the loaded apps\<close>

lemma onlyError_refl [simp]: "onlyError p p"
  by (simp add: onlyError_def)

lemma onlyError_upd [simp]: "onlyError p (p\<lparr>Error := e\<rparr>)"
  by (simp add: onlyError_def)

lemma onlyError_trans: "onlyError p q \<Longrightarrow> onlyError q r \<Longrightarrow> onlyError p r"
  unfolding onlyError_def by (metis App.surjective App.update_convs(2))

lemma linkAppHook_only: "onlyError p (snd (linkAppHook rootCmd p hook))"
  by (simp add: linkAppHook_def Let_def split: option.splits prod.splits)

lemma linkAppHooksLoop_only: "onlyError p (snd (linkAppHooksLoop rootCmd p hooks))"
proof (induction hooks arbitrary: rootCmd p)
  case Nil then show ?case by simp
next
  case (Cons h hooks)
  obtain r1 p1 where l: "linkAppHook rootCmd p h = (r1, p1)" by (cases "linkAppHook rootCmd p h")
  then have "onlyError p p1" using linkAppHook_only[of p rootCmd h] by simp
  then show ?case using Cons[of p1 r1] l by (auto intro: onlyError_trans)
qed

lemma linkAppHooks_only: "onlyError p (snd (linkAppHooks rootCmd p hooks))"
  by (simp add: linkAppHooks_def linkAppHooksLoop_only)

lemma linkAppCmd_only_both:
  "onlyError p (snd (linkAppCmd par rootCmd p appCmd))"
  "onlyError p (snd (linkSubCmds par newCmd p cmds))"
proof (induction par rootCmd p appCmd and par newCmd p cmds rule: linkAppCmd_linkSubCmds.induct)
  case (1 par rootCmd p use place flags cmds)
  show ?case
  proof (cases "findCommandByPath par rootCmd (Command_Path (Command use place flags cmds))")
    case None
    then show ?thesis by (simp add: Let_def)
  next
    case (Some r)
    obtain pos cmd where r: "r = (pos, cmd)" by (cases r)
    show ?thesis
    proof (cases "Runnable cmd \<or> firstWord use \<in> set (map Name (subCommands cmd))")
      case True
      then show ?thesis using Some r by (auto simp: Let_def)
    next
      case False
      show ?thesis
      proof (cases "ToCobraCommand (Command use place flags cmds)")
        case (Inl err)
        then show ?thesis using Some r False by (simp add: Let_def)
      next
        case (Inr newCmd)
        show ?thesis
        proof (cases "cmds = []")
          case True
          then show ?thesis using Some r False Inr by (simp add: Let_def)
        next
          case ne: False
          have "onlyError p (snd (linkSubCmds (Some (Command_Path (Command use place flags cmds))) newCmd p cmds))"
            using 1[OF refl Some[unfolded r] refl _ _ Inr ne] False by simp
          then show ?thesis using Some r False Inr ne
            by (auto simp: Let_def split: prod.splits)
        qed
      qed
    qed
  qed
next
  case (2 par newCmd p)
  then show ?case by simp
next
  case (3 par newCmd p use place flags cmds rest)
  obtain n1 p1 where l: "linkAppCmd par newCmd p (Command use (CommandPath par newCmd) flags cmds) = (n1, p1)"
    by (cases "linkAppCmd par newCmd p (Command use (CommandPath par newCmd) flags cmds)")
  have a: "onlyError p p1" using 3(1) l by simp
  show ?case
  proof (cases "Error p1 \<noteq> None")
    case True
    then show ?thesis using l a by simp
  next
    case False
    then have "onlyError p1 (snd (linkSubCmds par n1 p1 rest))"
      using 3(2)[OF l[symmetric]] by simp
    then show ?thesis using l a False by (auto intro: onlyError_trans)
  qed
qed

lemma linkAppCmdsLoop_only: "onlyError p (snd (linkAppCmdsLoop rootCmd p cmds))"
proof (induction cmds arbitrary: rootCmd p)
  case Nil then show ?case by simp
next
  case (Cons c cmds)
  obtain r1 p1 where l: "linkAppCmd None rootCmd p c = (r1, p1)" by (cases "linkAppCmd None rootCmd p c")
  then have "onlyError p p1" using linkAppCmd_only_both(1)[of p None rootCmd c] by simp
  then show ?case using Cons[of p1 r1] l by (auto intro: onlyError_trans)
qed

lemma linkAppCmds_only: "onlyError p (snd (linkAppCmds rootCmd p cmds))"
  by (simp add: linkAppCmds_def linkAppCmdsLoop_only)

lemma linkOne_only: "onlyError p (snd (linkOne rootCmd p i))"
proof (cases "RpcManifest i")
  case (Inl err)
  then show ?thesis by (simp add: linkOne_def)
next
  case (Inr m)
  obtain r1 p1 where l: "linkAppHooks rootCmd p (Hooks m) = (r1, p1)" by (cases "linkAppHooks rootCmd p (Hooks m)")
  then have a: "onlyError p p1" using linkAppHooks_only[of p rootCmd "Hooks m"] by simp
  show ?thesis
    using Inr l a linkAppCmds_only[of p1 r1 "ManifestCommands m"]
    by (auto simp: linkOne_def intro: onlyError_trans)
qed


lemma linkAppsLoop_step:
  assumes "heap s a = Some p" and "Error p = None" and "Interface p = Some i"
  shows "linkAppsLoop (a # rest) errs rootCmd s =
     linkAppsLoop rest (if Error (snd (linkOne rootCmd p i)) \<noteq> None then errs @ [a] else errs)
       (fst (linkOne rootCmd p i))
       (s\<lparr>wld := emit (EvManifest (Path p)) (wld s), heap := (heap s)(a \<mapsto> snd (linkOne rootCmd p i))\<rparr>)"
proof (cases "RpcManifest i")
  case (Inl err)
  then show ?thesis using assms by (simp add: linkOne_def Let_def)
next
  case (Inr m)
  obtain r1 p1 where l: "linkAppHooks rootCmd p (Hooks m) = (r1, p1)" by (cases "linkAppHooks rootCmd p (Hooks m)")
  show ?thesis
  proof (cases "Error p1 \<noteq> None")
    case True
    then show ?thesis using assms Inr l by (simp add: linkOne_def Let_def)
  next
    case False
    obtain r2 p2 where l2: "linkAppCmds r1 p1 (ManifestCommands m) = (r2, p2)"
      by (cases "linkAppCmds r1 p1 (ManifestCommands m)")
    show ?thesis using assms Inr l False l2 by (simp add: linkOne_def Let_def)
  qed
qed

lemma map_filter_Cons_Some: "h a = Some p \<Longrightarrow> List.map_filter h (a # ps) = p # List.map_filter h ps"
  by (simp add: List.map_filter_def)

lemma map_filter_upd_other: "a \<notin> set ps \<Longrightarrow> List.map_filter (h(a \<mapsto> q)) ps = List.map_filter h ps"
  by (induction ps) (auto simp: List.map_filter_def)

lemma validApps_Cons: "validApps h (a # ps) \<Longrightarrow> validApps h ps"
  by (simp add: validApps_def)

lemma validApps_upd_other: "a \<notin> set ps \<Longrightarrow> validApps h ps \<Longrightarrow> validApps (h(a \<mapsto> q)) ps"
  by (auto simp: validApps_def)

lemma linkAppsLoop_result:
  assumes "distinct ps" and "validApps (heap s) ps"
  shows "\<exists>root' s'. linkAppsLoop ps errs rootCmd s = Some (errs @ failedIn (heap s') ps, root', s')
      \<and> apps s' = apps s
      \<and> wld s' = (wld s)\<lparr>trace := trace (wld s) @ manifestCalls (heap s) ps\<rparr>
      \<and> (\<forall>a. a \<notin> set ps \<longrightarrow> heap s' a = heap s a)
      \<and> (\<forall>a\<in>set ps. \<forall>p. heap s a = Some p \<longrightarrow>
            (\<exists>p'. heap s' a = Some p' \<and> onlyError p p' \<and> (Error p \<noteq> None \<longrightarrow> p' = p)))"
  using assms
proof (induction ps arbitrary: errs rootCmd s)
  case Nil
  then show ?case by (simp add: failedIn_def manifestCalls_def List.map_filter_def)
next
  case (Cons a rest)
  from Cons.prems(2) obtain p where p: "heap s a = Some p" "Error p = None \<longrightarrow> Interface p \<noteq> None"
    by (auto simp: validApps_def)
  have d: "distinct rest" "a \<notin> set rest" using Cons.prems(1) by simp_all
  have v: "validApps (heap s) rest" using Cons.prems(2) by (rule validApps_Cons)
  show ?case
  proof (cases "Error p \<noteq> None")
    case True
    from Cons.IH[OF d(1) v, of "errs @ [a]" rootCmd] obtain root' s' where
      r: "linkAppsLoop rest (errs @ [a]) rootCmd s = Some ((errs @ [a]) @ failedIn (heap s') rest, root', s')"
      "apps s' = apps s" "wld s' = (wld s)\<lparr>trace := trace (wld s) @ manifestCalls (heap s) rest\<rparr>"
      "\<forall>b. b \<notin> set rest \<longrightarrow> heap s' b = heap s b"
      "\<forall>b\<in>set rest. \<forall>q. heap s b = Some q \<longrightarrow>
            (\<exists>q'. heap s' b = Some q' \<and> onlyError q q' \<and> (Error q \<noteq> None \<longrightarrow> q' = q))"
      by blast
    have ha: "heap s' a = Some p" using r(4) d(2) p(1) by simp
    have f: "failedIn (heap s') (a # rest) = a # failedIn (heap s') rest"
      using ha True by (simp add: failedIn_def)
    have m: "manifestCalls (heap s) (a # rest) = manifestCalls (heap s) rest"
      using p(1) True by (simp add: manifestCalls_def map_filter_Cons_Some)
    have "linkAppsLoop (a # rest) errs rootCmd s = Some (errs @ failedIn (heap s') (a # rest), root', s')"
      using p(1) True r(1) f by simp
    moreover have "\<forall>b. b \<notin> set (a # rest) \<longrightarrow> heap s' b = heap s b" using r(4) by simp
    moreover have "\<forall>b\<in>set (a # rest). \<forall>q. heap s b = Some q \<longrightarrow>
            (\<exists>q'. heap s' b = Some q' \<and> onlyError q q' \<and> (Error q \<noteq> None \<longrightarrow> q' = q))"
      using r(5) ha p(1) by auto
    ultimately show ?thesis using r(2,3) m by auto
  next
    case False
    then obtain i where i: "Interface p = Some i" using p(2) by auto
    define p2 where "p2 = snd (linkOne rootCmd p i)"
    define errs2 where "errs2 = (if Error p2 \<noteq> None then errs @ [a] else errs)"
    define s2 where "s2 = s\<lparr>wld := emit (EvManifest (Path p)) (wld s), heap := (heap s)(a \<mapsto> p2)\<rparr>"
    have st: "linkAppsLoop (a # rest) errs rootCmd s = linkAppsLoop rest errs2 (fst (linkOne rootCmd p i)) s2"
      using linkAppsLoop_step[OF p(1) _ i, of rest errs rootCmd] False
      by (simp add: p2_def errs2_def s2_def)
    have o: "onlyError p p2" by (simp add: p2_def linkOne_only)
    have v2: "validApps (heap s2) rest"
      using validApps_upd_other[OF d(2) v] by (simp add: s2_def)
    from Cons.IH[OF d(1) v2, of errs2 "fst (linkOne rootCmd p i)"] obtain root' s' where
      r: "linkAppsLoop rest errs2 (fst (linkOne rootCmd p i)) s2 = Some (errs2 @ failedIn (heap s') rest, root', s')"
      "apps s' = apps s2" "wld s' = (wld s2)\<lparr>trace := trace (wld s2) @ manifestCalls (heap s2) rest\<rparr>"
      "\<forall>b. b \<notin> set rest \<longrightarrow> heap s' b = heap s2 b"
      "\<forall>b\<in>set rest. \<forall>q. heap s2 b = Some q \<longrightarrow>
            (\<exists>q'. heap s' b = Some q' \<and> onlyError q q' \<and> (Error q \<noteq> None \<longrightarrow> q' = q))"
      by blast
    have ha: "heap s' a = Some p2" using r(4) d(2) by (simp add: s2_def)
    have f: "errs2 @ failedIn (heap s') rest = errs @ failedIn (heap s') (a # rest)"
      using ha by (simp add: failedIn_def errs2_def)
    have m0: "manifestCalls (heap s2) rest = manifestCalls (heap s) rest"
      using d(2) by (simp add: manifestCalls_def s2_def map_filter_upd_other)
    have m: "manifestCalls (heap s) (a # rest) = EvManifest (Path p) # manifestCalls (heap s) rest"
      using p(1) False by (simp add: manifestCalls_def map_filter_Cons_Some)
    have w: "wld s' = (wld s)\<lparr>trace := trace (wld s) @ manifestCalls (heap s) (a # rest)\<rparr>"
    proof -
      have "wld s' = (wld s2)\<lparr>trace := trace (wld s2) @ manifestCalls (heap s) rest\<rparr>"
        using r(3) m0 by simp
      then show ?thesis by (simp add: m s2_def emit_def)
    qed
    have "linkAppsLoop (a # rest) errs rootCmd s = Some (errs @ failedIn (heap s') (a # rest), root', s')"
      using st r(1) f by simp
    moreover have "apps s' = apps s" using r(2) by (simp add: s2_def)
    moreover have "\<forall>b. b \<notin> set (a # rest) \<longrightarrow> heap s' b = heap s b" using r(4) by (simp add: s2_def)
    moreover have "\<forall>b\<in>set (a # rest). \<forall>q. heap s b = Some q \<longrightarrow>
            (\<exists>q'. heap s' b = Some q' \<and> onlyError q q' \<and> (Error q \<noteq> None \<longrightarrow> q' = q))"
    proof (intro ballI allI impI)
      fix b q assume b: "b \<in> set (a # rest)" and q: "heap s b = Some q"
      show "\<exists>q'. heap s' b = Some q' \<and> onlyError q q' \<and> (Error q \<noteq> None \<longrightarrow> q' = q)"
      proof (cases "b = a")
        case True
        then show ?thesis using ha o p(1) q False by auto
      next
        case ne: False
        then have "b \<in> set rest" "heap s2 b = Some q" using b q by (simp_all add: s2_def)
        then show ?thesis using r(5) by blast
      qed
    qed
    ultimately show ?thesis using w by blast
  qed
qed

lemma KillClient_app: "fst (KillClient E p w) = p\<lparr>isHost := False\<rparr>"
  by (auto simp: KillClient_def Let_def)








section \<open>Loading: the manifest\<close>

lemma load_by_handshake:
  "load E p w = (case load_handshake E p w of Inl r \<Rightarrow> r | Inr (m, p2, w2) \<Rightarrow> load_publish E m p2 w2)"
  by (simp add: load_def load_handshake_def split: prod.splits sum.splits)

text \<open>What the fetch and build part of \<open>load\<close> leaves untouched.\<close>

lemma fetch_frame:
  "fetch E p w = (p', w') \<Longrightarrow>
     Path p' = Path p \<and> name p' = name p \<and> isHost p' = isHost p \<and> client p' = client p
     \<and> storageCache w' = storageCache w \<and> exited w' = exited w
     \<and> (\<exists>es. trace w' = trace w @ es \<and> (\<forall>e\<in>set es. \<not> isManifestCall e))"
  by (auto simp: fetch_def Let_def emit_def split: if_splits option.splits)

lemma build_frame:
  "build E p w = (p', w') \<Longrightarrow>
     Path p' = Path p \<and> name p' = name p \<and> isHost p' = isHost p \<and> client p' = client p
     \<and> storageCache w' = storageCache w \<and> exited w' = exited w
     \<and> (\<exists>es. trace w' = trace w @ es \<and> (\<forall>e\<in>set es. \<not> isManifestCall e))"
  by (auto simp: build_def Let_def emit_def split: if_splits option.splits)

lemma outdatedBinary_frame:
  "outdatedBinary E p w = (b, w') \<Longrightarrow>
     storageCache w' = storageCache w \<and> exited w' = exited w
     \<and> (\<exists>es. trace w' = trace w @ es \<and> (\<forall>e\<in>set es. \<not> isManifestCall e))"
  by (auto simp: outdatedBinary_def emit_def split: sum.splits prod.splits)

lemma load_build_frame:
  assumes "load_build E p w = (p', w')"
  shows "Path p' = Path p \<and> name p' = name p \<and> isHost p' = isHost p \<and> client p' = client p
     \<and> storageCache w' = storageCache w \<and> exited w' = exited w
     \<and> (\<exists>es. trace w' = trace w @ es \<and> (\<forall>e\<in>set es. \<not> isManifestCall e))"
proof -
  obtain p1 w1 where f: "(if statErr E (srcPath p) \<noteq> None then fetch E p w else (p, w)) = (p1, w1)"
    by (cases "if statErr E (srcPath p) \<noteq> None then fetch E p w else (p, w)")
  have F: "Path p1 = Path p \<and> name p1 = name p \<and> isHost p1 = isHost p \<and> client p1 = client p
     \<and> storageCache w1 = storageCache w \<and> exited w1 = exited w
     \<and> (\<exists>es. trace w1 = trace w @ es \<and> (\<forall>e\<in>set es. \<not> isManifestCall e))"
    using f fetch_frame[of E p w p1 w1] by (auto split: if_splits)
  obtain b w2 where o: "outdatedBinary E p1 w1 = (b, w2)" by (cases "outdatedBinary E p1 w1")
  note O = outdatedBinary_frame[OF o]
  obtain p3 w3 where b2: "build E p1 w2 = (p3, w3)" by (cases "build E p1 w2")
  note B2 = build_frame[OF b2]
  obtain p4 w4 where b1: "build E p1 w1 = (p4, w4)" by (cases "build E p1 w1")
  note B1 = build_frame[OF b1]
  have cases: "(p', w') = (p1, w1) \<or> (p', w') = (p3, w3) \<or> (p', w') = (p1, w2) \<or> (p', w') = (p4, w4)"
    using assms f o b2 b1 unfolding load_build_def by (auto split: if_splits)
  then show ?thesis
  proof (elim disjE)
    assume "(p', w') = (p1, w1)" then show ?thesis using F by simp
  next
    assume "(p', w') = (p3, w3)" then show ?thesis using F O B2 by auto
  next
    assume "(p', w') = (p1, w2)" then show ?thesis using F O by auto
  next
    assume "(p', w') = (p4, w4)" then show ?thesis using F B1 by auto
  qed
qed


lemma checkConfCache_cong:
  "storageCache w' = storageCache w \<Longrightarrow> checkConfCache E path w' = checkConfCache E path w"
  by (simp add: checkConfCache_def split: option.splits)

lemma load_dial_Inr:
  assumes "load_dial E c p w = Inr (m, p2, w2)"
  shows "\<exists>i. dispense E (name p) = Inr i \<and> RpcManifest i = Inr m
      \<and> p2 = p\<lparr>client := Some (c\<lparr>Started := Some (case Reattach c of Some rconf \<Rightarrow> rconf | None \<Rightarrow> launched E)\<rparr>),
                Interface := Some i\<rparr>
      \<and> w2 = emit (EvManifest (Path p)) (emit (EvConnect (Path p)) w)"
  using assms
  by (auto simp: load_dial_def Let_def split: option.splits sum.splits)

lemma load_dial_Inl:
  assumes "load_dial E c p w = Inl (p2, w2)"
  shows "Error p2 \<noteq> None \<and> isHost p2 = isHost p \<and> Path p2 = Path p
      \<and> storageCache w2 = storageCache w \<and> exited w2 = exited w
      \<and> (\<exists>es. trace w2 = trace w @ es \<and> length (filter isManifestCall es) \<le> 1)"
  using assms
  by (auto simp: load_dial_def Let_def emit_def split: option.splits sum.splits)

lemma load_connect_Inr:
  assumes "load_connect E p w = Inr (m, p2, w2)"
  shows "\<exists>i c. dispense E (name p) = Inr i \<and> RpcManifest i = Inr m
      \<and> p2 = p\<lparr>client := Some c, Interface := Some i\<rparr>
      \<and> (checkConfCache E (Path p) w \<longrightarrow> (\<exists>rconf. storageCache w (Path p) = Some rconf \<and> Started c = Some rconf))
      \<and> (\<not> checkConfCache E (Path p) w \<longrightarrow> Started c = Some (launched E))
      \<and> w2 = emit (EvManifest (Path p)) (emit (EvConnect (Path p)) w)"
proof (cases "checkConfCache E (Path p) w")
  case True
  then obtain rconf where r: "readConfigCache E (Path p) w = Inr rconf" "storageCache w (Path p) = Some rconf"
    by (auto simp: checkConfCache_def readConfigCache_def split: if_splits option.splits)
  then have "load_dial E \<lparr>Reattach = Some rconf, Cmd = None, Started = None\<rparr> p w = Inr (m, p2, w2)"
    using assms True by (simp add: load_connect_def)
  from load_dial_Inr[OF this] obtain i where
    i: "dispense E (name p) = Inr i" "RpcManifest i = Inr m"
       "p2 = p\<lparr>client := Some \<lparr>Reattach = Some rconf, Cmd = None, Started = Some rconf\<rparr>, Interface := Some i\<rparr>"
       "w2 = emit (EvManifest (Path p)) (emit (EvConnect (Path p)) w)"
    by auto
  show ?thesis
    using i True r(2)
    by (intro exI[of _ i] exI[of _ "\<lparr>Reattach = Some rconf, Cmd = None, Started = Some rconf\<rparr>"]) simp
next
  case False
  then have "load_dial E \<lparr>Reattach = None, Cmd = Some (binaryPath p), Started = None\<rparr> p w = Inr (m, p2, w2)"
    using assms by (simp add: load_connect_def)
  from load_dial_Inr[OF this] obtain i where
    i: "dispense E (name p) = Inr i" "RpcManifest i = Inr m"
       "p2 = p\<lparr>client := Some \<lparr>Reattach = None, Cmd = Some (binaryPath p), Started = Some (launched E)\<rparr>, Interface := Some i\<rparr>"
       "w2 = emit (EvManifest (Path p)) (emit (EvConnect (Path p)) w)"
    by auto
  show ?thesis
    using i False
    by (intro exI[of _ i] exI[of _ "\<lparr>Reattach = None, Cmd = Some (binaryPath p), Started = Some (launched E)\<rparr>"]) simp
qed

lemma load_connect_Inl:
  assumes "load_connect E p w = Inl (p2, w2)"
  shows "Error p2 \<noteq> None \<and> isHost p2 = isHost p \<and> Path p2 = Path p
      \<and> storageCache w2 = storageCache w \<and> exited w2 = exited w
      \<and> (\<exists>es. trace w2 = trace w @ es \<and> length (filter isManifestCall es) \<le> 1)"
proof (cases "checkConfCache E (Path p) w")
  case True
  show ?thesis
  proof (cases "readConfigCache E (Path p) w")
    case (Inl err)
    then show ?thesis using assms True by (auto simp: load_connect_def)
  next
    case (Inr rconf)
    then have "load_dial E \<lparr>Reattach = Some rconf, Cmd = None, Started = None\<rparr> p w = Inl (p2, w2)"
      using assms True by (simp add: load_connect_def)
    from load_dial_Inl[OF this] show ?thesis .
  qed
next
  case False
  then have "load_dial E \<lparr>Reattach = None, Cmd = Some (binaryPath p), Started = None\<rparr> p w = Inl (p2, w2)"
    using assms by (simp add: load_connect_def)
  from load_dial_Inl[OF this] show ?thesis .
qed

lemma load_handshake_Inr:
  assumes "load_handshake E p w = Inr (m, p2, w2)"
  shows "Error p = None \<and> Error p2 = None \<and> Path p2 = Path p \<and> isHost p2 = isHost p
      \<and> storageCache w2 = storageCache w \<and> exited w2 = exited w
      \<and> (\<exists>i c. dispense E (name p) = Inr i \<and> RpcManifest i = Inr m \<and> Interface p2 = Some i
            \<and> client p2 = Some c
            \<and> (checkConfCache E (Path p) w \<longrightarrow> (\<exists>rconf. storageCache w (Path p) = Some rconf \<and> Started c = Some rconf))
            \<and> (\<not> checkConfCache E (Path p) w \<longrightarrow> Started c = Some (launched E)))
      \<and> (\<exists>es. trace w2 = trace w @ es \<and> length (filter isManifestCall es) = 1)"
proof -
  have e: "Error p = None" using assms by (auto simp: load_handshake_def split: if_splits)
  obtain p1 w1 where b: "load_build E p w = (p1, w1)" by (cases "load_build E p w")
  note B = load_build_frame[OF b]
  have e1: "Error p1 = None" and c: "load_connect E p1 w1 = Inr (m, p2, w2)"
    using assms e b by (auto simp: load_handshake_def split: if_splits)
  from load_connect_Inr[OF c] obtain i cl where
    C: "dispense E (name p1) = Inr i" "RpcManifest i = Inr m" "p2 = p1\<lparr>client := Some cl, Interface := Some i\<rparr>"
    "checkConfCache E (Path p1) w1 \<longrightarrow> (\<exists>rconf. storageCache w1 (Path p1) = Some rconf \<and> Started cl = Some rconf)"
    "\<not> checkConfCache E (Path p1) w1 \<longrightarrow> Started cl = Some (launched E)"
    "w2 = emit (EvManifest (Path p1)) (emit (EvConnect (Path p1)) w1)"
    by blast
  from B obtain es where es: "trace w1 = trace w @ es" "\<forall>e\<in>set es. \<not> isManifestCall e" by blast
  have ch: "checkConfCache E (Path p1) w1 = checkConfCache E (Path p) w"
    using B checkConfCache_cong[of w1 w E "Path p"] by simp
  have t: "trace w2 = trace w @ (es @ [EvConnect (Path p1), EvManifest (Path p1)])"
    using C(6) es(1) by (simp add: emit_def)
  have n: "length (filter isManifestCall (es @ [EvConnect (Path p1), EvManifest (Path p1)])) = 1"
    using es(2) by (simp add: filter_empty_conv)
  have "\<exists>i c. dispense E (name p) = Inr i \<and> RpcManifest i = Inr m \<and> Interface p2 = Some i
            \<and> client p2 = Some c
            \<and> (checkConfCache E (Path p) w \<longrightarrow> (\<exists>rconf. storageCache w (Path p) = Some rconf \<and> Started c = Some rconf))
            \<and> (\<not> checkConfCache E (Path p) w \<longrightarrow> Started c = Some (launched E))"
    using C(1,2,3,4,5) B ch by (intro exI[of _ i] exI[of _ cl]) auto
  moreover have "\<exists>es. trace w2 = trace w @ es \<and> length (filter isManifestCall es) = 1"
    using t n by blast
  moreover have "Error p2 = None \<and> Path p2 = Path p \<and> isHost p2 = isHost p
      \<and> storageCache w2 = storageCache w \<and> exited w2 = exited w"
    using C(3,6) B e1 by (simp add: emit_def)
  ultimately show ?thesis using e by blast
qed

lemma load_handshake_Inl:
  assumes "load_handshake E p w = Inl (p', w')"
  shows "Error p' \<noteq> None \<and> isHost p' = isHost p \<and> Path p' = Path p
      \<and> storageCache w' = storageCache w \<and> exited w' = exited w
      \<and> (\<exists>es. trace w' = trace w @ es \<and> length (filter isManifestCall es) \<le> 1)"
proof (cases "Error p \<noteq> None")
  case True
  then show ?thesis using assms by (auto simp: load_handshake_def)
next
  case False
  obtain p1 w1 where b: "load_build E p w = (p1, w1)" by (cases "load_build E p w")
  note B = load_build_frame[OF b]
  from B obtain es where es: "trace w1 = trace w @ es" "\<forall>e\<in>set es. \<not> isManifestCall e" by blast
  have z: "filter isManifestCall es = []" using es(2) by (simp add: filter_empty_conv)
  show ?thesis
  proof (cases "Error p1 \<noteq> None")
    case True
    then have "p' = p1" "w' = w1" using assms False b by (auto simp: load_handshake_def)
    then show ?thesis using True B es z by auto
  next
    case e1: False
    then have "load_connect E p1 w1 = Inl (p', w')"
      using assms False b by (auto simp: load_handshake_def)
    from load_connect_Inl[OF this] obtain es' where
      C: "Error p' \<noteq> None" "isHost p' = isHost p1" "Path p' = Path p1"
      "storageCache w' = storageCache w1" "exited w' = exited w1"
      "trace w' = trace w1 @ es'" "length (filter isManifestCall es') \<le> 1"
      by blast
    have "trace w' = trace w @ (es @ es')" using C(6) es(1) by simp
    moreover have "length (filter isManifestCall (es @ es')) \<le> 1" using z C(7) by simp
    ultimately have "\<exists>es. trace w' = trace w @ es \<and> length (filter isManifestCall es) \<le> 1" by blast
    then show ?thesis using C B by auto
  qed
qed

lemma load_publish_frame:
  "trace (snd (load_publish E m p w)) = trace w \<and> exited (snd (load_publish E m p w)) = exited w
   \<and> manifest (fst (load_publish E m p w)) = Some m \<and> Interface (fst (load_publish E m p w)) = Interface p
   \<and> Path (fst (load_publish E m p w)) = Path p \<and> client (fst (load_publish E m p w)) = client p
   \<and> isSharedHost (fst (load_publish E m p w)) = SharedHost m"
  by (auto simp: load_publish_def Let_def writeConfigCache_def split: option.splits prod.splits)


lemma manifestCount_append: "trace w' = trace w @ es \<Longrightarrow> manifestCount w w' = length (filter isManifestCall es)"
  by (simp add: manifestCount_def)

lemma local_fields: "Path localApp = ''/local/app''" "name localApp = ''app''"
  by (simp_all add: localApp_def app0_def)

lemma load_plugin: "load envPlugin localApp world0 = (loadedApp, loadedWorld)"
proof -
  have l: "IsLocalPath localApp" and e: "Error localApp = None"
    by (simp_all add: IsLocalPath_def localApp_def app0_def HasPrefix_def)
  have o: "outdatedBinary envPlugin localApp world0 = (False, world0)"
    by (simp add: outdatedBinary_def envPlugin_def env0_def)
  have b: "load_build envPlugin localApp world0 = (localApp, world0)"
    by (simp add: load_build_local[OF l e] o)
  have c: "load_connect envPlugin localApp world0
      = Inr (emptyManifest, localApp\<lparr>client := Some \<lparr>Reattach = None, Cmd = Some ''/local/app/app.ign'', Started = Some rc1\<rparr>,
               Interface := Some (ifaceOk emptyManifest)\<rparr>, loadedWorld)"
    by (simp add: load_connect_def checkConfCache_def load_dial_def Let_def envPlugin_def env0_def
        world0_def binaryPath_localApp local_fields ifaceOk_def rc1_def emit_def loadedWorld_def)
  have p: "load_publish envPlugin emptyManifest
        (localApp\<lparr>client := Some \<lparr>Reattach = None, Cmd = Some ''/local/app/app.ign'', Started = Some rc1\<rparr>,
               Interface := Some (ifaceOk emptyManifest)\<rparr>) loadedWorld = (loadedApp, loadedWorld)"
    by (simp add: load_publish_def Let_def emptyManifest_def loadedApp_def localApp_def app0_def)
  show ?thesis by (simp add: load_def e b c p)
qed

lemma loaded_fields:
  "Error loadedApp = None" "Interface loadedApp = Some (ifaceOk emptyManifest)"
  "Path loadedApp = ''/local/app''" "manifest loadedApp = Some emptyManifest"
  by (simp_all add: loadedApp_def localApp_def app0_def)

lemma linkOne_loaded: "linkOne rootCmd loadedApp (ifaceOk emptyManifest) = (rootCmd, loadedApp)"
  by (simp add: linkOne_def ifaceOk_def emptyManifest_def linkAppHooks_def linkAppCmds_def loaded_fields)

lemma loaded_loop:
  "linkAppsLoop [0] [] rootCmd loadedState
     = Some ([], rootCmd, loadedState\<lparr>wld := emit (EvManifest ''/local/app'') loadedWorld\<rparr>)"
proof -
  have h: "heap loadedState 0 = Some loadedApp" by (simp add: loadedState_def)
  have "linkAppsLoop [0] [] rootCmd loadedState = linkAppsLoop [] [] rootCmd
      (loadedState\<lparr>wld := emit (EvManifest ''/local/app'') (wld loadedState),
                    heap := (heap loadedState)(0 \<mapsto> loadedApp)\<rparr>)"
    using linkAppsLoop_step[OF h loaded_fields(1) loaded_fields(2), of "[]" "[]" rootCmd]
    by (simp add: linkOne_loaded loaded_fields)
  also have "\<dots> = Some ([], rootCmd, loadedState\<lparr>wld := emit (EvManifest ''/local/app'') loadedWorld\<rparr>)"
    by (simp add: loadedState_def)
  finally show ?thesis .
qed

text \<open>
  C3, as stated, fails: the local app is loaded, which calls \<open>Manifest\<close> once and caches
  the answer in the App value; \<open>linkApps\<close> on the loaded app then calls \<open>Manifest\<close> over
  the interface a second time.
\<close>

theorem linking_calls_Manifest_again_counterexample:
  "load envPlugin localApp world0 = (loadedApp, loadedWorld)
   \<and> manifest loadedApp = Some emptyManifest
   \<and> trace loadedWorld = [EvConnect ''/local/app'', EvManifest ''/local/app'']
   \<and> linkOutcome (linkApps envPlugin (legacyTree None failingBody) [0] loadedState)
       = Some (None, {}, [EvConnect ''/local/app'', EvManifest ''/local/app'', EvManifest ''/local/app''])"
proof -
  have "linkOutcome (linkApps envPlugin (legacyTree None failingBody) [0] loadedState)
       = Some (None, {}, [EvConnect ''/local/app'', EvManifest ''/local/app'', EvManifest ''/local/app''])"
    unfolding linkApps_def loaded_loop
    by (simp add: linkOutcome_def loadedState_def loadedWorld_def world0_def emit_def)
  then show ?thesis
    using load_plugin loaded_fields(4) by (simp add: loadedWorld_def world0_def)
qed

text \<open>
  C3, amended. \<open>load\<close> calls \<open>Manifest\<close> over the interface at most once, and exactly
  once when it ends without error; the answer is then cached in the App value. The loop
  of \<open>linkApps\<close> calls \<open>Manifest\<close> over the interface again, once for every app it is
  given that has no error, and so does \<open>getAppStatus\<close> for an app without error.
\<close>

theorem Manifest_calls:
  "(load E p w = (p', w') \<longrightarrow>
      manifestCount w w' \<le> 1
      \<and> (Error p' = None \<longrightarrow>
            manifestCount w w' = 1
          \<and> (\<exists>i m. Interface p' = Some i \<and> RpcManifest i = Inr m \<and> manifest p' = Some m)))
   \<and> (distinct ps \<and> validApps (heap s) ps \<longrightarrow>
        (\<exists>errs root' s'. linkAppsLoop ps [] rootCmd s = Some (errs, root', s')
           \<and> trace (wld s') = trace (wld s) @ manifestCalls (heap s) ps))
   \<and> (Error q = None \<and> Interface q \<noteq> None \<longrightarrow>
        (\<exists>st. getAppStatus E q v = Some (st, emit (EvManifest (Path q)) v)))"
proof -
  have A: "manifestCount w w' \<le> 1" if l: "load E p w = (p', w')"
  proof (cases "load_handshake E p w")
    case (Inl r)
    then have r: "r = (p', w')" using l by (simp add: load_by_handshake)
    from load_handshake_Inl[OF Inl[unfolded r]] obtain es where
      "trace w' = trace w @ es" "length (filter isManifestCall es) \<le> 1" by blast
    then show ?thesis by (simp add: manifestCount_append)
  next
    case (Inr r)
    obtain m p2 w2 where r: "r = (m, p2, w2)" by (cases r)
    from load_handshake_Inr[OF Inr[unfolded r]] obtain es where
      es: "trace w2 = trace w @ es" "length (filter isManifestCall es) = 1" by blast
    have "w' = snd (load_publish E m p2 w2)" using l Inr r by (simp add: load_by_handshake)
    then have "trace w' = trace w @ es" using es(1) load_publish_frame[of E m p2 w2] by simp
    then show ?thesis using es(2) by (simp add: manifestCount_append)
  qed
  have B: "manifestCount w w' = 1
      \<and> (\<exists>i m. Interface p' = Some i \<and> RpcManifest i = Inr m \<and> manifest p' = Some m)"
    if l: "load E p w = (p', w')" and e: "Error p' = None"
  proof (cases "load_handshake E p w")
    case (Inl r)
    then have r: "r = (p', w')" using l by (simp add: load_by_handshake)
    from load_handshake_Inl[OF Inl[unfolded r]] e show ?thesis by simp
  next
    case (Inr r)
    obtain m p2 w2 where r: "r = (m, p2, w2)" by (cases r)
    from load_handshake_Inr[OF Inr[unfolded r]] obtain es i where
      es: "trace w2 = trace w @ es" "length (filter isManifestCall es) = 1"
      and i: "Interface p2 = Some i" "RpcManifest i = Inr m" by blast
    have pw: "p' = fst (load_publish E m p2 w2)" "w' = snd (load_publish E m p2 w2)"
      using l Inr r by (simp_all add: load_by_handshake)
    have "trace w' = trace w @ es" using es(1) pw(2) load_publish_frame[of E m p2 w2] by simp
    then have "manifestCount w w' = 1" using es(2) by (simp add: manifestCount_append)
    moreover have "Interface p' = Some i \<and> RpcManifest i = Inr m \<and> manifest p' = Some m"
      using i pw(1) load_publish_frame[of E m p2 w2] by simp
    ultimately show ?thesis by blast
  qed
  have C: "\<exists>errs root' s'. linkAppsLoop ps [] rootCmd s = Some (errs, root', s')
           \<and> trace (wld s') = trace (wld s) @ manifestCalls (heap s) ps"
    if a: "distinct ps \<and> validApps (heap s) ps"
  proof -
    from linkAppsLoop_result[of ps s "[]" rootCmd] a obtain root' s' where
      "linkAppsLoop ps [] rootCmd s = Some ([] @ failedIn (heap s') ps, root', s')"
      "wld s' = (wld s)\<lparr>trace := trace (wld s) @ manifestCalls (heap s) ps\<rparr>"
      by blast
    then show ?thesis by simp
  qed
  have D: "\<exists>st. getAppStatus E q v = Some (st, emit (EvManifest (Path q)) v)"
    if "Error q = None \<and> Interface q \<noteq> None"
    using that by (auto simp: getAppStatus_def Let_def split: sum.splits)
  show ?thesis using A B C D by blast
qed

theorem Manifest_calls_witness:
  "load envPlugin localApp world0 = (loadedApp, loadedWorld)
   \<and> Error loadedApp = None \<and> Interface loadedApp \<noteq> None
   \<and> distinct [0::nat] \<and> validApps (heap loadedState) [0]
   \<and> manifestCount world0 loadedWorld = 1
   \<and> manifest loadedApp = Some emptyManifest
   \<and> manifestCalls (heap loadedState) [0] = [EvManifest ''/local/app'']
   \<and> (\<exists>errs root' s'. linkAppsLoop [0] [] (legacyTree None failingBody) loadedState = Some (errs, root', s')
         \<and> trace (wld s') = trace loadedWorld @ [EvManifest ''/local/app''])
   \<and> (\<exists>st. getAppStatus envPlugin loadedApp loadedWorld
              = Some (st, emit (EvManifest ''/local/app'') loadedWorld))"
proof -
  note T = Manifest_calls[of envPlugin localApp world0 loadedApp loadedWorld "[0]" loadedState
      "legacyTree None failingBody" loadedApp loadedWorld]
  have v: "validApps (heap loadedState) [0]"
    by (simp add: validApps_def loadedState_def loaded_fields)
  have c: "manifestCalls (heap loadedState) [0] = [EvManifest ''/local/app'']"
    by (simp add: manifestCalls_def List.map_filter_def loadedState_def loaded_fields)
  have w: "wld loadedState = loadedWorld" by (simp add: loadedState_def)
  have 1: "manifestCount world0 loadedWorld = 1"
    using T load_plugin loaded_fields(1) by blast
  have 2: "\<exists>errs root' s'. linkAppsLoop [0] [] (legacyTree None failingBody) loadedState = Some (errs, root', s')
         \<and> trace (wld s') = trace loadedWorld @ [EvManifest ''/local/app'']"
    using T v c w by simp
  have 3: "\<exists>st. getAppStatus envPlugin loadedApp loadedWorld
              = Some (st, emit (EvManifest ''/local/app'') loadedWorld)"
    using T loaded_fields by simp
  show ?thesis using load_plugin loaded_fields v c 1 2 3 by simp
qed

section \<open>Loading: the shared host\<close>

lemma checkConfCache_iff:
  "checkConfCache E path w = (path \<noteq> [] \<and> newCacheErr E = None \<and> storageCache w path \<noteq> None)"
  by (simp add: checkConfCache_def split: option.splits)

lemma load_host_facts:
  assumes l: "load E p w = (p', w')" and nh: "\<not> isHost p"
  shows "Path p' = Path p"
    and "isHost p' \<longleftrightarrow> handshakeShared E p w \<and> Path p \<noteq> [] \<and> newCacheErr E = None
            \<and> storageCache w (Path p) = None \<and> Addr (launched E) \<noteq> None"
    and "isHost p' \<longrightarrow> Error p' = None \<and> clientReattachConfig p' = launched E
            \<and> storageCache w' = (storageCache w)(Path p \<mapsto> launched E)"
    and "\<not> isHost p' \<longrightarrow> storageCache w' = storageCache w"
    and "handshakeShared E p w \<and> \<not> checkConfCache E (Path p) w \<and> \<not> isHost p' \<longrightarrow> Error p' \<noteq> None"
proof -
  have "Path p' = Path p
    \<and> (isHost p' \<longleftrightarrow> handshakeShared E p w \<and> Path p \<noteq> [] \<and> newCacheErr E = None
            \<and> storageCache w (Path p) = None \<and> Addr (launched E) \<noteq> None)
    \<and> (isHost p' \<longrightarrow> Error p' = None \<and> clientReattachConfig p' = launched E
            \<and> storageCache w' = (storageCache w)(Path p \<mapsto> launched E))
    \<and> (\<not> isHost p' \<longrightarrow> storageCache w' = storageCache w)
    \<and> (handshakeShared E p w \<and> \<not> checkConfCache E (Path p) w \<and> \<not> isHost p' \<longrightarrow> Error p' \<noteq> None)"
  proof (cases "load_handshake E p w")
    case (Inl r)
    then have r: "r = (p', w')" using l by (simp add: load_by_handshake)
    from load_handshake_Inl[OF Inl[unfolded r]] nh show ?thesis
      by (simp add: handshakeShared_def Inl)
  next
    case (Inr r)
    obtain m p2 w2 where r: "r = (m, p2, w2)" by (cases r)
    from load_handshake_Inr[OF Inr[unfolded r]] obtain i c where
      H: "Error p2 = None" "Path p2 = Path p" "isHost p2 = isHost p" "storageCache w2 = storageCache w"
         "client p2 = Some c"
         "checkConfCache E (Path p) w \<longrightarrow> (\<exists>rconf. storageCache w (Path p) = Some rconf \<and> Started c = Some rconf)"
         "\<not> checkConfCache E (Path p) w \<longrightarrow> Started c = Some (launched E)"
      by blast
    have hs: "handshakeShared E p w = SharedHost m" by (simp add: handshakeShared_def Inr r)
    have ch: "checkConfCache E (Path p) w2 = checkConfCache E (Path p) w"
      using checkConfCache_cong[OF H(4)] .
    have pw: "load_publish E m p2 w2 = (p', w')" using l Inr r by (simp add: load_by_handshake)
    show ?thesis
    proof (cases "SharedHost m \<and> \<not> checkConfCache E (Path p) w")
      case False
      then have "p' = p2\<lparr>isSharedHost := SharedHost m, manifest := Some m\<rparr>" "w' = w2"
        using pw ch H(2) by (auto simp: load_publish_def Let_def)
      then show ?thesis using False H nh hs by (auto simp: checkConfCache_iff)
    next
      case True
      then have st: "Started c = Some (launched E)" using H(7) by simp
      have rc: "clientReattachConfig (p2\<lparr>isSharedHost := SharedHost m, manifest := Some m\<rparr>) = launched E"
        using H(5) st by (simp add: clientReattachConfig_def)
      show ?thesis
      proof (cases "Path p \<noteq> [] \<and> newCacheErr E = None \<and> Addr (launched E) \<noteq> None")
        case ok: True
        then have n: "storageCache w (Path p) = None" using True by (simp add: checkConfCache_iff)
        have "p' = p2\<lparr>isSharedHost := SharedHost m, manifest := Some m, isHost := True\<rparr>"
          "w' = w2\<lparr>storageCache := (storageCache w2)(Path p \<mapsto> launched E)\<rparr>"
          using pw True ch H(2) rc ok
          by (auto simp: load_publish_def Let_def writeConfigCache_def)
        then show ?thesis using ok n hs True H st by (simp add: clientReattachConfig_def)
      next
        case bad: False
        then have "\<exists>err. writeConfigCache E (Path p) (launched E) w2 = (Some err, w2)"
          by (auto simp: writeConfigCache_def split: option.splits)
        then obtain err where wr: "writeConfigCache E (Path p) (launched E) w2 = (Some err, w2)"
          by blast
        have "p' = p2\<lparr>isSharedHost := SharedHost m, manifest := Some m, Error := Some err\<rparr>" "w' = w2"
          using pw True ch H(2) rc wr
          by (auto simp: load_publish_def Let_def)
        then show ?thesis using bad hs True H nh by auto
      qed
    qed
  qed
  then show "Path p' = Path p"
    and "isHost p' \<longleftrightarrow> handshakeShared E p w \<and> Path p \<noteq> [] \<and> newCacheErr E = None
            \<and> storageCache w (Path p) = None \<and> Addr (launched E) \<noteq> None"
    and "isHost p' \<longrightarrow> Error p' = None \<and> clientReattachConfig p' = launched E
            \<and> storageCache w' = (storageCache w)(Path p \<mapsto> launched E)"
    and "\<not> isHost p' \<longrightarrow> storageCache w' = storageCache w"
    and "handshakeShared E p w \<and> \<not> checkConfCache E (Path p) w \<and> \<not> isHost p' \<longrightarrow> Error p' \<noteq> None"
    by blast+
qed

lemma newApp_not_host: "\<not> isHost (newApp E appsDir cp)"
  by (simp add: newApp_def Let_def split: option.splits prod.splits)

lemma KillClient_cache:
  "storageCache (snd (KillClient E p w)) =
     (if isHost p \<and> Path p \<noteq> [] \<and> newCacheErr E = None then (storageCache w)(Path p := None)
      else storageCache w)"
  by (auto simp: KillClient_def Let_def Kill_def deleteConfCache_def split: option.splits)

lemma hostsOk_load:
  assumes ok: "hostsOk s" and nh: "\<not> isHost p" and l: "load E p (sw s) = (p', w')"
  shows "hostsOk \<lparr>insts = insts s @ [p'], sw = w'\<rparr>"
proof -
  note F = load_host_facts[OF l nh]
  let ?n = "length (insts s)"
  have old: "Path q \<noteq> [] \<and> storageCache (sw s) (Path q) = Some (clientReattachConfig q)"
    if "q \<in> set (insts s)" "isHost q" for q
    using ok that by (auto simp: hostsOk_def in_set_conv_nth)
  have uniq: "j = i" if "i < ?n" "j < ?n" "isHost (insts s ! i)" "isHost (insts s ! j)"
      "Path (insts s ! j) = Path (insts s ! i)" for i j
    using ok that by (auto simp: hostsOk_def)
  have fresh: "Path q \<noteq> Path p" if "isHost p'" "q \<in> set (insts s)" "isHost q" for q
    using F(2) old[OF that(2,3)] that(1) by auto
  have keep: "storageCache w' (Path q) = storageCache (sw s) (Path q)" if "q \<in> set (insts s)" "isHost q" for q
  proof (cases "isHost p'")
    case True
    then show ?thesis using F(3) fresh[OF True that] by simp
  next
    case False
    then show ?thesis using F(4) by simp
  qed
  show ?thesis
    unfolding hostsOk_def
  proof (intro ballI impI)
    fix i assume i: "i \<in> {..<length (insts \<lparr>insts = insts s @ [p'], sw = w'\<rparr>)}"
      and h: "isHost (insts \<lparr>insts = insts s @ [p'], sw = w'\<rparr> ! i)"
    let ?xs = "insts s @ [p']"
    have il: "i < Suc ?n" using i by simp
    have A: "Path (?xs ! i) \<noteq> [] \<and> storageCache w' (Path (?xs ! i)) = Some (clientReattachConfig (?xs ! i))"
    proof (cases "i < ?n")
      case True
      then have q: "?xs ! i = insts s ! i" "insts s ! i \<in> set (insts s)" by (simp_all add: nth_append)
      then show ?thesis using old[OF q(2)] keep[OF q(2)] h by simp
    next
      case False
      then have q: "?xs ! i = p'" using il by (simp add: nth_append)
      then show ?thesis using h F by simp
    qed
    have B: "j = i" if j: "j < Suc ?n" and hj: "isHost (?xs ! j)" and pj: "Path (?xs ! j) = Path (?xs ! i)" for j
    proof (cases "i < ?n")
      case True
      then have qi: "?xs ! i = insts s ! i" "insts s ! i \<in> set (insts s)" by (simp_all add: nth_append)
      show ?thesis
      proof (cases "j < ?n")
        case jt: True
        then have "?xs ! j = insts s ! j" by (simp add: nth_append)
        then show ?thesis using uniq[OF True jt] h hj pj qi by simp
      next
        case False
        then have "?xs ! j = p'" using j by (simp add: nth_append)
        then show ?thesis using fresh[OF _ qi(2)] h hj pj qi(1) F(1) by simp
      qed
    next
      case False
      then have qi: "?xs ! i = p'" "i = ?n" using il by (simp_all add: nth_append)
      show ?thesis
      proof (cases "j < ?n")
        case jt: True
        then have "?xs ! j = insts s ! j" "insts s ! j \<in> set (insts s)" by (simp_all add: nth_append)
        then show ?thesis using fresh[of "insts s ! j"] h hj pj qi(1) F(1) by simp
      next
        case False
        then show ?thesis using j qi(2) by simp
      qed
    qed
    show "Path (insts \<lparr>insts = insts s @ [p'], sw = w'\<rparr> ! i) \<noteq> []
       \<and> storageCache (sw \<lparr>insts = insts s @ [p'], sw = w'\<rparr>) (Path (insts \<lparr>insts = insts s @ [p'], sw = w'\<rparr> ! i))
           = Some (clientReattachConfig (insts \<lparr>insts = insts s @ [p'], sw = w'\<rparr> ! i))
       \<and> (\<forall>j\<in>{..<length (insts \<lparr>insts = insts s @ [p'], sw = w'\<rparr>)}.
             isHost (insts \<lparr>insts = insts s @ [p'], sw = w'\<rparr> ! j)
             \<and> Path (insts \<lparr>insts = insts s @ [p'], sw = w'\<rparr> ! j) = Path (insts \<lparr>insts = insts s @ [p'], sw = w'\<rparr> ! i)
             \<longrightarrow> j = i)"
      using A B by simp
  qed
qed

lemma hostsOk_kill:
  assumes ok: "hostsOk s" and i: "i < length (insts s)"
  shows "hostsOk \<lparr>insts = (insts s)[i := fst (KillClient E (insts s ! i) (sw s))],
                   sw = snd (KillClient E (insts s ! i) (sw s))\<rparr>"
proof -
  let ?p = "insts s ! i"
  let ?xs = "(insts s)[i := ?p\<lparr>isHost := False\<rparr>]"
  let ?w = "snd (KillClient E ?p (sw s))"
  have old: "Path (insts s ! k) \<noteq> [] \<and> storageCache (sw s) (Path (insts s ! k)) = Some (clientReattachConfig (insts s ! k))"
    if "k < length (insts s)" "isHost (insts s ! k)" for k
    using ok that by (auto simp: hostsOk_def)
  have uniq: "j = k" if "k < length (insts s)" "j < length (insts s)" "isHost (insts s ! k)" "isHost (insts s ! j)"
      "Path (insts s ! j) = Path (insts s ! k)" for k j
    using ok that by (auto simp: hostsOk_def)
  have host: "k \<noteq> i \<and> ?xs ! k = insts s ! k" if "k < length (insts s)" "isHost (?xs ! k)" for k
    using that i by (cases "k = i") simp_all
  have keep: "storageCache ?w (Path (insts s ! k)) = storageCache (sw s) (Path (insts s ! k))"
    if k: "k < length (insts s)" "isHost (insts s ! k)" "k \<noteq> i" for k
  proof (cases "isHost ?p")
    case True
    then have "Path (insts s ! k) \<noteq> Path ?p" using uniq[OF i k(1) True k(2)] k(3) by auto
    then show ?thesis by (simp add: KillClient_cache)
  next
    case False
    then show ?thesis by (simp add: KillClient_cache)
  qed
  have "hostsOk \<lparr>insts = ?xs, sw = ?w\<rparr>"
    unfolding hostsOk_def
  proof (intro ballI impI)
    fix k assume k: "k \<in> {..<length (insts \<lparr>insts = ?xs, sw = ?w\<rparr>)}"
      and h: "isHost (insts \<lparr>insts = ?xs, sw = ?w\<rparr> ! k)"
    have kl: "k < length (insts s)" using k by simp
    have hk: "isHost (?xs ! k)" using h by simp
    note K = host[OF kl hk]
    have hk': "isHost (insts s ! k)" using hk K by simp
    have A: "Path (?xs ! k) \<noteq> [] \<and> storageCache ?w (Path (?xs ! k)) = Some (clientReattachConfig (?xs ! k))"
      using old[OF kl hk'] keep[OF kl hk'] K by simp
    have B: "j = k" if j: "j < length (insts s)" and hj: "isHost (?xs ! j)" and pj: "Path (?xs ! j) = Path (?xs ! k)" for j
    proof -
      note J = host[OF j hj]
      show ?thesis using uniq[OF kl j hk'] hj pj J K by simp
    qed
    show "Path (insts \<lparr>insts = ?xs, sw = ?w\<rparr> ! k) \<noteq> []
       \<and> storageCache (sw \<lparr>insts = ?xs, sw = ?w\<rparr>) (Path (insts \<lparr>insts = ?xs, sw = ?w\<rparr> ! k))
           = Some (clientReattachConfig (insts \<lparr>insts = ?xs, sw = ?w\<rparr> ! k))
       \<and> (\<forall>j\<in>{..<length (insts \<lparr>insts = ?xs, sw = ?w\<rparr>)}.
             isHost (insts \<lparr>insts = ?xs, sw = ?w\<rparr> ! j)
             \<and> Path (insts \<lparr>insts = ?xs, sw = ?w\<rparr> ! j) = Path (insts \<lparr>insts = ?xs, sw = ?w\<rparr> ! k)
             \<longrightarrow> j = k)"
      using A B by simp
  qed
  then show ?thesis by (simp add: KillClient_app)
qed

lemma hostsOk_act: "hostsOk s \<Longrightarrow> hostsOk (act a s)"
proof (cases a)
  case (ActLoad E appsDir cp)
  assume ok: "hostsOk s"
  obtain p' w' where l: "load E (newApp E appsDir cp) (sw s) = (p', w')"
    by (cases "load E (newApp E appsDir cp) (sw s)")
  from hostsOk_load[OF ok newApp_not_host l] show ?thesis by (simp add: ActLoad l)
next
  case (ActKill E i)
  assume ok: "hostsOk s"
  show ?thesis
  proof (cases "i < length (insts s)")
    case True
    obtain p' w' where k: "KillClient E (insts s ! i) (sw s) = (p', w')"
      by (cases "KillClient E (insts s ! i) (sw s)")
    from hostsOk_kill[OF ok True, of E] show ?thesis
      by (simp add: ActKill True k)
  next
    case False
    then show ?thesis using ok by (simp add: ActKill)
  qed
qed

lemma hostsOk_run: "hostsOk (run acts w)"
proof (induction acts rule: rev_induct)
  case Nil
  show ?case by (simp add: run_def hostsOk_def)
next
  case (snoc a acts)
  then show ?case using hostsOk_act[of "run acts w" a] by (simp add: run_def)
qed


lemma handshake_localApp:
  assumes "walkItems E ''/local/app'' = []" and "clientErr E = None" and "dispense E ''app'' = Inr i"
    and "RpcManifest i = Inr m" and "\<not> checkConfCache E ''/local/app'' w"
  shows "load_handshake E localApp w = Inr (m,
      localApp\<lparr>client := Some \<lparr>Reattach = None, Cmd = Some ''/local/app/app.ign'', Started = Some (launched E)\<rparr>,
               Interface := Some i\<rparr>,
      w\<lparr>trace := trace w @ handshakeEvents\<rparr>)"
proof -
  have l: "IsLocalPath localApp" and e: "Error localApp = None" and sp: "srcPath localApp = ''/local/app''"
    by (simp_all add: IsLocalPath_def localApp_def app0_def HasPrefix_def)
  have o: "outdatedBinary E localApp w = (False, w)"
    by (simp add: outdatedBinary_def assms(1) sp)
  have b: "load_build E localApp w = (localApp, w)"
    by (simp add: load_build_local[OF l e] o)
  have c: "load_connect E localApp w = Inr (m,
      localApp\<lparr>client := Some \<lparr>Reattach = None, Cmd = Some ''/local/app/app.ign'', Started = Some (launched E)\<rparr>,
               Interface := Some i\<rparr>,
      w\<lparr>trace := trace w @ handshakeEvents\<rparr>)"
    using assms(2-5)
    by (simp add: load_connect_def load_dial_def Let_def binaryPath_localApp local_fields emit_def
        handshakeEvents_def)
  show ?thesis by (simp add: load_handshake_def e b c)
qed

lemma handshake_localApp_reattach:
  assumes "walkItems E ''/local/app'' = []" and "clientErr E = None" and "dispense E ''app'' = Inr i"
    and "RpcManifest i = Inr m" and "newCacheErr E = None" and "storageCache w ''/local/app'' = Some rconf"
  shows "load_handshake E localApp w = Inr (m,
      localApp\<lparr>client := Some \<lparr>Reattach = Some rconf, Cmd = None, Started = Some rconf\<rparr>,
               Interface := Some i\<rparr>,
      w\<lparr>trace := trace w @ handshakeEvents\<rparr>)"
proof -
  have l: "IsLocalPath localApp" and e: "Error localApp = None" and sp: "srcPath localApp = ''/local/app''"
    by (simp_all add: IsLocalPath_def localApp_def app0_def HasPrefix_def)
  have o: "outdatedBinary E localApp w = (False, w)"
    by (simp add: outdatedBinary_def assms(1) sp)
  have b: "load_build E localApp w = (localApp, w)"
    by (simp add: load_build_local[OF l e] o)
  have c: "load_connect E localApp w = Inr (m,
      localApp\<lparr>client := Some \<lparr>Reattach = Some rconf, Cmd = None, Started = Some rconf\<rparr>,
               Interface := Some i\<rparr>,
      w\<lparr>trace := trace w @ handshakeEvents\<rparr>)"
    using assms(2-6)
    by (simp add: load_connect_def checkConfCache_iff readConfigCache_def load_dial_def Let_def
        local_fields emit_def handshakeEvents_def)
  show ?thesis by (simp add: load_handshake_def e b c)
qed

lemma envShared_fields:
  "walkItems envShared ''/local/app'' = []" "clientErr envShared = None"
  "dispense envShared ''app'' = Inr (ifaceOk sharedManifest)" "newCacheErr envShared = None"
  "launched envShared = rc1" "statErr envShared ''/local/app'' = None" "statIsDir envShared ''/local/app''"
  "walkItems envCacheDown ''/local/app'' = []" "clientErr envCacheDown = None"
  "dispense envCacheDown ''app'' = Inr (ifaceOk sharedManifest)"
  "newCacheErr envCacheDown = Some ''cannot open the cache''" "launched envCacheDown = rc1"
  by (simp_all add: envShared_def envCacheDown_def env0_def rc1_def)

lemma sharedManifest_fields: "RpcManifest (ifaceOk sharedManifest) = Inr sharedManifest" "SharedHost sharedManifest"
  by (simp_all add: ifaceOk_def sharedManifest_def)

lemma load_shared_first:
  "load envShared localApp world0
     = (sharedHostApp, world0\<lparr>storageCache := [''/local/app'' \<mapsto> rc1], trace := handshakeEvents\<rparr>)"
proof -
  have n: "\<not> checkConfCache envShared ''/local/app'' world0"
    by (simp add: checkConfCache_iff world0_def)
  note h = handshake_localApp[OF envShared_fields(1,2,3) sharedManifest_fields(1) n]
  show ?thesis
    unfolding load_by_handshake h
    by (simp add: load_publish_def Let_def checkConfCache_iff writeConfigCache_def clientReattachConfig_def
        envShared_fields sharedManifest_fields local_fields world0_def rc1_def sharedHostApp_def)
qed

lemma load_shared_second:
  "load envShared localApp (world0\<lparr>storageCache := [''/local/app'' \<mapsto> rc1], trace := handshakeEvents\<rparr>)
     = (sharedGuestApp, world0\<lparr>storageCache := [''/local/app'' \<mapsto> rc1], trace := handshakeEvents @ handshakeEvents\<rparr>)"
proof -
  have c: "storageCache (world0\<lparr>storageCache := [''/local/app'' \<mapsto> rc1], trace := handshakeEvents\<rparr>) ''/local/app'' = Some rc1"
    by simp
  note h = handshake_localApp_reattach[OF envShared_fields(1,2,3) sharedManifest_fields(1) envShared_fields(4) c]
  show ?thesis
    unfolding load_by_handshake h
    by (simp add: load_publish_def Let_def checkConfCache_iff
        envShared_fields sharedManifest_fields local_fields sharedGuestApp_def)
qed

lemma load_cache_down:
  "load envCacheDown localApp world0
     = (localApp\<lparr>Interface := Some (ifaceOk sharedManifest),
          client := Some \<lparr>Reattach = None, Cmd = Some ''/local/app/app.ign'', Started = Some rc1\<rparr>,
          manifest := Some sharedManifest, isSharedHost := True, Error := Some ''cannot open the cache''\<rparr>,
        world0\<lparr>trace := handshakeEvents\<rparr>)"
proof -
  have n: "\<not> checkConfCache envCacheDown ''/local/app'' world0"
    by (simp add: checkConfCache_iff world0_def)
  note h = handshake_localApp[OF envShared_fields(8,9,10) sharedManifest_fields(1) n]
  show ?thesis
    unfolding load_by_handshake h
    by (simp add: load_publish_def Let_def checkConfCache_iff writeConfigCache_def clientReattachConfig_def
        envShared_fields sharedManifest_fields local_fields world0_def rc1_def)
qed

lemma handshakeShared_down: "handshakeShared envCacheDown localApp world0"
proof -
  have n: "\<not> checkConfCache envCacheDown ''/local/app'' world0"
    by (simp add: checkConfCache_iff world0_def)
  note h = handshake_localApp[OF envShared_fields(8,9,10) sharedManifest_fields(1) n]
  show ?thesis by (simp add: handshakeShared_def h sharedManifest_fields)
qed

lemma handshakeShared_first: "handshakeShared envShared localApp world0"
proof -
  have n: "\<not> checkConfCache envShared ''/local/app'' world0"
    by (simp add: checkConfCache_iff world0_def)
  note h = handshake_localApp[OF envShared_fields(1,2,3) sharedManifest_fields(1) n]
  show ?thesis by (simp add: handshakeShared_def h sharedManifest_fields)
qed

lemma newApp_localConf: "newApp envShared ''/apps'' localConf = localApp"
  by (simp add: newApp_def Let_def localConf_def HasPrefix_def envShared_fields path_Base_def
      localApp_def app0_def)

lemma run_two_loaders:
  "run [ActLoad envShared ''/apps'' localConf, ActLoad envShared ''/apps'' localConf] world0
     = \<lparr>insts = [sharedHostApp, sharedGuestApp],
        sw = world0\<lparr>storageCache := [''/local/app'' \<mapsto> rc1], trace := handshakeEvents @ handshakeEvents\<rparr>\<rparr>"
  by (simp add: run_def newApp_localConf load_shared_first load_shared_second)

text \<open>
  C1, as stated, fails: the manifest declares shared hosting and the cache holds no entry
  for the reference, but the cache store cannot be opened; \<open>load\<close> does not become the
  host and publishes nothing, it sets \<open>Error\<close>.
\<close>

theorem publishing_fails_counterexample:
  "handshakeShared envCacheDown localApp world0
   \<and> storageCache world0 (Path localApp) = None
   \<and> \<not> isHost (fst (load envCacheDown localApp world0))
   \<and> Error (fst (load envCacheDown localApp world0)) = Some ''cannot open the cache''
   \<and> storageCache (snd (load envCacheDown localApp world0)) (Path localApp) = None"
proof -
  have c: "storageCache world0 (Path localApp) = None" by (simp add: world0_def)
  have nh: "\<not> isHost localApp" by (simp add: localApp_def app0_def)
  show ?thesis by (simp add: handshakeShared_down load_cache_down c nh)
qed

text \<open>
  C1, amended. For an App value that is not a host, \<open>load\<close> makes it the host exactly
  when the handshake yields a manifest that declares shared hosting, the cache holds no
  entry for the reference, and the descriptor can be published (the reference is not
  empty, the store opens, the descriptor has an address); it then publishes the
  descriptor of its own connection under the reference, without error. In every other
  case the cache is left as it was; when the manifest is shared, no entry was reported
  and publishing fails, \<open>Error\<close> is set. A loader that found an entry is never the host.
  Over any sequence of loads and \<open>KillClient\<close> calls, from any initial state, at most one
  loaded value per reference is the host and the entry under its reference is the
  descriptor it published. (The fetch, the build and the handshake do not touch the
  cache, so the entry that exists before \<open>load\<close> is the entry after the handshake.)
\<close>

theorem shared_host_policy:
  "(load E p w = (p', w') \<and> \<not> isHost p \<longrightarrow>
      (isHost p' \<longleftrightarrow> handshakeShared E p w \<and> Path p \<noteq> [] \<and> newCacheErr E = None
           \<and> storageCache w (Path p) = None \<and> Addr (launched E) \<noteq> None)
    \<and> (isHost p' \<longrightarrow> Error p' = None \<and> clientReattachConfig p' = launched E
           \<and> storageCache w' = (storageCache w)(Path p \<mapsto> launched E))
    \<and> (\<not> isHost p' \<longrightarrow> storageCache w' = storageCache w)
    \<and> (handshakeShared E p w \<and> \<not> checkConfCache E (Path p) w \<and> \<not> isHost p' \<longrightarrow> Error p' \<noteq> None)
    \<and> (checkConfCache E (Path p) w \<longrightarrow> \<not> isHost p'))
   \<and> hostsOk (run acts w0)"
proof -
  have "checkConfCache E (Path p) w \<longrightarrow> \<not> isHost p'" if "load E p w = (p', w')" "\<not> isHost p"
    using load_host_facts(2)[OF that] by (auto simp: checkConfCache_iff)
  then show ?thesis
    using load_host_facts[of E p w p' w'] hostsOk_run[of acts w0] by blast
qed

theorem shared_host_policy_witness:
  "load envShared localApp world0
     = (sharedHostApp, world0\<lparr>storageCache := [''/local/app'' \<mapsto> rc1], trace := handshakeEvents\<rparr>)
   \<and> \<not> isHost localApp
   \<and> handshakeShared envShared localApp world0 \<and> Path localApp = ''/local/app''
   \<and> newCacheErr envShared = None \<and> storageCache world0 ''/local/app'' = None
   \<and> launched envShared = rc1 \<and> Addr rc1 \<noteq> None
   \<and> isHost sharedHostApp \<and> Error sharedHostApp = None \<and> clientReattachConfig sharedHostApp = rc1
   \<and> map isHost (insts (run [ActLoad envShared ''/apps'' localConf, ActLoad envShared ''/apps'' localConf] world0))
        = [True, False]
   \<and> hostsOk (run [ActLoad envShared ''/apps'' localConf, ActLoad envShared ''/apps'' localConf] world0)"
proof -
  note T = shared_host_policy[of envShared localApp world0 sharedHostApp
      "world0\<lparr>storageCache := [''/local/app'' \<mapsto> rc1], trace := handshakeEvents\<rparr>"
      "[ActLoad envShared ''/apps'' localConf, ActLoad envShared ''/apps'' localConf]" world0]
  have nh: "\<not> isHost localApp" by (simp add: localApp_def app0_def)
  have c: "storageCache world0 ''/local/app'' = None" by (simp add: world0_def)
  have a: "Addr rc1 \<noteq> None" by (simp add: rc1_def)
  have h: "isHost sharedHostApp"
    using T load_shared_first nh handshakeShared_first local_fields(1) envShared_fields(4,5) c a by simp
  have e: "Error sharedHostApp = None \<and> clientReattachConfig sharedHostApp = rc1"
    using T load_shared_first nh h envShared_fields(5) by simp
  have r: "map isHost (insts (run [ActLoad envShared ''/apps'' localConf, ActLoad envShared ''/apps'' localConf] world0))
        = [True, False]"
    by (simp add: run_two_loaders sharedHostApp_def sharedGuestApp_def localApp_def app0_def)
  have k: "hostsOk (run [ActLoad envShared ''/apps'' localConf, ActLoad envShared ''/apps'' localConf] world0)"
    using T by simp
  show ?thesis
    using load_shared_first nh handshakeShared_first local_fields(1) envShared_fields(4,5) c a h e r k
    by simp
qed

section \<open>Resolving a remote reference\<close>

lemma LastIndex_None: "ch \<notin> set s \<Longrightarrow> LastIndex s ch = None"
  by (induction s) auto

lemma LastIndex_last: "ch \<notin> set ys \<Longrightarrow> LastIndex (xs @ ch # ys) ch = Some (length xs)"
  by (induction xs) (simp_all add: LastIndex_None)

lemma Split_no_sep: "sep \<notin> set s \<Longrightarrow> Split s sep = [s]"
  by (induction s) auto

lemma Split_append: "sep \<notin> set x \<Longrightarrow> Split (x @ sep # s) sep = x # Split s sep"
  by (induction x) auto

lemma Join_Cons: "es \<noteq> [] \<Longrightarrow> Join (x # es) sep = x @ sep @ Join es sep"
  by (cases es) simp_all

lemma Join_append: "xs \<noteq> [] \<Longrightarrow> ys \<noteq> [] \<Longrightarrow> Join (xs @ ys) sep = Join xs sep @ sep @ Join ys sep"
proof (induction xs)
  case Nil
  then show ?case by simp
next
  case (Cons x xs)
  show ?case
  proof (cases "xs = []")
    case True
    then show ?thesis using Cons.prems by (simp add: Join_Cons)
  next
    case False
    then show ?thesis using Cons by (simp add: Join_Cons)
  qed
qed

lemma Split_Join: "segs \<noteq> [] \<Longrightarrow> \<forall>s\<in>set segs. sep \<notin> set s \<Longrightarrow> Split (Join segs [sep]) sep = segs"
proof (induction segs)
  case Nil
  then show ?case by simp
next
  case (Cons x segs)
  show ?case
  proof (cases "segs = []")
    case True
    then show ?thesis using Cons.prems by (simp add: Split_no_sep)
  next
    case False
    then show ?thesis using Cons by (simp add: Join_Cons Split_append)
  qed
qed

lemma cleanParts_plain:
  "\<forall>s\<in>set segs. s = [] \<or> segOK s \<Longrightarrow>
   cleanParts rooted segs out = rev out @ filter (\<lambda>s. s \<noteq> []) segs"
  by (induction segs arbitrary: out) (auto simp: segOK_def)

lemma Join_nonempty: "segs \<noteq> [] \<Longrightarrow> hd segs \<noteq> [] \<Longrightarrow> Join segs sep \<noteq> []"
proof (cases segs)
  case Nil
  assume "segs \<noteq> []"
  then show ?thesis using Nil by simp
next
  case (Cons x xs)
  assume "hd segs \<noteq> []"
  then show ?thesis using Cons by (cases xs) simp_all
qed


lemma Join_hd: "segs \<noteq> [] \<Longrightarrow> hd segs \<noteq> [] \<Longrightarrow> hd (Join segs sep) = hd (hd segs)"
proof (cases segs)
  case Nil
  assume "segs \<noteq> []"
  then show ?thesis using Nil by simp
next
  case (Cons x xs)
  assume "hd segs \<noteq> []"
  then show ?thesis using Cons by (cases xs) simp_all
qed

lemma Join_last:
  "segs \<noteq> [] \<Longrightarrow> last segs \<noteq> [] \<Longrightarrow> last (Join segs sep) = last (last segs)"
proof (induction segs)
  case Nil
  then show ?case by simp
next
  case (Cons x segs)
  show ?case
  proof (cases "segs = []")
    case True
    then show ?thesis by simp
  next
    case False
    then have "Join segs sep \<noteq> [] \<and> last (Join segs sep) = last (last segs)"
    proof -
      have l: "last segs \<noteq> []" using Cons.prems(2) False by simp
      have "Join segs sep = Join (butlast segs) sep @ sep @ last segs \<or> Join segs sep = last segs"
      proof (cases "butlast segs = []")
        case True
        then have "segs = [last segs]" using False by (metis append_butlast_last_id append_Nil)
        then have "Join segs sep = Join [last segs] sep" by simp
        then show ?thesis by simp
      next
        case bl: False
        have "Join (butlast segs @ [last segs]) sep = Join (butlast segs) sep @ sep @ Join [last segs] sep"
          using Join_append[OF bl, of "[last segs]" sep] by simp
        then show ?thesis using False by simp
      qed
      then have "Join segs sep \<noteq> []" using l by auto
      then show ?thesis using Cons.IH[OF False l] by simp
    qed
    then show ?thesis using False by (simp add: Join_Cons)
  qed
qed

lemma segOK_hd: "segOK s \<Longrightarrow> hd s \<noteq> CHR ''/''"
  by (cases s) (auto simp: segOK_def)

lemma segOK_last: "segOK s \<Longrightarrow> last s \<noteq> CHR ''/''"
  by (metis last_in_set segOK_def)

lemma Join_not_rooted:
  assumes "segs \<noteq> []" and "segOK (hd segs)"
  shows "\<not> HasPrefix (Join segs ''/'') ''/''"
proof -
  have h: "hd segs \<noteq> []" using assms(2) by (simp add: segOK_def)
  have n: "Join segs ''/'' \<noteq> []" using Join_nonempty[OF assms(1) h] .
  have "hd (Join segs ''/'') \<noteq> CHR ''/''" using Join_hd[OF assms(1) h] segOK_hd[OF assms(2)] by simp
  then show ?thesis using n by (cases "Join segs ''/''") (simp_all add: HasPrefix_def)
qed

lemma segOK_no_slash: "s = [] \<or> segOK s \<Longrightarrow> CHR ''/'' \<notin> set s"
  unfolding segOK_def by auto

lemma segOK_nonempty: "segOK s \<Longrightarrow> s \<noteq> []"
  by (simp add: segOK_def)

lemma filter_segOK: "\<forall>s\<in>set segs. segOK s \<Longrightarrow> filter (\<lambda>s. s \<noteq> []) segs = segs"
  by (induction segs) (simp_all add: segOK_nonempty)

text \<open>\<open>path.Clean\<close> of a relative and of a rooted path whose components are kept; empty
  components are allowed after the first.\<close>

lemma path_Clean_relative:
  assumes "segs \<noteq> []" and "segOK (hd segs)" and "\<forall>s\<in>set segs. s = [] \<or> segOK s"
  shows "path_Clean (Join segs ''/'') = Join (filter (\<lambda>s. s \<noteq> []) segs) ''/''"
proof -
  have h: "hd segs \<noteq> []" using assms(2) by (simp add: segOK_def)
  have n: "Join segs ''/'' \<noteq> []" using Join_nonempty[OF assms(1) h] .
  have ns: "\<forall>s\<in>set segs. CHR ''/'' \<notin> set s" using assms(3) segOK_no_slash by blast
  have sp: "Split (Join segs ''/'') CHR ''/'' = segs" using Split_Join[OF assms(1) ns] by simp
  obtain x xs where xs: "segs = x # xs" using assms(1) by (cases segs) auto
  then have "x \<noteq> []" using h by simp
  then have f: "filter (\<lambda>s. s \<noteq> []) segs \<noteq> []" "hd (filter (\<lambda>s. s \<noteq> []) segs) \<noteq> []"
    by (simp_all add: xs)
  have r: "Join (filter (\<lambda>s. s \<noteq> []) segs) ''/'' \<noteq> []" using Join_nonempty[OF f] .
  have c: "cleanParts False segs [] = filter (\<lambda>s. s \<noteq> []) segs"
    using cleanParts_plain[OF assms(3), of False "[]"] by simp
  have nr: "HasPrefix (Join segs ''/'') ''/'' = False" using Join_not_rooted[OF assms(1,2)] by simp
  show ?thesis
    unfolding path_Clean_def Let_def nr sp c
    using n r by simp
qed

lemma path_Clean_rooted:
  assumes "\<forall>s\<in>set segs. s = [] \<or> segOK s"
  shows "path_Clean (''/'' @ Join segs ''/'') = ''/'' @ Join (filter (\<lambda>s. s \<noteq> []) segs) ''/''"
proof -
  have "\<forall>s\<in>set segs. CHR ''/'' \<notin> set s" using assms segOK_no_slash by blast
  then have ns: "\<forall>s\<in>set ([] # segs). CHR ''/'' \<notin> set s" by simp
  have sp: "Split (CHR ''/'' # Join segs ''/'') CHR ''/'' = [] # (if segs = [] then [[]] else segs)"
  proof (cases "segs = []")
    case True
    then show ?thesis by simp
  next
    case False
    have "Split (Join ([] # segs) ''/'') CHR ''/'' = [] # segs"
      using Split_Join[of "[] # segs" "CHR ''/''"] ns by simp
    moreover have "Join ([] # segs) ''/'' = CHR ''/'' # Join segs ''/''"
      using False by (simp add: Join_Cons)
    ultimately show ?thesis using False by simp
  qed
  have c: "cleanParts True (Split (CHR ''/'' # Join segs ''/'') CHR ''/'') [] = filter (\<lambda>s. s \<noteq> []) segs"
    unfolding sp using cleanParts_plain[OF assms, of True "[]"] by simp
  have hp: "HasPrefix (CHR ''/'' # Join segs ''/'') ''/'' = True" by (simp add: HasPrefix_def)
  have "path_Clean (CHR ''/'' # Join segs ''/'') = CHR ''/'' # Join (filter (\<lambda>s. s \<noteq> []) segs) ''/''"
    unfolding path_Clean_def Let_def hp c by simp
  then show ?thesis by simp
qed

lemma joinBuf_buf:
  "buf \<noteq> [] \<Longrightarrow> joinBuf es buf = Join (buf # es) ''/''"
proof (induction es arbitrary: buf)
  case Nil
  then show ?case by simp
next
  case (Cons e es)
  have "joinBuf (e # es) buf = joinBuf es (buf @ ''/'' @ e)" using Cons.prems by simp
  also have "\<dots> = Join ((buf @ ''/'' @ e) # es) ''/''" using Cons.IH[of "buf @ ''/'' @ e"] Cons.prems by simp
  also have "\<dots> = Join (buf # e # es) ''/''" by (cases es) simp_all
  finally show ?case .
qed

lemma joinBuf_start: "e \<noteq> [] \<Longrightarrow> joinBuf (e # es) [] = Join (e # es) ''/''"
  using joinBuf_buf[of e es] by simp

lemma path_Join_segs:
  assumes "segs \<noteq> []" and "\<forall>s\<in>set segs. segOK s"
  shows "path_Join segs = Join segs ''/''"
proof -
  obtain x xs where c: "segs = x # xs" using assms(1) by (cases segs) auto
  have x: "x \<noteq> []" "segOK (hd segs)" using assms(2) c segOK_nonempty[of x] by simp_all
  have cc: "concat segs \<noteq> []" using c x by simp
  have jb: "joinBuf segs [] = Join segs ''/''" using joinBuf_start[OF x(1), of xs] c by simp
  have pc: "path_Clean (Join segs ''/'') = Join segs ''/''"
  proof -
    have a: "\<forall>s\<in>set segs. s = [] \<or> segOK s" using assms(2) by simp
    have f: "filter (\<lambda>s. s \<noteq> []) segs = segs" using assms(2) by (rule filter_segOK)
    show ?thesis using path_Clean_relative[OF assms(1) x(2) a] f by simp
  qed
  show ?thesis unfolding path_Join_def by (simp only: cc if_False jb pc)
qed

lemma path_Base_segs:
  assumes "segs \<noteq> []" and "\<forall>s\<in>set segs. segOK s"
  shows "path_Base (Join segs ''/'') = last segs"
proof -
  have hl: "segOK (hd segs)" "segOK (last segs)" using assms by simp_all
  then have h: "hd segs \<noteq> []" and l: "last segs \<noteq> []" by (simp_all add: segOK_def)
  have n: "Join segs ''/'' \<noteq> []" using Join_nonempty[OF assms(1) h] .
  have "last (Join segs ''/'') \<noteq> CHR ''/''" using Join_last[OF assms(1) l] segOK_last[OF hl(2)] by simp
  then have "dropWhile (\<lambda>c. c = CHR ''/'') (rev (Join segs ''/'')) = rev (Join segs ''/'')"
    using n by (cases "Join segs ''/''" rule: rev_cases) simp_all
  then have t: "rev (dropWhile (\<lambda>c. c = CHR ''/'') (rev (Join segs ''/''))) = Join segs ''/''" by simp
  have nl: "CHR ''/'' \<notin> set (last segs)" using hl(2) by (simp add: segOK_def)
  have "(case LastIndex (Join segs ''/'') CHR ''/'' of Some i \<Rightarrow> drop (Suc i) (Join segs ''/'') | None \<Rightarrow> Join segs ''/'')
      = last segs"
  proof (cases "butlast segs = []")
    case True
    then have "segs = [last segs]" using assms(1) by (metis append_butlast_last_id append_Nil)
    then have "Join segs ''/'' = last segs" by (metis Join.simps(2))
    then show ?thesis using nl by (simp add: LastIndex_None)
  next
    case False
    have "Join (butlast segs @ [last segs]) ''/'' = Join (butlast segs) ''/'' @ ''/'' @ Join [last segs] ''/''"
      using Join_append[OF False, of "[last segs]" "''/''"] by simp
    then have j: "Join segs ''/'' = Join (butlast segs) ''/'' @ CHR ''/'' # last segs"
      using assms(1) by simp
    show ?thesis unfolding j using LastIndex_last[OF nl, of "Join (butlast segs) ''/''"] by simp
  qed
  then show ?thesis using n l t by (simp add: path_Base_def Let_def)
qed


lemma path_Join_segs_all: "\<forall>s\<in>set segs. segOK s \<Longrightarrow> path_Join segs = Join segs ''/''"
proof (cases "segs = []")
  case True
  then show ?thesis by (simp add: path_Join_def)
next
  case False
  assume "\<forall>s\<in>set segs. segOK s"
  then show ?thesis using path_Join_segs[OF False] by simp
qed

lemma path_Join_two:
  assumes pre: "pre = [] \<or> pre = ''/''" and xs: "xs \<noteq> []" and sx: "\<forall>s\<in>set xs. segOK s"
    and sy: "\<forall>s\<in>set ys. segOK s"
  shows "path_Join [pre @ Join xs ''/'', Join ys ''/''] = pre @ Join (xs @ ys) ''/''"
proof -
  define ys' where "ys' = (if ys = [] then [[]] else ys)"
  have hx: "segOK (hd xs)" using xs sx by simp
  have nx: "Join xs ''/'' \<noteq> []" using Join_nonempty[OF xs segOK_nonempty[OF hx]] .
  then have a: "pre @ Join xs ''/'' \<noteq> []" by simp
  have cc: "concat [pre @ Join xs ''/'', Join ys ''/''] \<noteq> []" using nx by simp
  have y': "ys' \<noteq> []" "Join ys' ''/'' = Join ys ''/''" by (simp_all add: ys'_def)
  have jb: "joinBuf [pre @ Join xs ''/'', Join ys ''/''] [] = pre @ Join (xs @ ys') ''/''"
    using a Join_append[OF xs y'(1), of "''/''"] y'(2) by simp
  have al: "\<forall>s\<in>set (xs @ ys'). s = [] \<or> segOK s" using sx sy by (auto simp: ys'_def)
  have f: "filter (\<lambda>s. s \<noteq> []) (xs @ ys') = xs @ ys"
    using filter_segOK[OF sx] filter_segOK[OF sy] by (simp add: ys'_def)
  have ne: "xs @ ys' \<noteq> []" and hd': "segOK (hd (xs @ ys'))" using xs hx by simp_all
  have "path_Clean (pre @ Join (xs @ ys') ''/'') = pre @ Join (xs @ ys) ''/''"
  proof (cases "pre = []")
    case True
    then show ?thesis using path_Clean_relative[OF ne hd' al] f by simp
  next
    case False
    then have "pre = ''/''" using pre by simp
    then show ?thesis using path_Clean_rooted[OF al] f by simp
  qed
  then show ?thesis unfolding path_Join_def by (simp only: cc if_False jb)
qed

lemma ReplaceAll_no_old: "old \<noteq> new \<Longrightarrow> old \<notin> set (ReplaceAll s old new)"
  by (auto simp: ReplaceAll_def)

lemma segOK_suffixed:
  assumes "segOK s" and "CHR ''/'' \<notin> set t"
  shows "segOK (s @ ''-'' @ t)"
proof -
  have "CHR ''-'' \<in> set (s @ ''-'' @ t)" by simp
  moreover have "CHR ''-'' \<notin> set ''.''" "CHR ''-'' \<notin> set ''..''" by simp_all
  ultimately have "s @ ''-'' @ t \<noteq> ''.''" "s @ ''-'' @ t \<noteq> ''..''" by metis+
  then show ?thesis using assms unfolding segOK_def by simp
qed

lemma newApp_remote_revision:
  assumes P: "Path cp = Join segs ''/'' @ ''@'' @ rv"
    and L: "3 \<le> length segs" and S: "\<forall>s\<in>set segs. segOK s"
    and R: "rv \<noteq> []" and A: "CHR ''@'' \<notin> set rv"
    and D: "appsDir = pre @ Join dsegs ''/''" and Dp: "pre = [] \<or> pre = ''/''"
    and Dn: "dsegs \<noteq> []" and Ds: "\<forall>s\<in>set dsegs. segOK s"
  shows "newApp E appsDir cp =
     \<lparr>Path = Path cp, With = With cp, Global = Global cp, Interface = None, Error = None,
      name = last segs,
      repoPath = Join (take 3 segs) ''/'' @ ''@'' @ rv,
      cloneURL = xurl_HTTPS (Join (take 3 segs) ''/''),
      cloneDir = appsDir @ ''/'' @ Join (take 3 segs) ''/'' @ ''-'' @ ReplaceAll rv CHR ''/'' CHR ''-'',
      reference = rv,
      srcPath = appsDir @ ''/'' @ Join (take 3 segs) ''/'' @ ''-'' @ ReplaceAll rv CHR ''/'' CHR ''-''
                  @ (if length segs = 3 then [] else ''/'' @ Join (drop 3 segs) ''/''),
      client = None, manifest = None, isHost = False, isSharedHost = False\<rparr>"
proof -
  define base where "base = Join segs ''/''"
  define rv' where "rv' = ReplaceAll rv CHR ''/'' CHR ''-''"
  define xsegs where "xsegs = take 2 segs @ [segs ! 2 @ ''-'' @ rv']"
  have sn: "segs \<noteq> []" using L by auto
  have hs: "segOK (hd segs)" using sn S by simp
  have bn: "base \<noteq> []" unfolding base_def using Join_nonempty[OF sn segOK_nonempty[OF hs]] .
  have p: "Path cp = base @ CHR ''@'' # rv" using P by (simp add: base_def)
  have pn: "Path cp \<noteq> []" using p by simp
  have nr: "\<not> HasPrefix base ''/''" unfolding base_def using Join_not_rooted[OF sn hs] .
  have np: "\<not> HasPrefix (Path cp) ''/''"
    using nr bn unfolding p HasPrefix_def by (cases base) simp_all
  have li: "LastIndex (Path cp) CHR ''@'' = Some (length base)"
    unfolding p using LastIndex_last[OF A] .
  have dr: "drop (Suc (length base)) (Path cp) = rv" and tk: "take (length base) (Path cp) = base"
    unfolding p by simp_all
  have ns: "\<forall>s\<in>set segs. CHR ''/'' \<notin> set s" using S segOK_no_slash by blast
  have sp: "Split base CHR ''/'' = segs" unfolding base_def using Split_Join[OF sn ns] by simp
  have t3: "\<forall>s\<in>set (take 3 segs). segOK s" using S by (meson in_set_takeD)
  have d3: "\<forall>s\<in>set (drop 3 segs). segOK s" using S by (meson in_set_dropD)
  have repo: "path_Join (take 3 segs) = Join (take 3 segs) ''/''" using path_Join_segs_all[OF t3] .
  have sub: "path_Join (drop 3 segs) = Join (drop 3 segs) ''/''" using path_Join_segs_all[OF d3] .
  have t32: "take 3 segs = take 2 segs @ [segs ! 2]"
    using L take_Suc_conv_app_nth[of 2 segs] by (simp add: numeral_3_eq_3 numeral_2_eq_2)
  have t2n: "take 2 segs \<noteq> []" using sn by simp
  have s2: "segOK (segs ! 2)" using S L by simp
  have rvs: "CHR ''/'' \<notin> set rv'" unfolding rv'_def by (rule ReplaceAll_no_old) simp
  have x: "Join (take 3 segs) ''/'' @ ''-'' @ rv' = Join xsegs ''/''"
    unfolding t32 xsegs_def using Join_append[OF t2n, of "[segs ! 2]" "''/''"]
      Join_append[OF t2n, of "[segs ! 2 @ ''-'' @ rv']" "''/''"] by simp
  have xs: "\<forall>s\<in>set xsegs. segOK s"
    using S segOK_suffixed[OF s2 rvs] unfolding xsegs_def by (auto dest: in_set_takeD)
  have xn: "xsegs \<noteq> []" by (simp add: xsegs_def)
  have dir: "path_Join [appsDir, Join (take 3 segs) ''/'' @ ''-'' @ rv'] = appsDir @ ''/'' @ Join xsegs ''/''"
    unfolding x D using path_Join_two[OF Dp Dn Ds xs] Join_append[OF Dn xn, of "''/''"] by simp
  have dx: "dsegs @ xsegs \<noteq> []" "\<forall>s\<in>set (dsegs @ xsegs). segOK s" using Dn Ds xs by auto
  have dj: "appsDir @ ''/'' @ Join xsegs ''/'' = pre @ Join (dsegs @ xsegs) ''/''"
    unfolding D using Join_append[OF Dn xn, of "''/''"] by simp
  have src: "path_Join [appsDir @ ''/'' @ Join xsegs ''/'', Join (drop 3 segs) ''/'']
      = (appsDir @ ''/'' @ Join xsegs ''/'') @ (if length segs = 3 then [] else ''/'' @ Join (drop 3 segs) ''/'')"
  proof (cases "length segs = 3")
    case True
    then have "drop 3 segs = []" by simp
    then show ?thesis unfolding dj using path_Join_two[OF Dp dx d3] True by simp
  next
    case False
    then have dn: "drop 3 segs \<noteq> []" using L by simp
    show ?thesis unfolding dj using path_Join_two[OF Dp dx d3] False Join_append[OF dx(1) dn, of "''/''"]
      by simp
  qed
  have nm: "path_Base base = last segs" unfolding base_def using path_Base_segs[OF sn S] .
  have len: "\<not> length segs < 3" using L by simp
  have dir': "path_Join [appsDir, Join (take 3 segs) ''/'' @ ''-'' @ ReplaceAll rv CHR ''/'' CHR ''-'']
      = appsDir @ ''/'' @ Join (take 3 segs) ''/'' @ ''-'' @ ReplaceAll rv CHR ''/'' CHR ''-''"
    using dir unfolding x[symmetric] rv'_def .
  have src': "path_Join [appsDir @ ''/'' @ Join (take 3 segs) ''/'' @ ''-'' @ ReplaceAll rv CHR ''/'' CHR ''-'',
                         Join (drop 3 segs) ''/'']
      = (appsDir @ ''/'' @ Join (take 3 segs) ''/'' @ ''-'' @ ReplaceAll rv CHR ''/'' CHR ''-'')
          @ (if length segs = 3 then [] else ''/'' @ Join (drop 3 segs) ''/'')"
    using src unfolding x[symmetric] rv'_def .
  have "newApp E appsDir cp =
     \<lparr>Path = Path cp, With = With cp, Global = Global cp, Interface = None, Error = None,
      name = [], repoPath = [], cloneURL = [], cloneDir = [], reference = [], srcPath = [],
      client = None, manifest = None, isHost = False, isSharedHost = False\<rparr>
     \<lparr>repoPath := path_Join (take 3 segs) @ ''@'' @ rv,
      cloneURL := xurl_HTTPS (path_Join (take 3 segs)),
      cloneDir := path_Join [appsDir, path_Join (take 3 segs) @ ''-'' @ ReplaceAll rv CHR ''/'' CHR ''-''],
      reference := rv,
      srcPath := path_Join [path_Join [appsDir, path_Join (take 3 segs) @ ''-'' @ ReplaceAll rv CHR ''/'' CHR ''-''],
                            path_Join (drop 3 segs)],
      name := path_Base base\<rparr>"
    unfolding newApp_def Let_def
    by (simp only: pn np li dr tk sp len R if_False if_True option.case prod.case not_False_eq_True simp_thms)
  then show ?thesis
    unfolding repo sub dir' src' nm by simp
qed

text \<open>
  C8. A remote reference is a repository path of at least three components, possibly
  followed by a subpath, then \<open>@\<close> and a revision; the apps directory is a clean path.
  \<open>newApp\<close> resolves it without error: the clone directory is the apps directory joined
  with the three-component repository path, a dash, and the revision with every slash
  replaced by a dash; the source path is the clone directory joined with the subpath;
  the name is the last component before the \<open>@\<close>; the stored repository path is the
  repository path, \<open>@\<close>, and the revision with its slashes intact (the whole reference
  when there is no subpath).
\<close>

theorem newApp_revision_with_slash:
  assumes "Path cp = Join segs ''/'' @ ''@'' @ rv"
    and "3 \<le> length segs" and "\<forall>s\<in>set segs. segOK s"
    and "rv \<noteq> []" and "CHR ''@'' \<notin> set rv"
    and "appsDir = pre @ Join dsegs ''/''" and "pre = [] \<or> pre = ''/''"
    and "dsegs \<noteq> []" and "\<forall>s\<in>set dsegs. segOK s"
  shows "Error (newApp E appsDir cp) = None
    \<and> reference (newApp E appsDir cp) = rv
    \<and> cloneDir (newApp E appsDir cp)
         = appsDir @ ''/'' @ Join (take 3 segs) ''/'' @ ''-'' @ ReplaceAll rv CHR ''/'' CHR ''-''
    \<and> CHR ''/'' \<notin> set (ReplaceAll rv CHR ''/'' CHR ''-'')
    \<and> srcPath (newApp E appsDir cp)
         = cloneDir (newApp E appsDir cp) @ (if length segs = 3 then [] else ''/'' @ Join (drop 3 segs) ''/'')
    \<and> name (newApp E appsDir cp) = last segs
    \<and> repoPath (newApp E appsDir cp) = Join (take 3 segs) ''/'' @ ''@'' @ rv
    \<and> (length segs = 3 \<longrightarrow> repoPath (newApp E appsDir cp) = Path cp)"
proof -
  note N = newApp_remote_revision[OF assms, of E]
  have "CHR ''/'' \<notin> set (ReplaceAll rv CHR ''/'' CHR ''-'')" by (rule ReplaceAll_no_old) simp
  moreover have "length segs = 3 \<longrightarrow> Join (take 3 segs) ''/'' @ ''@'' @ rv = Path cp"
    using assms(1) by simp
  ultimately show ?thesis unfolding N by simp
qed

theorem newApp_revision_with_slash_witness:
  "Path scenarioB = Join [''github.com'', ''ignite'', ''app'', ''app1''] ''/'' @ ''@'' @ ''package/v1.0.0''
   \<and> list_all segOK [''github.com'', ''ignite'', ''app'', ''app1'']
   \<and> CHR ''@'' \<notin> set ''package/v1.0.0''
   \<and> ''.ignite/apps'' = [] @ Join [''.ignite'', ''apps''] ''/''
   \<and> list_all segOK [''.ignite'', ''apps'']
   \<and> Error (newApp env0 ''.ignite/apps'' scenarioB) = None
   \<and> reference (newApp env0 ''.ignite/apps'' scenarioB) = ''package/v1.0.0''
   \<and> cloneDir (newApp env0 ''.ignite/apps'' scenarioB) = ''.ignite/apps/github.com/ignite/app-package-v1.0.0''
   \<and> srcPath (newApp env0 ''.ignite/apps'' scenarioB) = ''.ignite/apps/github.com/ignite/app-package-v1.0.0/app1''
   \<and> name (newApp env0 ''.ignite/apps'' scenarioB) = ''app1''
   \<and> repoPath (newApp env0 ''.ignite/apps'' scenarioB) = ''github.com/ignite/app@package/v1.0.0''"
proof -
  have p: "Path scenarioB = Join [''github.com'', ''ignite'', ''app'', ''app1''] ''/'' @ ''@'' @ ''package/v1.0.0''"
    by (simp add: scenarioB_def)
  have l: "3 \<le> length [''github.com'', ''ignite'', ''app'', ''app1'']" by simp
  have s: "\<forall>s\<in>set [''github.com'', ''ignite'', ''app'', ''app1'']. segOK s" by (simp add: segOK_def)
  have r: "''package/v1.0.0'' \<noteq> []" and a: "CHR ''@'' \<notin> set ''package/v1.0.0''" by simp_all
  have d: "''.ignite/apps'' = [] @ Join [''.ignite'', ''apps''] ''/''" by simp
  have dp: "([]::string) = [] \<or> [] = ''/''" by simp
  have dn: "[''.ignite'', ''apps''] \<noteq> []" by simp
  have ds: "\<forall>s\<in>set [''.ignite'', ''apps'']. segOK s" by (simp add: segOK_def)
  note T = newApp_revision_with_slash[OF p l s r a d dp dn ds, of env0]
  have 1: "Error (newApp env0 ''.ignite/apps'' scenarioB) = None"
    and 2: "reference (newApp env0 ''.ignite/apps'' scenarioB) = ''package/v1.0.0''"
    and 3: "cloneDir (newApp env0 ''.ignite/apps'' scenarioB) = ''.ignite/apps/github.com/ignite/app-package-v1.0.0''"
    and 5: "name (newApp env0 ''.ignite/apps'' scenarioB) = ''app1''"
    and 6: "repoPath (newApp env0 ''.ignite/apps'' scenarioB) = ''github.com/ignite/app@package/v1.0.0''"
    using T by (simp_all add: ReplaceAll_def)
  have 4: "srcPath (newApp env0 ''.ignite/apps'' scenarioB) = ''.ignite/apps/github.com/ignite/app-package-v1.0.0/app1''"
    using T 3 by simp
  have s': "list_all segOK [''github.com'', ''ignite'', ''app'', ''app1'']"
    and ds': "list_all segOK [''.ignite'', ''apps'']"
    by (simp_all add: segOK_def)
  show ?thesis using p s' a d ds' 1 2 3 4 5 6 by blast
qed

end
